(* ===== verification/Base.thy ===== *)
theory Base
  imports Complex_Main "HOL-Library.Char_ord" "HOL-Library.List_Lexorder" "HOL-Library.Word"
begin

unbundle bit_operations_syntax

text \<open>
  The prelude of the development: the named collections, decimal numerals as text,
  splitting of strings, the collecting loop without duplicates that several components
  share, machines driven by a list of events, and the interface locales of such machines.
\<close>

named_theorems text_simps \<open>evaluation of text helpers on characters and strings\<close>
named_theorems machine_simps \<open>unfolding of one step of a component's machine\<close>

type_synonym u32 = "32 word"

section \<open>Decimal numerals\<close>

definition digit_char :: "nat \<Rightarrow> char" where
  "digit_char d = char_of (48 + d)"

definition digit_value :: "char \<Rightarrow> nat" where
  "digit_value c = of_char c - 48"

definition is_ascii_digit :: "char \<Rightarrow> bool" where
  "is_ascii_digit c \<longleftrightarrow> CHR ''0'' \<le> c \<and> c \<le> CHR ''9''"

fun decimal :: "nat \<Rightarrow> string" where
  "decimal n = (if n < 10 then [digit_char n] else decimal (n div 10) @ [digit_char (n mod 10)])"

declare decimal.simps [simp del]

lemma digit_char_literals [text_simps]:
  "digit_char 0 = CHR ''0''" "digit_char (Suc 0) = CHR ''1''" "digit_char 2 = CHR ''2''"
  "digit_char 3 = CHR ''3''" "digit_char 4 = CHR ''4''" "digit_char 5 = CHR ''5''"
  "digit_char 6 = CHR ''6''" "digit_char 7 = CHR ''7''" "digit_char 8 = CHR ''8''"
  "digit_char 9 = CHR ''9''"
  by code_simp+

definition undecimal :: "string \<Rightarrow> nat" where
  "undecimal s = foldl (\<lambda>v c. v * 10 + digit_value c) 0 s"

text \<open>\<open>QString::number\<close> and \<open>std::to_string\<close> on a signed integer.\<close>

definition decimal_int :: "int \<Rightarrow> string" where
  "decimal_int i = (if i < 0 then CHR ''-'' # decimal (nat (- i)) else decimal (nat i))"

lemma char_le_of_char: "(c::char) \<le> d \<longleftrightarrow> (of_char c :: nat) \<le> of_char d"
  by (simp add: less_eq_char_def)

lemma is_ascii_digit_iff: "is_ascii_digit c \<longleftrightarrow> 48 \<le> (of_char c :: nat) \<and> (of_char c :: nat) \<le> 57"
  by (simp add: is_ascii_digit_def char_le_of_char)

lemma of_char_digit_char: "d < 10 \<Longrightarrow> (of_char (digit_char d) :: nat) = 48 + d"
  by (simp add: digit_char_def of_char_of)

lemma digit_value_digit_char [simp]: "d < 10 \<Longrightarrow> digit_value (digit_char d) = d"
  by (simp add: digit_value_def of_char_digit_char)

lemma is_ascii_digit_digit_char [simp]: "d < 10 \<Longrightarrow> is_ascii_digit (digit_char d)"
  by (simp add: is_ascii_digit_iff of_char_digit_char)

lemma undecimal_snoc: "undecimal (s @ [c]) = undecimal s * 10 + digit_value c"
  by (simp add: undecimal_def)

lemma decimal_not_Nil [simp]: "decimal n \<noteq> []"
  by (subst decimal.simps) simp

lemma decimal_digits: "\<forall>c \<in> set (decimal n). is_ascii_digit c"
proof (induction n rule: decimal.induct)
  case (1 n)
  show ?case
  proof (cases "n < 10")
    case False
    with 1 show ?thesis by (subst decimal.simps) auto
  qed (subst decimal.simps, simp)
qed

lemma undecimal_decimal [simp]: "undecimal (decimal n) = n"
proof (induction n rule: decimal.induct)
  case (1 n)
  show ?case
  proof (cases "n < 10")
    case True
    then show ?thesis by (subst decimal.simps) (simp add: undecimal_def)
  next
    case False
    with 1 show ?thesis by (subst decimal.simps) (simp add: undecimal_snoc)
  qed
qed

lemma decimal_inject [simp]: "decimal m = decimal n \<longleftrightarrow> m = n"
  by (metis undecimal_decimal)

lemma hd_decimal_append: "hd (decimal n @ s) = hd (decimal n)"
  by (simp add: hd_append)

lemma hd_decimal_pos: "0 < n \<Longrightarrow> hd (decimal n) \<noteq> CHR ''0''"
proof (induction n rule: decimal.induct)
  case (1 n)
  show ?case
  proof (cases "n < 10")
    case True
    have "(of_char (digit_char n) :: nat) = 48 + n" using True by (rule of_char_digit_char)
    with 1(2) have "digit_char n \<noteq> CHR ''0''" by auto
    with True show ?thesis by (subst decimal.simps) simp
  next
    case False
    with 1 show ?thesis by (subst decimal.simps) (simp add: hd_decimal_append)
  qed
qed

lemma length_decimal_le: "n < 10 ^ k \<Longrightarrow> 0 < k \<Longrightarrow> length (decimal n) \<le> k"
proof (induction n arbitrary: k rule: decimal.induct)
  case (1 n)
  show ?case
  proof (cases "n < 10")
    case True
    with 1 show ?thesis by (subst decimal.simps) simp
  next
    case False
    with 1(2,3) have "k \<noteq> Suc 0" by auto
    with 1(3) obtain j where j: "k = Suc j" "0 < j" by (cases k) auto
    with 1(2) have "n div 10 < 10 ^ j" by auto
    with 1(1) False j have "length (decimal (n div 10)) \<le> j" by blast
    with False j show ?thesis by (subst decimal.simps) simp
  qed
qed

lemma decimal_notin: "\<not> is_ascii_digit c \<Longrightarrow> c \<notin> set (decimal n)"
  using decimal_digits by blast

section \<open>Splitting, trimming and joining strings\<close>

fun split_where :: "(char \<Rightarrow> bool) \<Rightarrow> string \<Rightarrow> string list" where
  "split_where P [] = [[]]"
| "split_where P (x # xs) =
     (if P x then [] # split_where P xs
      else (case split_where P xs of [] \<Rightarrow> [[x]] | p # ps \<Rightarrow> (x # p) # ps))"

text \<open>\<open>QString::split(QChar)\<close> with empty parts kept, and the split that skips them.\<close>

definition split_on :: "char \<Rightarrow> string \<Rightarrow> string list" where
  "split_on c s = split_where (\<lambda>x. x = c) s"

definition tokens_where :: "(char \<Rightarrow> bool) \<Rightarrow> string \<Rightarrow> string list" where
  "tokens_where P s = filter (\<lambda>t. t \<noteq> []) (split_where P s)"

fun join :: "string \<Rightarrow> string list \<Rightarrow> string" where
  "join sep [] = []"
| "join sep [p] = p"
| "join sep (p # q # ps) = p @ sep @ join sep (q # ps)"

definition trim_where :: "(char \<Rightarrow> bool) \<Rightarrow> string \<Rightarrow> string" where
  "trim_where P s = rev (dropWhile P (rev (dropWhile P s)))"

definition starts_with :: "string \<Rightarrow> string \<Rightarrow> bool" where
  "starts_with p s \<longleftrightarrow> take (length p) s = p"

definition ends_with :: "string \<Rightarrow> string \<Rightarrow> bool" where
  "ends_with p s \<longleftrightarrow> length p \<le> length s \<and> drop (length s - length p) s = p"

fun has_infix :: "string \<Rightarrow> string \<Rightarrow> bool" where
  "has_infix p [] \<longleftrightarrow> p = []"
| "has_infix p (x # xs) \<longleftrightarrow> starts_with p (x # xs) \<or> has_infix p xs"

text \<open>\<open>indexOf\<close>: the position of the first occurrence of a needle, if there is one.\<close>

fun index_of :: "string \<Rightarrow> string \<Rightarrow> nat option" where
  "index_of p [] = (if p = [] then Some 0 else None)"
| "index_of p (x # xs) = (if starts_with p (x # xs) then Some 0 else map_option Suc (index_of p xs))"

lemma split_where_not_Nil [simp]: "split_where P s \<noteq> []"
  by (induction s) (auto split: list.splits)

lemma split_where_noP: "(\<forall>x \<in> set s. \<not> P x) \<Longrightarrow> split_where P s = [s]"
  by (induction s) auto

lemma split_where_append:
  "(\<forall>x \<in> set p. \<not> P x) \<Longrightarrow> P c \<Longrightarrow> split_where P (p @ c # s) = p # split_where P s"
  by (induction p) auto

lemma split_where_parts: "\<forall>p \<in> set (split_where P s). (\<forall>x \<in> set p. \<not> P x) \<and> set p \<subseteq> set s"
  by (induction s) (auto split: list.splits)

lemma split_on_join:
  "ps \<noteq> [] \<Longrightarrow> (\<forall>p \<in> set ps. c \<notin> set p) \<Longrightarrow> split_on c (join [c] ps) = ps"
proof (induction "[c]" ps rule: join.induct)
  case (2 p)
  then show ?case by (auto simp: split_on_def intro!: split_where_noP)
next
  case (3 p q ps)
  have "\<forall>x \<in> set p. x \<noteq> c" using 3 by auto
  then have "split_on c (p @ c # join [c] (q # ps)) = p # split_on c (join [c] (q # ps))"
    unfolding split_on_def by (rule split_where_append) simp
  with 3 show ?case by simp
qed simp

lemma split_on_one: "c \<notin> set a \<Longrightarrow> split_on c a = [a]"
  unfolding split_on_def by (rule split_where_noP) auto

lemma split_on_two: "c \<notin> set a \<Longrightarrow> c \<notin> set b \<Longrightarrow> split_on c (a @ c # b) = [a, b]"
  using split_on_join [of "[a, b]" c] by simp

lemma set_join: "set (join sep ps) \<subseteq> set sep \<union> (\<Union>p \<in> set ps. set p)"
  by (induction sep ps rule: join.induct) auto

lemma dropWhile_none: "(\<forall>x \<in> set s. \<not> P x) \<Longrightarrow> dropWhile P s = s"
  by (cases s) auto

lemma trim_where_id: "(\<forall>x \<in> set s. \<not> P x) \<Longrightarrow> trim_where P s = s"
  by (simp add: trim_where_def dropWhile_none)

lemma set_trim_where: "set (trim_where P s) \<subseteq> set s"
  by (auto simp: trim_where_def dest!: set_dropWhileD)

lemma trim_where_idem [simp]: "trim_where P (trim_where P s) = trim_where P s"
proof -
  define t where "t = dropWhile P s"
  define u where "u = dropWhile P (rev t)"
  have t: "t = [] \<or> \<not> P (hd t)" using hd_dropWhile [of P s] by (cases "t = []") (simp_all add: t_def)
  have "t = rev u @ rev (takeWhile P (rev t))"
    by (simp add: u_def flip: rev_append)
  then have "rev u = [] \<or> hd (rev u) = hd t" by (metis hd_append2)
  with t have "rev u = [] \<or> \<not> P (hd (rev u))" by (auto simp: u_def)
  then have "dropWhile P (rev u) = rev u" by (simp add: dropWhile_eq_self_iff)
  moreover have "dropWhile P u = u" by (simp add: u_def)
  ultimately show ?thesis by (simp add: trim_where_def flip: t_def u_def)
qed

lemma tokens_where_append:
  assumes "p \<noteq> []" "\<forall>x \<in> set p. \<not> P x" "sep \<noteq> []" "\<forall>x \<in> set sep. P x"
  shows "tokens_where P (p @ sep @ s) = p # tokens_where P s"
proof -
  have skip: "tokens_where P (seps @ s) = tokens_where P s" if "\<forall>x \<in> set seps. P x" for seps
    using that by (induction seps) (simp_all add: tokens_where_def)
  obtain c cs where sep: "sep = c # cs" using assms(3) by (cases sep) auto
  have "tokens_where P (p @ sep @ s) = p # tokens_where P (cs @ s)"
    using assms sep by (simp add: tokens_where_def split_where_append)
  then show ?thesis using skip [of cs] assms sep by simp
qed

lemma tokens_where_join:
  assumes "\<forall>p \<in> set ps. p \<noteq> [] \<and> (\<forall>x \<in> set p. \<not> P x)" "sep \<noteq> []" "\<forall>x \<in> set sep. P x"
  shows "tokens_where P (join sep ps) = ps"
  using assms
proof (induction sep ps rule: join.induct)
  case (1 sep)
  then show ?case by (simp add: tokens_where_def)
next
  case (2 sep p)
  then show ?case by (simp add: tokens_where_def split_where_noP)
next
  case (3 sep p q ps)
  then show ?case by (simp add: tokens_where_append)
qed

lemma length_join_le:
  "(\<forall>p \<in> set ps. length p \<le> k) \<Longrightarrow> length (join sep ps) \<le> length ps * (k + length sep)"
  by (induction sep ps rule: join.induct) auto

lemma set_tokens_where: "t \<in> set (tokens_where P s) \<Longrightarrow> t \<noteq> [] \<and> (\<forall>x \<in> set t. \<not> P x)"
  using split_where_parts [of P s] by (auto simp: tokens_where_def)

section \<open>Collecting without duplicates\<close>

text \<open>
  The loop that several components share: every input is normalised, a failure aborts,
  a value already present is skipped and every other value is appended.
\<close>

text \<open>An empty text stands for rejection.\<close>

definition non_empty :: "'a list \<Rightarrow> 'a list option" where
  "non_empty s = (if s = [] then None else Some s)"

lemma non_empty_eq [simp]:
  "non_empty s = Some t \<longleftrightarrow> s = t \<and> t \<noteq> []" "non_empty s = None \<longleftrightarrow> s = []"
  by (auto simp: non_empty_def)

definition add_new :: "'b \<Rightarrow> 'b list \<Rightarrow> 'b list" where
  "add_new y acc = (if y \<in> set acc then acc else acc @ [y])"

fun collect :: "('a \<Rightarrow> 'b option) \<Rightarrow> 'b list \<Rightarrow> 'a list \<Rightarrow> 'b list option" where
  "collect f acc [] = Some acc"
| "collect f acc (x # xs) = (case f x of None \<Rightarrow> None | Some y \<Rightarrow> collect f (add_new y acc) xs)"

text \<open>The same loop for a normalisation whose empty result means rejection.\<close>

definition collected :: "('a \<Rightarrow> 'b list) \<Rightarrow> 'a list \<Rightarrow> 'b list list option" where
  "collected f xs = collect (\<lambda>x. non_empty (f x)) [] xs"

lemma set_add_new [simp]: "set (add_new y acc) = insert y (set acc)"
  by (auto simp: add_new_def)

lemma distinct_add_new [simp]: "distinct (add_new y acc) = distinct acc"
  by (auto simp: add_new_def)

lemma length_add_new: "length (add_new y acc) \<le> Suc (length acc)"
  by (simp add: add_new_def)

lemma collect_distinct: "collect f acc xs = Some ys \<Longrightarrow> distinct acc \<Longrightarrow> distinct ys"
  by (induction xs arbitrary: acc) (auto split: option.splits)

lemma collect_set: "collect f acc xs = Some ys \<Longrightarrow> set ys = set acc \<union> {y. \<exists>x \<in> set xs. f x = Some y}"
proof (induction xs arbitrary: acc)
  case (Cons x xs)
  from Cons.prems obtain y where "f x = Some y" and "collect f (add_new y acc) xs = Some ys"
    by (auto split: option.splits)
  with Cons.IH [of "add_new y acc"] show ?case by auto
qed simp

lemma collect_length: "collect f acc xs = Some ys \<Longrightarrow> length ys \<le> length acc + length xs"
proof (induction xs arbitrary: acc)
  case (Cons x xs)
  from Cons.prems obtain y where "f x = Some y" and "collect f (add_new y acc) xs = Some ys"
    by (auto split: option.splits)
  with Cons.IH [of "add_new y acc"] length_add_new [of y acc] show ?case by simp
qed simp

lemma collect_Some_iff: "(\<exists>ys. collect f acc xs = Some ys) \<longleftrightarrow> (\<forall>x \<in> set xs. f x \<noteq> None)"
  by (induction xs arbitrary: acc) (auto split: option.splits)

lemma collect_id:
  "distinct (acc @ ys) \<Longrightarrow> (\<forall>y \<in> set ys. f y = Some y) \<Longrightarrow> collect f acc ys = Some (acc @ ys)"
proof (induction ys arbitrary: acc)
  case (Cons y ys)
  then have "add_new y acc = acc @ [y]" by (simp add: add_new_def)
  with Cons show ?case by simp
qed simp

lemma collected_distinct: "collected f xs = Some ys \<Longrightarrow> distinct ys"
  unfolding collected_def by (drule collect_distinct) simp_all

lemma collected_iff: "(\<exists>ys. collected f xs = Some ys) \<longleftrightarrow> (\<forall>x \<in> set xs. f x \<noteq> [])"
  unfolding collected_def collect_Some_iff by simp

lemma collected_set:
  assumes "collected f xs = Some ys"
  shows "set ys = f ` set xs" "[] \<notin> set ys"
proof -
  have all: "\<forall>x \<in> set xs. f x \<noteq> []" using assms collected_iff [of f xs] by blast
  have "set ys = {y. \<exists>x \<in> set xs. f x = y \<and> y \<noteq> []}"
    using collect_set [OF assms [unfolded collected_def]] by simp
  with all show "set ys = f ` set xs" "[] \<notin> set ys" by auto
qed

lemma collected_length: "collected f xs = Some ys \<Longrightarrow> length ys \<le> length xs"
  unfolding collected_def by (drule collect_length) simp

lemma collected_id:
  "\<lbrakk>distinct ys; \<forall>y \<in> set ys. f y = y \<and> y \<noteq> []\<rbrakk> \<Longrightarrow> collected f ys = Some ys"
  unfolding collected_def using collect_id [of "[]" ys "\<lambda>x. non_empty (f x)"] by simp

section \<open>Machines driven by events\<close>

fun run :: "('s \<Rightarrow> 'e \<Rightarrow> 's \<times> 'o) \<Rightarrow> 's \<Rightarrow> 'e list \<Rightarrow> 's" where
  "run step s [] = s"
| "run step s (e # es) = run step (fst (step s e)) es"

fun outs :: "('s \<Rightarrow> 'e \<Rightarrow> 's \<times> 'o) \<Rightarrow> 's \<Rightarrow> 'e list \<Rightarrow> 'o list" where
  "outs step s [] = []"
| "outs step s (e # es) = snd (step s e) # outs step (fst (step s e)) es"

lemma run_append [simp]: "run step s (xs @ ys) = run step (run step s xs) ys"
  by (induction xs arbitrary: s) auto

lemma outs_append [simp]: "outs step s (xs @ ys) = outs step s xs @ outs step (run step s xs) ys"
  by (induction xs arbitrary: s) auto

lemma length_outs [simp]: "length (outs step s es) = length es"
  by (induction es arbitrary: s) auto

text \<open>A machine with an invariant, and one whose state also never moves backwards in an order.\<close>

locale invariant_machine =
  fixes step :: "'s \<Rightarrow> 'e \<Rightarrow> 's \<times> 'o"
    and inv :: "'s \<Rightarrow> bool"
  assumes inv_step: "inv s \<Longrightarrow> inv (fst (step s e))"
begin

lemma inv_run: "inv s \<Longrightarrow> inv (run step s es)"
  by (induction es arbitrary: s) (auto intro: inv_step)

end

locale monotone_machine = invariant_machine step inv
  for step :: "'s \<Rightarrow> 'e \<Rightarrow> 's \<times> 'o" and inv :: "'s \<Rightarrow> bool" +
  fixes level :: "'s \<Rightarrow> 'm::preorder"
  assumes level_step: "inv s \<Longrightarrow> level s \<le> level (fst (step s e))"
begin

lemma level_run: "inv s \<Longrightarrow> level s \<le> level (run step s es)"
proof (induction es arbitrary: s)
  case (Cons e es)
  have "level s \<le> level (fst (step s e))" using Cons.prems by (rule level_step)
  also have "\<dots> \<le> level (run step (fst (step s e)) es)"
    using Cons.prems by (intro Cons.IH inv_step)
  finally show ?case by simp
qed simp

end

text \<open>
  The contract of a one-shot permission: an output that counts as fired needs an armed
  state and leaves it disarmed, and only the rearming events arm it again.
\<close>

locale one_shot_machine =
  fixes step :: "'s \<Rightarrow> 'e \<Rightarrow> 's \<times> 'o"
    and fired :: "'o \<Rightarrow> bool"
    and armed :: "'s \<Rightarrow> bool"
    and rearms :: "'e \<Rightarrow> bool"
  assumes fired_armed: "fired (snd (step s e)) \<Longrightarrow> armed s"
    and fired_disarms: "fired (snd (step s e)) \<Longrightarrow> \<not> armed (fst (step s e))"
    and stays_disarmed: "\<not> armed s \<Longrightarrow> \<not> rearms e \<Longrightarrow> \<not> armed (fst (step s e))"
begin

lemma disarmed_silent:
  "\<not> armed s \<Longrightarrow> (\<forall>e \<in> set es. \<not> rearms e) \<Longrightarrow> filter fired (outs step s es) = []"
proof (induction es arbitrary: s)
  case (Cons e es)
  have "\<not> fired (snd (step s e))" using Cons.prems(1) by (blast dest: fired_armed)
  moreover have "\<not> armed (fst (step s e))" using Cons.prems by (simp add: stays_disarmed)
  ultimately show ?case using Cons by simp
qed simp

lemma at_most_once:
  "(\<forall>e \<in> set es. \<not> rearms e) \<Longrightarrow> length (filter fired (outs step s es)) \<le> 1"
proof (induction es arbitrary: s)
  case (Cons e es)
  show ?case
  proof (cases "fired (snd (step s e))")
    case True
    then have "\<not> armed (fst (step s e))" by (rule fired_disarms)
    then have "filter fired (outs step (fst (step s e)) es) = []"
      using Cons.prems by (intro disarmed_silent) auto
    then show ?thesis by simp
  next
    case False
    with Cons show ?thesis by simp
  qed
qed simp

end

text \<open>
  The contract of a budget: a step spends at most the credit the state holds together with what the step
  earns. Over every sequence of steps at most as much is spent as was there or earned.
\<close>

definition occurrences ::
  "('e \<Rightarrow> 'o \<Rightarrow> bool) \<Rightarrow> ('s \<Rightarrow> 'e \<Rightarrow> 's \<times> 'o) \<Rightarrow> 's \<Rightarrow> 'e list \<Rightarrow> nat" where
  "occurrences P step s es = length (filter (\<lambda>(e, x). P e x) (zip es (outs step s es)))"

lemma occurrences_simps [simp]:
  "occurrences P step s [] = 0"
  "occurrences P step s (e # es) = of_bool (P e (snd (step s e))) + occurrences P step (fst (step s e)) es"
  by (simp_all add: occurrences_def)

locale credit_machine =
  fixes step :: "'s \<Rightarrow> 'e \<Rightarrow> 's \<times> 'o"
    and earns :: "'e \<Rightarrow> 'o \<Rightarrow> bool"
    and spends :: "'e \<Rightarrow> 'o \<Rightarrow> bool"
    and credit :: "'s \<Rightarrow> bool"
  assumes spends_credit: "spends e (snd (step s e)) \<Longrightarrow>
      (credit s \<and> \<not> credit (fst (step s e))) \<or> earns e (snd (step s e)) \<and> \<not> credit (fst (step s e))"
    and credit_earned: "credit (fst (step s e)) \<Longrightarrow> credit s \<or> earns e (snd (step s e))"
begin

lemma spent_within:
  "occurrences spends step s es + of_bool (credit (run step s es))
     \<le> of_bool (credit s) + occurrences earns step s es"
proof (induction es arbitrary: s)
  case (Cons e es)
  let ?s' = "fst (step s e)"
  have "of_bool (spends e (snd (step s e))) + of_bool (credit ?s')
        \<le> of_bool (credit s) + (of_bool (earns e (snd (step s e))) :: nat)"
    using spends_credit [of e s] credit_earned [of s e] by auto
  then show ?case using Cons [of ?s'] by simp
qed simp

end

end
