(* ===== verification/Qt_Types.thy ===== *)
theory Qt_Types
  imports Base
begin

text \<open>
  The vocabulary the client code takes from Qt. Texts are sequences of characters with the
  sequence operations of \<open>Base\<close>; JSON values, addresses and instants are datatypes.
  What Qt computes and the repository only calls (Unicode classes, address and number
  parsing, IDNA, SHA-256, JSON and date texts) is the record \<open>qt\<close>, an argument of every
  definition that uses it. \<open>qt_ref\<close> is one concrete instance, on which the theorems
  are exercised.
\<close>

section \<open>Doubles and JSON values\<close>

datatype qdouble = Finite rat | PosInf | NegInf | NaN

fun dbl_isfinite :: "qdouble \<Rightarrow> bool" where
  "dbl_isfinite (Finite r) = True"
| "dbl_isfinite _ = False"

fun dbl_floor :: "qdouble \<Rightarrow> qdouble" where
  "dbl_floor (Finite r) = Finite (of_int \<lfloor>r\<rfloor>)"
| "dbl_floor d = d"

text \<open>IEEE comparisons: every comparison with a NaN is false.\<close>

fun dbl_eq :: "qdouble \<Rightarrow> qdouble \<Rightarrow> bool" where
  "dbl_eq NaN _ = False"
| "dbl_eq _ NaN = False"
| "dbl_eq a b = (a = b)"

fun dbl_less :: "qdouble \<Rightarrow> qdouble \<Rightarrow> bool" where
  "dbl_less (Finite a) (Finite b) = (a < b)"
| "dbl_less NegInf (Finite b) = True"
| "dbl_less NegInf PosInf = True"
| "dbl_less (Finite a) PosInf = True"
| "dbl_less _ _ = False"

definition dbl_le :: "qdouble \<Rightarrow> qdouble \<Rightarrow> bool" where
  "dbl_le a b \<longleftrightarrow> dbl_less a b \<or> dbl_eq a b"

definition dbl_int :: "int \<Rightarrow> qdouble" where
  "dbl_int i = Finite (of_int i)"

text \<open>\<open>static_cast<qint64>\<close> of a double that is a whole number in range.\<close>

fun dbl_to_int :: "qdouble \<Rightarrow> int" where
  "dbl_to_int (Finite r) = \<lfloor>r\<rfloor>"
| "dbl_to_int _ = 0"

datatype json =
    JUndefined
  | JNull
  | JBool bool
  | JDouble qdouble
  | JString string
  | JArray "json list"
  | JObject "(string \<times> json) list"

text \<open>A \<open>QJsonObject\<close> is its list of members in key order, the order of its iterators.\<close>

type_synonym jobject = "(string \<times> json) list"

definition obj_value :: "jobject \<Rightarrow> string \<Rightarrow> json" where
  "obj_value ob k = (case map_of ob k of None \<Rightarrow> JUndefined | Some v \<Rightarrow> v)"

definition obj_contains :: "jobject \<Rightarrow> string \<Rightarrow> bool" where
  "obj_contains ob k \<longleftrightarrow> map_of ob k \<noteq> None"

definition obj_remove :: "string \<Rightarrow> jobject \<Rightarrow> jobject" where
  "obj_remove k ob = filter (\<lambda>(x, _). x \<noteq> k) ob"

fun obj_put :: "string \<Rightarrow> json \<Rightarrow> jobject \<Rightarrow> jobject" where
  "obj_put k v [] = [(k, v)]"
| "obj_put k v ((x, w) # ob) =
     (if k < x then (k, v) # (x, w) # ob
      else if k = x then (k, v) # ob
      else (x, w) # obj_put k v ob)"

text \<open>\<open>QJsonObject::insert\<close> of an undefined value removes the member.\<close>

definition obj_insert :: "string \<Rightarrow> json \<Rightarrow> jobject \<Rightarrow> jobject" where
  "obj_insert k v ob = (if v = JUndefined then obj_remove k ob else obj_put k v ob)"

definition obj_keys :: "jobject \<Rightarrow> string list" where
  "obj_keys ob = map fst ob"

definition obj_of :: "(string \<times> json) list \<Rightarrow> jobject" where
  "obj_of kvs = foldl (\<lambda>ob (k, v). obj_insert k v ob) [] kvs"

definition wf_obj :: "jobject \<Rightarrow> bool" where
  "wf_obj ob \<longleftrightarrow> sorted_wrt (<) (map fst ob) \<and> (\<forall>v \<in> snd ` set ob. v \<noteq> JUndefined)"

definition is_undefined :: "json \<Rightarrow> bool" where
  "is_undefined v \<longleftrightarrow> v = JUndefined"

fun is_bool :: "json \<Rightarrow> bool" where
  "is_bool (JBool b) = True" | "is_bool _ = False"

fun is_double :: "json \<Rightarrow> bool" where
  "is_double (JDouble d) = True" | "is_double _ = False"

fun is_string :: "json \<Rightarrow> bool" where
  "is_string (JString s) = True" | "is_string _ = False"

fun is_array :: "json \<Rightarrow> bool" where
  "is_array (JArray xs) = True" | "is_array _ = False"

fun is_object :: "json \<Rightarrow> bool" where
  "is_object (JObject ob) = True" | "is_object _ = False"

fun to_bool :: "bool \<Rightarrow> json \<Rightarrow> bool" where
  "to_bool d (JBool b) = b" | "to_bool d _ = d"

fun to_string :: "string \<Rightarrow> json \<Rightarrow> string" where
  "to_string d (JString s) = s" | "to_string d _ = d"

fun to_object :: "json \<Rightarrow> jobject" where
  "to_object (JObject ob) = ob" | "to_object _ = []"

fun to_array :: "json \<Rightarrow> json list" where
  "to_array (JArray xs) = xs" | "to_array _ = []"

fun to_double :: "qdouble \<Rightarrow> json \<Rightarrow> qdouble" where
  "to_double d (JDouble x) = x" | "to_double d _ = d"

text \<open>\<open>QJsonValue::toInt\<close>: the default unless the value is a whole number in the range of \<open>int\<close>.\<close>

fun to_int :: "int \<Rightarrow> json \<Rightarrow> int" where
  "to_int d (JDouble (Finite r)) =
     (if of_int \<lfloor>r\<rfloor> = r \<and> -2147483648 \<le> \<lfloor>r\<rfloor> \<and> \<lfloor>r\<rfloor> \<le> 2147483647 then \<lfloor>r\<rfloor> else d)"
| "to_int d _ = d"

abbreviation jstr :: "json \<Rightarrow> string" where
  "jstr v \<equiv> to_string [] v"

abbreviation jint :: "int \<Rightarrow> json" where
  "jint i \<equiv> JDouble (dbl_int i)"

section \<open>Laws of objects\<close>

lemma map_of_obj_put: "map_of (obj_put k v ob) = (map_of ob)(k \<mapsto> v)"
  by (induction k v ob rule: obj_put.induct) auto

lemma map_of_obj_remove: "map_of (obj_remove k ob) = (map_of ob)(k := None)"
  by (induction ob) (auto simp: obj_remove_def)

lemma obj_value_insert [simp]:
  "obj_value (obj_insert k v ob) j = (if j = k then v else obj_value ob j)"
  by (simp add: obj_value_def obj_insert_def map_of_obj_put map_of_obj_remove)

lemma obj_contains_insert [simp]:
  "obj_contains (obj_insert k v ob) j = (if j = k then v \<noteq> JUndefined else obj_contains ob j)"
  by (simp add: obj_contains_def obj_insert_def map_of_obj_put map_of_obj_remove)

lemma obj_value_remove [simp]:
  "obj_value (obj_remove k ob) j = (if j = k then JUndefined else obj_value ob j)"
  by (simp add: obj_value_def map_of_obj_remove)

lemma obj_value_Nil [simp]: "obj_value [] k = JUndefined"
  by (simp add: obj_value_def)

lemma obj_contains_Nil [simp]: "\<not> obj_contains [] k"
  by (simp add: obj_contains_def)

lemma obj_insert_not_Nil: "v \<noteq> JUndefined \<Longrightarrow> obj_insert k v ob \<noteq> []"
  by (cases ob) (auto simp: obj_insert_def split: if_splits)

lemma set_obj_put: "set (obj_put k v ob) \<subseteq> insert (k, v) (set ob)"
  by (induction k v ob rule: obj_put.induct) auto

lemma keys_obj_put: "fst ` set (obj_put k v ob) = insert k (fst ` set ob)"
  by (induction k v ob rule: obj_put.induct) auto

lemma sorted_obj_put: "sorted_wrt (<) (map fst ob) \<Longrightarrow> sorted_wrt (<) (map fst (obj_put k v ob))"
proof (induction k v ob rule: obj_put.induct)
  case (2 k v x w ob)
  note IH = 2(1) and srt = 2(2)
  consider (lt) "k < x" | (eq) "k = x" | (gt) "x < k" by (rule linorder_cases)
  then show ?case
  proof cases
    case lt
    with srt show ?thesis by (auto intro: less_trans)
  next
    case eq
    with srt show ?thesis by simp
  next
    case gt
    with IH srt have "sorted_wrt (<) (map fst (obj_put k v ob))" by simp
    moreover have "\<forall>y \<in> fst ` set (obj_put k v ob). x < y" using srt gt by (auto simp: keys_obj_put)
    ultimately show ?thesis using gt by auto
  qed
qed simp

lemma wf_obj_Nil [simp]: "wf_obj []"
  by (simp add: wf_obj_def)

lemma wf_obj_insert: "wf_obj ob \<Longrightarrow> wf_obj (obj_insert k v ob)"
proof -
  assume wf: "wf_obj ob"
  show ?thesis
  proof (cases "v = JUndefined")
    case True
    have "sorted_wrt (<) (map fst (obj_remove k ob))" if "sorted_wrt (<) (map fst ob)"
      using that by (induction ob) (auto simp: obj_remove_def)
    with wf True show ?thesis by (auto simp: wf_obj_def obj_insert_def obj_remove_def)
  next
    case False
    with wf set_obj_put [of k v ob] show ?thesis
      by (auto simp: wf_obj_def obj_insert_def sorted_obj_put)
  qed
qed

text \<open>Two well-formed objects with the same members are the same object.\<close>

lemma distinct_map_of_id:
  "distinct (map fst xs) \<Longrightarrow> map (\<lambda>k. (k, the (map_of xs k))) (map fst xs) = xs"
  by (auto intro!: map_idI simp: map_of_is_SomeI)

lemma wf_obj_eqI:
  assumes "wf_obj a" "wf_obj b" "\<And>k. obj_value a k = obj_value b k"
  shows "a = b"
proof -
  have dom: "map_of ob k = (if obj_value ob k = JUndefined then None else Some (obj_value ob k))"
    if "wf_obj ob" for ob k
  proof (cases "map_of ob k")
    case (Some v)
    then have "v \<in> snd ` set ob" by (force dest: map_of_SomeD)
    with that Some show ?thesis by (auto simp: obj_value_def wf_obj_def)
  qed (simp add: obj_value_def)
  then have same: "map_of a = map_of b" using assms by (simp add: fun_eq_iff)
  have srt: "sorted (map fst ob) \<and> distinct (map fst ob)" if "wf_obj ob" for ob
    using that by (simp add: wf_obj_def strict_sorted_iff)
  from same have "dom (map_of a) = dom (map_of b)" by simp
  then have "set (map fst a) = set (map fst b)" by (simp add: dom_map_of_conv_image_fst)
  with srt [OF assms(1)] srt [OF assms(2)] have "map fst a = map fst b"
    by (blast intro: sorted_distinct_set_unique)
  then show ?thesis
    using srt [OF assms(1)] srt [OF assms(2)] same distinct_map_of_id by metis
qed

section \<open>Instants, addresses and the services of Qt\<close>

text \<open>A \<open>QDateTime\<close> is its UTC instant in milliseconds, \<open>None\<close> when it is not valid.\<close>

type_synonym qdatetime = "int option"

definition dt_valid :: "qdatetime \<Rightarrow> bool" where
  "dt_valid t \<longleftrightarrow> t \<noteq> None"

definition dt_le :: "qdatetime \<Rightarrow> qdatetime \<Rightarrow> bool" where
  "dt_le a b \<longleftrightarrow> (case (a, b) of (Some x, Some y) \<Rightarrow> x \<le> y | _ \<Rightarrow> False)"

definition dt_less :: "qdatetime \<Rightarrow> qdatetime \<Rightarrow> bool" where
  "dt_less a b \<longleftrightarrow> (case (a, b) of (Some x, Some y) \<Rightarrow> x < y | _ \<Rightarrow> False)"

definition dt_addSecs :: "int \<Rightarrow> qdatetime \<Rightarrow> qdatetime" where
  "dt_addSecs n t = map_option (\<lambda>x. x + n * 1000) t"

definition dt_addMSecs :: "int \<Rightarrow> qdatetime \<Rightarrow> qdatetime" where
  "dt_addMSecs n t = map_option (\<lambda>x. x + n) t"

lemmas dt_defs = dt_valid_def dt_le_def dt_less_def dt_addSecs_def dt_addMSecs_def

datatype qhost = QHostNull | QHostV4 u32 | QHostV6 "128 word" string

fun is_v4 :: "qhost \<Rightarrow> bool" where
  "is_v4 (QHostV4 a) = True" | "is_v4 _ = False"

fun to_ipv4 :: "qhost \<Rightarrow> u32" where
  "to_ipv4 (QHostV4 a) = a" | "to_ipv4 _ = 0"

text \<open>
  The fields are, in order: \<open>QChar::isSpace\<close>, \<open>QChar::isDigit\<close>, membership in the
  category \<open>Other_Control\<close>, the characters that
  \<open>QChar::isNull\<close>, \<open>isSpace\<close> or one of the categories \<open>Other_*\<close> names, \<open>QString::toLower\<close> and
  \<open>toUpper\<close>, the class \<open>\s\<close> of \<open>QRegularExpression\<close>,
  \<open>QString::toInt\<close> and \<open>toULongLong\<close> with their \<open>ok\<close> flag, \<open>QHostAddress\<close> from text,
  \<open>toString\<close>, \<open>isLoopback\<close>, \<open>isBroadcast\<close>, \<open>isLinkLocal\<close>, \<open>isMulticast\<close>,
  \<open>QHostAddress::parseSubnet\<close> and \<open>isInSubnet\<close>, \<open>QUrl::toAce\<close>, the host of a strictly parsed \<open>QUrl\<close>,
  \<open>QString::toUtf8\<close>, SHA-256, \<open>QJsonDocument::toJson(Compact)\<close> and \<open>fromJson\<close>, the ISO date
  texts in both directions, and \<open>QVariant::toLongLong\<close> of a double.
\<close>

record qt =
  q_isSpace :: "char \<Rightarrow> bool"
  q_isDigit :: "char \<Rightarrow> bool"
  q_isControl :: "char \<Rightarrow> bool"
  q_isBareForbidden :: "char \<Rightarrow> bool"
  q_toLower :: "string \<Rightarrow> string"
  q_toUpper :: "string \<Rightarrow> string"
  q_reSpace :: "char \<Rightarrow> bool"
  q_toInt :: "string \<Rightarrow> int option"
  q_toULongLong :: "string \<Rightarrow> int option"
  q_parseHost :: "string \<Rightarrow> qhost"
  q_hostText :: "qhost \<Rightarrow> string"
  q_isLoopback :: "qhost \<Rightarrow> bool"
  q_isBroadcast :: "qhost \<Rightarrow> bool"
  q_isLinkLocal :: "qhost \<Rightarrow> bool"
  q_isMulticast :: "qhost \<Rightarrow> bool"
  q_parseSubnet :: "string \<Rightarrow> (qhost \<times> nat) option"
  q_isInSubnet :: "qhost \<Rightarrow> qhost \<Rightarrow> nat \<Rightarrow> bool"
  q_toAce :: "string \<Rightarrow> string"
  q_urlHost :: "string \<Rightarrow> string option"
  q_toUtf8 :: "string \<Rightarrow> string"
  q_sha256 :: "string \<Rightarrow> string"
  q_jsonText :: "jobject \<Rightarrow> string"
  q_jsonParse :: "string \<Rightarrow> json option"
  q_fromIso :: "string \<Rightarrow> int option"
  q_fromIsoMs :: "string \<Rightarrow> int option"
  q_isoMs :: "int \<Rightarrow> string"
  q_variantToLongLong :: "qdouble \<Rightarrow> int"

definition trimmed :: "qt \<Rightarrow> string \<Rightarrow> string" where
  "trimmed Q s = trim_where (q_isSpace Q) s"

text \<open>\<open>QByteArray::toHex\<close>: two lowercase hexadecimal digits per byte.\<close>

definition hex_digit :: "nat \<Rightarrow> char" where
  "hex_digit d = (if d < 10 then char_of (48 + d) else char_of (87 + d))"

definition to_hex :: "string \<Rightarrow> string" where
  "to_hex bs = concat (map (\<lambda>b. [hex_digit (of_char b div 16), hex_digit (of_char b mod 16)]) bs)"

definition is_lower_hex :: "char \<Rightarrow> bool" where
  "is_lower_hex c \<longleftrightarrow> is_ascii_digit c \<or> (CHR ''a'' \<le> c \<and> c \<le> CHR ''f'')"

lemma is_lower_hex_hex_digit: "d < 16 \<Longrightarrow> is_lower_hex (hex_digit d)"
  by (auto simp: is_lower_hex_def hex_digit_def is_ascii_digit_iff char_le_of_char of_char_of)

lemma to_hex_digits: "\<forall>c \<in> set (to_hex bs). is_lower_hex c"
proof -
  have "(of_char b :: nat) div 16 < 16" for b :: char
    by (rule less_mult_imp_div_less) simp
  then show ?thesis by (auto simp: to_hex_def intro!: is_lower_hex_hex_digit)
qed

lemma length_to_hex [simp]: "length (to_hex bs) = 2 * length bs"
  by (induction bs) (auto simp: to_hex_def)

section \<open>Documented behaviour of the services\<close>

text \<open>
  What the theorems rely on, one predicate per service: an IPv4 address prints as digits and
  dots, at most fifteen characters, and parses back; decimal numerals parse to their value;
  lowercase text is its own lowercase form; a digest has 32 bytes; an ISO text with
  milliseconds parses back.
\<close>

definition is_dotted :: "char \<Rightarrow> bool" where
  "is_dotted c \<longleftrightarrow> is_ascii_digit c \<or> c = CHR ''.''"

definition is_plain :: "char \<Rightarrow> bool" where
  "is_plain c \<longleftrightarrow> is_dotted c \<or> (CHR ''a'' \<le> c \<and> c \<le> CHR ''z'') \<or> c \<in> {CHR ''/'', CHR '':'', CHR ''-''}"

lemma is_lower_hex_plain: "is_lower_hex c \<Longrightarrow> is_plain c"
  by (auto simp: is_lower_hex_def is_plain_def is_dotted_def char_le_of_char)

definition qt_hosts_ok :: "qt \<Rightarrow> bool" where
  "qt_hosts_ok Q \<longleftrightarrow>
     (\<forall>a. q_parseHost Q (q_hostText Q (QHostV4 a)) = QHostV4 a
        \<and> length (q_hostText Q (QHostV4 a)) \<le> 15
        \<and> q_hostText Q (QHostV4 a) \<noteq> []
        \<and> (\<forall>c \<in> set (q_hostText Q (QHostV4 a)). is_dotted c))"

definition qt_spaces_ok :: "qt \<Rightarrow> bool" where
  "qt_spaces_ok Q \<longleftrightarrow>
     (\<forall>c. is_plain c \<longrightarrow> \<not> q_isSpace Q c \<and> \<not> q_reSpace Q c)
   \<and> q_isSpace Q CHR '' '' \<and> q_reSpace Q CHR '' ''"

definition qt_decimal_ok :: "qt \<Rightarrow> bool" where
  "qt_decimal_ok Q \<longleftrightarrow>
     (\<forall>n. n < 2 ^ 31 \<longrightarrow> q_toInt Q (decimal n) = Some (int n))
   \<and> (\<forall>n. n < 2 ^ 64 \<longrightarrow> q_toULongLong Q (decimal n) = Some (int n))
   \<and> (\<forall>c. is_ascii_digit c \<longrightarrow> q_isDigit Q c) \<and> \<not> q_isDigit Q CHR ''s''"

definition qt_lower_ok :: "qt \<Rightarrow> bool" where
  "qt_lower_ok Q \<longleftrightarrow>
     (\<forall>s. list_all is_plain s \<longrightarrow> q_toLower Q s = s)"

definition qt_digest_ok :: "qt \<Rightarrow> bool" where
  "qt_digest_ok Q \<longleftrightarrow> (\<forall>s. length (q_sha256 Q s) = 32)"

definition qt_dates_ok :: "qt \<Rightarrow> bool" where
  "qt_dates_ok Q \<longleftrightarrow> (\<forall>t. q_fromIsoMs Q (q_isoMs Q t) = Some t)"

definition qt_routes_ok :: "qt \<Rightarrow> bool" where
  "qt_routes_ok Q \<longleftrightarrow> qt_hosts_ok Q \<and> qt_spaces_ok Q \<and> qt_decimal_ok Q"

lemma trimmed_id: "(\<forall>c \<in> set s. \<not> q_isSpace Q c) \<Longrightarrow> trimmed Q s = s"
  by (simp add: trimmed_def trim_where_id)

lemma host_text_facts:
  assumes "qt_routes_ok Q"
  shows "q_parseHost Q (q_hostText Q (QHostV4 a)) = QHostV4 a"
    and "length (q_hostText Q (QHostV4 a)) \<le> 15"
    and "q_hostText Q (QHostV4 a) \<noteq> []"
    and "c \<in> set (q_hostText Q (QHostV4 a)) \<Longrightarrow> is_dotted c"
  using assms by (simp_all add: qt_routes_ok_def qt_hosts_ok_def)

lemma plain_no_space: "\<lbrakk>qt_routes_ok Q; is_plain c\<rbrakk> \<Longrightarrow> \<not> q_isSpace Q c \<and> \<not> q_reSpace Q c"
  by (simp add: qt_routes_ok_def qt_spaces_ok_def)

lemma space_facts:
  assumes "qt_routes_ok Q"
  shows "is_dotted c \<or> c = CHR ''/'' \<Longrightarrow> \<not> q_isSpace Q c \<and> \<not> q_reSpace Q c"
    and "q_reSpace Q CHR '' ''"
    and "list_all is_plain s \<Longrightarrow> trimmed Q s = s"
proof -
  assume "is_dotted c \<or> c = CHR ''/''"
  then have "is_plain c" unfolding is_plain_def by blast
  then show "\<not> q_isSpace Q c \<and> \<not> q_reSpace Q c" by (rule plain_no_space [OF assms])
next
  show "q_reSpace Q CHR '' ''" using assms by (simp add: qt_routes_ok_def qt_spaces_ok_def)
next
  assume "list_all is_plain s"
  then show "trimmed Q s = s"
    by (intro trimmed_id) (simp add: list_all_iff plain_no_space [OF assms])
qed

lemma toInt_decimal: "\<lbrakk>qt_routes_ok Q; n < 2 ^ 31\<rbrakk> \<Longrightarrow> q_toInt Q (decimal n) = Some (int n)"
  by (simp add: qt_routes_ok_def qt_decimal_ok_def)

lemma is_dotted_code: "is_dotted c \<longleftrightarrow> (48 \<le> (of_char c :: nat) \<and> (of_char c :: nat) \<le> 57) \<or> c = CHR ''.''"
  by (simp add: is_dotted_def is_ascii_digit_iff)

lemma trimmed_idem [simp]: "trimmed Q (trimmed Q s) = trimmed Q s"
  by (simp add: trimmed_def)

text \<open>Trimming and lowering a text twice is the same as doing it once.\<close>

definition qt_policy_ok :: "qt \<Rightarrow> bool" where
  "qt_policy_ok Q \<longleftrightarrow> qt_routes_ok Q \<and> qt_lower_ok Q
     \<and> (\<forall>s. q_toLower Q (trimmed Q (q_toLower Q (trimmed Q s))) = q_toLower Q (trimmed Q s))"

lemma plain_fold: "\<lbrakk>qt_policy_ok Q; list_all is_plain s\<rbrakk> \<Longrightarrow> q_toLower Q (trimmed Q s) = s"
  by (simp add: qt_policy_ok_def space_facts(3) qt_lower_ok_def)

end
