(* ===== verification/Ipv4_Prefix.thy ===== *)
theory Ipv4_Prefix
  imports Qt_Types
begin

unbundle bit_operations_syntax

text \<open>
  IPv4 prefixes on 32-bit words: the mask, overlap and containment tests that
  \<open>managedRoutePolicy.h\<close> and \<open>routeRuleMatcher.cpp\<close> both carry, and their meaning as
  sets of addresses.
\<close>

section \<open>The tests\<close>

definition ipv4Mask :: "nat \<Rightarrow> u32" where
  "ipv4Mask prefixLength = (if prefixLength = 0 then 0 else push_bit (32 - prefixLength) 0xffffffff)"

definition ipv4RouteOverlapsRange :: "u32 \<Rightarrow> nat \<Rightarrow> u32 \<Rightarrow> nat \<Rightarrow> bool" where
  "ipv4RouteOverlapsRange address prefixLength rangeBase rangePrefixLength =
     (let routeStart = address AND ipv4Mask prefixLength;
          routeEnd = routeStart OR NOT (ipv4Mask prefixLength);
          rangeStart = rangeBase AND ipv4Mask rangePrefixLength;
          rangeEnd = rangeStart OR NOT (ipv4Mask rangePrefixLength)
      in routeStart \<le> rangeEnd \<and> rangeStart \<le> routeEnd)"

definition ipv4RouteIsWithinRange :: "u32 \<Rightarrow> nat \<Rightarrow> u32 \<Rightarrow> nat \<Rightarrow> bool" where
  "ipv4RouteIsWithinRange address prefixLength rangeBase rangePrefixLength =
     (if prefixLength < rangePrefixLength then False
      else address AND ipv4Mask rangePrefixLength = rangeBase AND ipv4Mask rangePrefixLength)"

section \<open>Meaning\<close>

text \<open>The addresses a prefix covers.\<close>

definition cidr :: "u32 \<Rightarrow> nat \<Rightarrow> u32 set" where
  "cidr a p = {x. x AND ipv4Mask p = a AND ipv4Mask p}"

lemma ipv4Mask_eq: "p \<le> 32 \<Longrightarrow> ipv4Mask p = NOT (mask (32 - p))"
proof -
  have ones: "(0xffffffff :: u32) = - 1" by simp
  have full: "(mask 32 :: u32) = - 1" by (simp add: mask_eq_exp_minus_1)
  show ?thesis
    unfolding ipv4Mask_def ones push_bit_minus_one_eq_not_mask by (simp add: full)
qed

lemma unat_and_mask: "unat (x AND mask k :: u32) = unat x mod 2 ^ k"
proof -
  have "unat (x AND mask k) = take_bit k (unat x)"
    unfolding take_bit_eq_mask [symmetric] by (rule unsigned_take_bit_eq)
  then show ?thesis by (simp only: take_bit_eq_mod)
qed

lemma and_not_mask_plus: "(x AND NOT (mask k)) + (x AND mask k) = (x :: u32)"
proof -
  have "(x AND NOT (mask k)) + (x AND mask k) = (x AND NOT (mask k)) OR (x AND mask k)"
    by (rule disjunctive_add) (auto simp: bit_simps)
  also have "\<dots> = x" by (rule bit_word_eqI) (auto simp: bit_simps)
  finally show ?thesis .
qed

lemma unat_and_not_mask: "unat (x AND NOT (mask k) :: u32) = unat x div 2 ^ k * 2 ^ k"
proof -
  have "x AND NOT (mask k) = x - (x AND mask k)"
    using and_not_mask_plus [of x k] by (simp add: eq_diff_eq)
  moreover have "x AND mask k \<le> x"
    by (simp add: word_le_nat_alt unat_and_mask)
  ultimately have "unat (x AND NOT (mask k)) = unat x - unat x mod 2 ^ k"
    by (simp add: unat_sub unat_and_mask)
  then show ?thesis by (simp add: minus_mod_eq_div_mult)
qed

lemma div_block_bound:
  assumes "k \<le> 32" "n < 2 ^ 32"
  shows "n div 2 ^ k * 2 ^ k + 2 ^ k \<le> (2 ^ 32 :: nat)"
proof -
  have split: "(2 :: nat) ^ 32 = 2 ^ (32 - k) * 2 ^ k"
    using assms(1) by (simp flip: power_add)
  then have "n div 2 ^ k < 2 ^ (32 - k)"
    using assms(2) by (metis less_mult_imp_div_less)
  then have "Suc (n div 2 ^ k) * 2 ^ k \<le> 2 ^ (32 - k) * 2 ^ k"
    by (intro mult_le_mono1) simp
  then show ?thesis unfolding split by (simp add: add.commute)
qed

lemma unat_mask: "k \<le> 32 \<Longrightarrow> unat (mask k :: u32) = 2 ^ k - 1"
proof -
  assume "k \<le> 32"
  have "unat (mask k :: u32) = unat (take_bit k (- 1) :: u32)"
    by (simp only: take_bit_minus_one_eq_mask)
  also have "\<dots> = take_bit k (mask LENGTH(32))"
    by (simp only: unsigned_take_bit_eq unsigned_minus_1_eq_mask)
  also have "\<dots> = mask k" using \<open>k \<le> 32\<close> by (simp only: take_bit_of_mask) simp
  finally show ?thesis by (simp only: mask_eq_exp_minus_1)
qed

lemma unat_or_mask:
  assumes "k \<le> 32"
  shows "unat ((x AND NOT (mask k)) OR mask k :: u32) = unat x div 2 ^ k * 2 ^ k + (2 ^ k - 1)"
proof -
  note m = unat_mask [OF assms]
  have "(x AND NOT (mask k)) OR mask k = (x AND NOT (mask k)) + mask k"
    by (rule disjunctive_add [symmetric]) (auto simp: bit_simps)
  moreover have "unat x < 2 ^ 32" using unsigned_less [of x] by simp
  then have "unat (x AND NOT (mask k)) + unat (mask k :: u32) < 2 ^ 32"
    using div_block_bound [OF assms, of "unat x"] zero_less_power [of "2 :: nat" k]
    unfolding unat_and_not_mask m by linarith
  ultimately show ?thesis
    by (simp only: unat_word_ariths unat_and_not_mask m mod_less len_of_numeral_defs) simp
qed

lemma same_block_iff:
  assumes "0 < (m :: nat)"
  shows "x div m = a div m \<longleftrightarrow> a div m * m \<le> x \<and> x \<le> a div m * m + (m - 1)"
proof
  assume "x div m = a div m"
  then have "x = a div m * m + x mod m" using div_mult_mod_eq [of x m] by simp
  then show "a div m * m \<le> x \<and> x \<le> a div m * m + (m - 1)"
    using mod_less_divisor [OF assms, of x] by linarith
next
  assume r: "a div m * m \<le> x \<and> x \<le> a div m * m + (m - 1)"
  define d where "d = x - a div m * m"
  have "x = d + a div m * m" "d < m" using r assms unfolding d_def by linarith+
  then show "x div m = a div m" using assms by simp
qed

lemma in_cidr_iff:
  assumes "p \<le> 32"
  shows "x \<in> cidr a p \<longleftrightarrow>
         a AND ipv4Mask p \<le> x \<and> x \<le> (a AND ipv4Mask p) OR NOT (ipv4Mask p)"
proof -
  define k where "k = 32 - p"
  have k: "k \<le> 32" by (simp add: k_def)
  have "x \<in> cidr a p \<longleftrightarrow> unat x div 2 ^ k * 2 ^ k = unat a div 2 ^ k * 2 ^ k"
    by (simp add: cidr_def ipv4Mask_eq [OF assms] word_unat_eq_iff unat_and_not_mask flip: k_def)
  also have "\<dots> \<longleftrightarrow> unat x div 2 ^ k = unat a div 2 ^ k" by simp
  also have "\<dots> \<longleftrightarrow> unat a div 2 ^ k * 2 ^ k \<le> unat x \<and>
      unat x \<le> unat a div 2 ^ k * 2 ^ k + (2 ^ k - 1)"
    by (rule same_block_iff) simp
  also have "\<dots> \<longleftrightarrow> a AND ipv4Mask p \<le> x \<and> x \<le> (a AND ipv4Mask p) OR NOT (ipv4Mask p)"
    by (simp only: ipv4Mask_eq [OF assms] word_le_nat_alt k_def [symmetric] bit.double_compl
        unat_and_not_mask unat_or_mask [OF k])
  finally show ?thesis .
qed

lemma base_in_cidr [simp, intro]: "a \<in> cidr a p"
  by (simp add: cidr_def)

lemma network_in_cidr [simp, intro]: "a AND ipv4Mask p \<in> cidr a p"
  by (simp add: cidr_def and.assoc)

lemma last_in_cidr [simp, intro]: "(a AND ipv4Mask p) OR NOT (ipv4Mask p) \<in> cidr a p"
  by (simp add: cidr_def and.assoc bit.conj_disj_distrib2)

text \<open>The interval test decides exactly whether the two prefixes share an address.\<close>

lemma overlaps_iff_meet:
  assumes "p \<le> 32" "q \<le> 32"
  shows "ipv4RouteOverlapsRange a p b q \<longleftrightarrow> cidr a p \<inter> cidr b q \<noteq> {}"
proof
  assume ov: "ipv4RouteOverlapsRange a p b q"
  show "cidr a p \<inter> cidr b q \<noteq> {}"
  proof (cases "a AND ipv4Mask p \<le> b AND ipv4Mask q")
    case True
    then have "b AND ipv4Mask q \<in> cidr a p \<inter> cidr b q"
      using ov assms by (simp add: in_cidr_iff ipv4RouteOverlapsRange_def Let_def)
    then show ?thesis by blast
  next
    case False
    then have "a AND ipv4Mask p \<in> cidr a p \<inter> cidr b q"
      using ov assms by (simp add: in_cidr_iff ipv4RouteOverlapsRange_def Let_def)
    then show ?thesis by blast
  qed
next
  assume "cidr a p \<inter> cidr b q \<noteq> {}"
  then show "ipv4RouteOverlapsRange a p b q"
    using assms by (auto simp: in_cidr_iff ipv4RouteOverlapsRange_def Let_def intro: order_trans)
qed

lemma bit_ipv4Mask: "p \<le> 32 \<Longrightarrow> bit (ipv4Mask p) n \<longleftrightarrow> n < 32 \<and> 32 - p \<le> n"
  by (auto simp: ipv4Mask_eq bit_simps not_less)

lemma mask_mono:
  assumes "q \<le> p" "p \<le> 32"
  shows "ipv4Mask q AND ipv4Mask p = ipv4Mask q"
proof (rule bit_word_eqI)
  fix n :: nat
  show "bit (ipv4Mask q AND ipv4Mask p) n \<longleftrightarrow> bit (ipv4Mask q) n"
    using assms by (simp add: bit_and_iff bit_ipv4Mask) linarith
qed

lemma cidr_mono: "\<lbrakk>q \<le> p; p \<le> 32; x \<in> cidr a p\<rbrakk> \<Longrightarrow> x AND ipv4Mask q = a AND ipv4Mask q"
proof -
  assume qp: "q \<le> p" "p \<le> 32" and "x \<in> cidr a p"
  have shrink: "y AND ipv4Mask q = (y AND ipv4Mask p) AND ipv4Mask q" for y
    using mask_mono [OF qp] by (simp only: and.assoc and.commute [of "ipv4Mask p"])
  show ?thesis
    using \<open>x \<in> cidr a p\<close> unfolding cidr_def by (simp only: mem_Collect_eq shrink [of x] shrink [of a])
qed

lemma cidr_subset_prefix_le:
  assumes "p \<le> 32" "q \<le> 32" "cidr a p \<subseteq> cidr b q"
  shows "q \<le> p"
proof (rule ccontr)
  assume "\<not> q \<le> p"
  define y where "y = a XOR push_bit (32 - q) 1"
  have "push_bit (32 - q) 1 AND ipv4Mask p = 0"
    by (rule bit_word_eqI)
      (use \<open>\<not> q \<le> p\<close> assms in \<open>auto simp: bit_and_iff bit_ipv4Mask bit_push_bit_iff bit_1_iff bit_exp_iff\<close>)
  then have "y AND ipv4Mask p = a AND ipv4Mask p"
    by (simp add: y_def bit.conj_xor_distrib2)
  then have "y \<in> cidr b q" "a \<in> cidr b q" using assms(3) by (auto simp: cidr_def)
  then have "y AND ipv4Mask q = a AND ipv4Mask q" by (simp add: cidr_def)
  then have "bit (y AND ipv4Mask q) (32 - q) = bit (a AND ipv4Mask q) (32 - q)" by simp
  then show False
    using \<open>\<not> q \<le> p\<close> assms(2)
    by (auto simp: bit_and_iff bit_ipv4Mask y_def bit_xor_iff bit_push_bit_iff bit_1_iff bit_exp_iff)
qed

lemma within_iff_subset:
  assumes "p \<le> 32" "q \<le> 32"
  shows "ipv4RouteIsWithinRange a p b q \<longleftrightarrow> cidr a p \<subseteq> cidr b q"
proof
  assume "ipv4RouteIsWithinRange a p b q"
  then have same: "a AND ipv4Mask q = b AND ipv4Mask q" and "q \<le> p"
    by (auto simp: ipv4RouteIsWithinRange_def split: if_splits)
  show "cidr a p \<subseteq> cidr b q"
  proof
    fix x assume "x \<in> cidr a p"
    from cidr_mono [OF \<open>q \<le> p\<close> assms(1) this] same show "x \<in> cidr b q" by (simp add: cidr_def)
  qed
next
  assume sub: "cidr a p \<subseteq> cidr b q"
  then have "a \<in> cidr b q" by blast
  moreover have "q \<le> p" by (rule cidr_subset_prefix_le [OF assms sub])
  ultimately show "ipv4RouteIsWithinRange a p b q"
    by (simp add: ipv4RouteIsWithinRange_def cidr_def)
qed

text \<open>Membership read off the dotted octets.\<close>

lemma in_cidr_unat: "q \<le> 32 \<Longrightarrow> x \<in> cidr b q \<longleftrightarrow> unat x div 2 ^ (32 - q) = unat b div 2 ^ (32 - q)"
  by (simp add: cidr_def ipv4Mask_eq word_unat_eq_iff unat_and_not_mask)

definition octet :: "nat \<Rightarrow> u32 \<Rightarrow> nat" where
  "octet i x = unat x div 256 ^ (4 - i) mod 256"

lemma octet_less: "octet i x < 256"
  by (simp add: octet_def)

lemma unat_div_octets:
  "unat x div 16777216 = octet 1 x"
  "unat x div 65536 = octet 1 x * 256 + octet 2 x"
  "unat x div 256 = (octet 1 x * 256 + octet 2 x) * 256 + octet 3 x"
proof -
  have "unat x < 4294967296" using unsigned_less [of x] by simp
  then have "unat x div 16777216 < 256" by (intro less_mult_imp_div_less) simp
  then show 1: "unat x div 16777216 = octet 1 x" by (simp add: octet_def)
  have q: "unat x div 65536 div 256 = unat x div 16777216" "unat x div 256 div 256 = unat x div 65536"
    using div_mult2_eq [of "unat x" 65536 256] div_mult2_eq [of "unat x" 256 256] by simp_all
  have o: "octet 2 x = unat x div 65536 mod 256" "octet 3 x = unat x div 256 mod 256"
    by (simp_all add: octet_def)
  show 2: "unat x div 65536 = octet 1 x * 256 + octet 2 x"
    using div_mult_mod_eq [of "unat x div 65536" 256] unfolding q 1 o by simp
  show "unat x div 256 = (octet 1 x * 256 + octet 2 x) * 256 + octet 3 x"
    using div_mult_mod_eq [of "unat x div 256" 256] unfolding q 2 [symmetric] o(2) by simp
qed

lemma radix_eq:
  assumes "b < k" "b' < (k :: nat)"
  shows "a * k + b = a' * k + b' \<longleftrightarrow> a = a' \<and> b = b'"
proof
  assume eq: "a * k + b = a' * k + b'"
  then have "(a * k + b) div k = (a' * k + b') div k" "(a * k + b) mod k = (a' * k + b') mod k"
    by simp_all
  then show "a = a' \<and> b = b'" using assms by simp
qed simp

lemma radix_div_eq:
  assumes "b < k * d" "b' < k * d" "0 < (d :: nat)"
  shows "(a * (k * d) + b) div d = (a' * (k * d) + b') div d \<longleftrightarrow> a = a' \<and> b div d = b' div d"
proof -
  have "(c * (k * d) + e) div d = c * k + e div d" for c e
    using assms(3) div_mult_self3 [of d "c * k" e] by (simp add: mult.assoc)
  moreover have "b div d < k" "b' div d < k" using assms by (simp_all add: less_mult_imp_div_less)
  ultimately show ?thesis by (simp add: radix_eq)
qed

lemma in_cidr_octets:
  "x \<in> cidr b 8 \<longleftrightarrow> octet 1 x = octet 1 b"
  "x \<in> cidr b 16 \<longleftrightarrow> octet 1 x = octet 1 b \<and> octet 2 x = octet 2 b"
  "x \<in> cidr b 24 \<longleftrightarrow> octet 1 x = octet 1 b \<and> octet 2 x = octet 2 b \<and> octet 3 x = octet 3 b"
  "x \<in> cidr b 4 \<longleftrightarrow> octet 1 x div 16 = octet 1 b div 16"
proof -
  have blk: "x \<in> cidr b 8 \<longleftrightarrow> unat x div 16777216 = unat b div 16777216"
    "x \<in> cidr b 16 \<longleftrightarrow> unat x div 65536 = unat b div 65536"
    "x \<in> cidr b 24 \<longleftrightarrow> unat x div 256 = unat b div 256"
    by (simp_all add: in_cidr_unat)
  show "x \<in> cidr b 8 \<longleftrightarrow> octet 1 x = octet 1 b"
    unfolding blk unat_div_octets ..
  show "x \<in> cidr b 16 \<longleftrightarrow> octet 1 x = octet 1 b \<and> octet 2 x = octet 2 b"
    unfolding blk unat_div_octets by (rule radix_eq) (rule octet_less)+
  show "x \<in> cidr b 24 \<longleftrightarrow> octet 1 x = octet 1 b \<and> octet 2 x = octet 2 b \<and> octet 3 x = octet 3 b"
    unfolding blk unat_div_octets by (simp only: radix_eq octet_less conj_assoc)
  have "x \<in> cidr b 4 \<longleftrightarrow> unat x div (16777216 * 16) = unat b div (16777216 * 16)"
    by (simp add: in_cidr_unat)
  then show "x \<in> cidr b 4 \<longleftrightarrow> octet 1 x div 16 = octet 1 b div 16"
    unfolding div_mult2_eq unat_div_octets .
qed

lemma in_cidr_octet_bits:
  "x \<in> cidr b 10 \<longleftrightarrow> octet 1 x = octet 1 b \<and> octet 2 x div 64 = octet 2 b div 64"
  "x \<in> cidr b 12 \<longleftrightarrow> octet 1 x = octet 1 b \<and> octet 2 x div 16 = octet 2 b div 16"
  "x \<in> cidr b 15 \<longleftrightarrow> octet 1 x = octet 1 b \<and> octet 2 x div 2 = octet 2 b div 2"
proof -
  have blk: "x \<in> cidr b 10 \<longleftrightarrow> unat x div (65536 * 64) = unat b div (65536 * 64)"
    "x \<in> cidr b 12 \<longleftrightarrow> unat x div (65536 * 16) = unat b div (65536 * 16)"
    "x \<in> cidr b 15 \<longleftrightarrow> unat x div (65536 * 2) = unat b div (65536 * 2)"
    by (simp_all add: in_cidr_unat)
  note lt = octet_less [of 2 x] octet_less [of 2 b]
  show "x \<in> cidr b 10 \<longleftrightarrow> octet 1 x = octet 1 b \<and> octet 2 x div 64 = octet 2 b div 64"
    using radix_div_eq [of "octet 2 x" 4 64 "octet 2 b"] lt
    unfolding blk div_mult2_eq unat_div_octets by simp
  show "x \<in> cidr b 12 \<longleftrightarrow> octet 1 x = octet 1 b \<and> octet 2 x div 16 = octet 2 b div 16"
    using radix_div_eq [of "octet 2 x" 16 16 "octet 2 b"] lt
    unfolding blk div_mult2_eq unat_div_octets by simp
  show "x \<in> cidr b 15 \<longleftrightarrow> octet 1 x = octet 1 b \<and> octet 2 x div 2 = octet 2 b div 2"
    using radix_div_eq [of "octet 2 x" 128 2 "octet 2 b"] lt
    unfolding blk div_mult2_eq unat_div_octets by simp
qed

text \<open>
  \<^bold>\<open>C25.\<close> Two prefixes overlap by the interval test of the source exactly when some address
  belongs to both.
\<close>

theorem ipv4RouteOverlapsRange_correct:
  assumes "p \<le> 32" "q \<le> 32"
  shows "ipv4RouteOverlapsRange a p b q \<longleftrightarrow> (\<exists>x. x \<in> cidr a p \<and> x \<in> cidr b q)"
  using overlaps_iff_meet [OF assms] by blast

theorem ipv4RouteOverlapsRange_correct_witness:
  "ipv4RouteOverlapsRange 0x0a000000 8 0x0a010000 16
   \<and> (\<exists>x. x \<in> cidr 0x0a000000 8 \<and> x \<in> cidr 0x0a010000 16)
   \<and> \<not> ipv4RouteOverlapsRange 0x0a000000 8 0x0b000000 16"
  using ipv4RouteOverlapsRange_correct [of 8 16 "0x0a000000" "0x0a010000"]
  by (simp add: ipv4RouteOverlapsRange_def ipv4Mask_def Let_def)

end
