(* ===== verification/Qt_Reference.thy ===== *)
theory Qt_Reference
  imports Qt_Types
begin

text \<open>
  A concrete instance of the services of Qt: dotted decimal addresses, ASCII character
  classes, decimal numerals, a compact JSON printer and any JSON reader. It satisfies the documented behaviour
  the theorems assume, so that each of them can be applied to concrete inputs.
\<close>

section \<open>Dotted decimal IPv4 text\<close>

definition quad_text :: "u32 \<Rightarrow> string" where
  "quad_text w = join ''.'' (map decimal
     [unat w div 16777216, unat w div 65536 mod 256, unat w div 256 mod 256, unat w mod 256])"

definition quad_part :: "string \<Rightarrow> nat option" where
  "quad_part s = (if s \<noteq> [] \<and> list_all is_ascii_digit s \<and> decimal (undecimal s) = s \<and> undecimal s < 256
                  then Some (undecimal s) else None)"

definition quad_parse :: "string \<Rightarrow> qhost" where
  "quad_parse s = (case map quad_part (split_on CHR ''.'' s) of
       [Some a, Some b, Some c, Some d] \<Rightarrow>
         QHostV4 (word_of_nat (a * 16777216 + b * 65536 + c * 256 + d))
     | _ \<Rightarrow> QHostNull)"

lemma quad_part_decimal: "n < 256 \<Longrightarrow> quad_part (decimal n) = Some n"
  using decimal_digits by (simp add: quad_part_def list_all_iff)

lemma quad_bytes:
  "(n::nat) = n div 16777216 * 16777216 + n div 65536 mod 256 * 65536 + n div 256 mod 256 * 256 + n mod 256"
proof -
  have "n div 65536 = n div 16777216 * 256 + n div 65536 mod 256"
    using div_mult_mod_eq [of "n div 65536" 256] by (simp add: div_mult2_eq [symmetric])
  moreover have "n div 256 = n div 65536 * 256 + n div 256 mod 256"
    using div_mult_mod_eq [of "n div 256" 256] by (simp add: div_mult2_eq [symmetric])
  moreover have "n = n div 256 * 256 + n mod 256" by simp
  ultimately show ?thesis by linarith
qed

lemma quad_parse_text: "quad_parse (quad_text w) = QHostV4 w"
proof -
  have "unat w < 2 ^ 32" using unsigned_less [of w] by simp
  then have hi: "unat w div 16777216 < 256" by simp
  have "split_on CHR ''.'' (quad_text w) = map decimal
     [unat w div 16777216, unat w div 65536 mod 256, unat w div 256 mod 256, unat w mod 256]"
    unfolding quad_text_def
    by (rule split_on_join) (auto simp: is_ascii_digit_iff intro!: decimal_notin)
  then have "quad_parse (quad_text w) = QHostV4 (word_of_nat (unat w))"
    using hi quad_bytes [of "unat w"] by (simp add: quad_parse_def quad_part_decimal)
  then show ?thesis by simp
qed

lemma quad_text_chars: "\<forall>c \<in> set (quad_text w). is_dotted c"
  using decimal_digits by (auto simp: quad_text_def is_dotted_def)

lemma length_quad_text: "length (quad_text w) \<le> 15"
proof -
  have "unat w < 2 ^ 32" using unsigned_less [of w] by simp
  then have "unat w div 16777216 < 10 ^ 3" by simp
  then have hi: "length (decimal (unat w div 16777216)) \<le> 3" by (rule length_decimal_le) simp
  have small: "length (decimal (n mod 256)) \<le> 3" for n
    by (rule length_decimal_le) (auto intro: less_le_trans [OF mod_less_divisor])
  show ?thesis
    using hi small [of "unat w div 65536"] small [of "unat w div 256"] small [of "unat w"]
    by (simp add: quad_text_def)
qed

lemma quad_text_not_Nil: "quad_text w \<noteq> []"
  by (simp add: quad_text_def)

section \<open>Characters, numerals and JSON text\<close>

definition ascii_space :: "char \<Rightarrow> bool" where
  "ascii_space c \<longleftrightarrow> c = CHR '' '' \<or> (9 \<le> (of_char c :: nat) \<and> (of_char c :: nat) \<le> 13)"

definition ascii_lower :: "char \<Rightarrow> char" where
  "ascii_lower c = (if CHR ''A'' \<le> c \<and> c \<le> CHR ''Z'' then char_of (of_char c + 32 :: nat) else c)"

definition ascii_upper :: "char \<Rightarrow> char" where
  "ascii_upper c = (if CHR ''a'' \<le> c \<and> c \<le> CHR ''z'' then char_of (of_char c - 32 :: nat) else c)"

definition parse_unsigned :: "nat \<Rightarrow> string \<Rightarrow> int option" where
  "parse_unsigned limit s =
     (if s \<noteq> [] \<and> list_all is_ascii_digit s \<and> undecimal s < limit then Some (int (undecimal s)) else None)"

fun json_value_text :: "json \<Rightarrow> string" where
  "json_value_text JUndefined = []"
| "json_value_text JNull = ''null''"
| "json_value_text (JBool b) = (if b then ''true'' else ''false'')"
| "json_value_text (JDouble d) = decimal_int (dbl_to_int d)"
| "json_value_text (JString s) = CHR 0x22 # s @ [CHR 0x22]"
| "json_value_text (JArray xs) = ''['' @ join '','' (map json_value_text xs) @ '']''"
| "json_value_text (JObject ob) =
     ''{'' @ join '','' (map (\<lambda>(k, v). CHR 0x22 # k @ CHR 0x22 # CHR '':'' # json_value_text v) ob) @ ''}''"

definition checksum32 :: "string \<Rightarrow> string" where
  "checksum32 s = replicate 32 (char_of (sum_list (map of_char s) :: nat))"

definition qt_ref_with :: "(string \<Rightarrow> json option) \<Rightarrow> qt" where
  "qt_ref_with parser = \<lparr>
     q_isSpace = ascii_space,
     q_isDigit = is_ascii_digit,
     q_isControl = (\<lambda>c. (of_char c :: nat) < 32 \<or> (of_char c :: nat) = 127),
     q_isBareForbidden = (\<lambda>c. (of_char c :: nat) \<le> 32 \<or> 127 \<le> (of_char c :: nat)),
     q_toLower = map ascii_lower,
     q_toUpper = map ascii_upper,
     q_reSpace = ascii_space,
     q_toInt = parse_unsigned 2147483648,
     q_toULongLong = parse_unsigned 18446744073709551616,
     q_parseHost = quad_parse,
     q_hostText = (\<lambda>h. case h of QHostV4 a \<Rightarrow> quad_text a | _ \<Rightarrow> []),
     q_isLoopback = (\<lambda>h. is_v4 h \<and> drop_bit 24 (to_ipv4 h) = 127),
     q_isBroadcast = (\<lambda>h. h = QHostV4 0xffffffff),
     q_isLinkLocal = (\<lambda>h. is_v4 h \<and> drop_bit 16 (to_ipv4 h) = 0xa9fe),
     q_isMulticast = (\<lambda>h. is_v4 h \<and> drop_bit 28 (to_ipv4 h) = 14),
     q_parseSubnet = (\<lambda>s. case split_on CHR ''/'' s of
          [h, p] \<Rightarrow> (case (quad_parse h, parse_unsigned 33 p) of
                       (QHostV4 a, Some n) \<Rightarrow> Some (QHostV4 a, nat n) | _ \<Rightarrow> None)
        | [h] \<Rightarrow> (case quad_parse h of QHostV4 a \<Rightarrow> Some (QHostV4 a, 32) | _ \<Rightarrow> None)
        | _ \<Rightarrow> None),
     q_isInSubnet = (\<lambda>h n p. is_v4 h \<and> is_v4 n \<and> p \<le> 32
        \<and> drop_bit (32 - p) (to_ipv4 h) = drop_bit (32 - p) (to_ipv4 n)),
     q_toAce = (\<lambda>s. s),
     q_urlHost = (\<lambda>s. None),
     q_toUtf8 = (\<lambda>s. s),
     q_sha256 = checksum32,
     q_jsonText = (\<lambda>ob. json_value_text (JObject ob)),
     q_jsonParse = parser,
     q_fromIso = (\<lambda>s. map_option (\<lambda>n. n * 1000) (parse_unsigned 100000000000 s)),
     q_fromIsoMs = (\<lambda>s. case s of [] \<Rightarrow> None
        | c # cs \<Rightarrow> (if c = CHR ''-'' then map_option uminus (parse_unsigned (2 * undecimal cs + 1) cs)
                    else parse_unsigned (2 * undecimal s + 1) s)),
     q_isoMs = decimal_int,
     q_variantToLongLong = dbl_to_int \<rparr>"

abbreviation qt_ref :: qt where
  "qt_ref \<equiv> qt_ref_with (\<lambda>s. None)"

lemma qt_ref_services [simp]:
  "q_isSpace (qt_ref_with rd) = ascii_space" "q_isDigit (qt_ref_with rd) = is_ascii_digit"
  "q_toLower (qt_ref_with rd) = map ascii_lower" "q_toUpper (qt_ref_with rd) = map ascii_upper"
  "q_reSpace (qt_ref_with rd) = ascii_space" "q_toInt (qt_ref_with rd) = parse_unsigned 2147483648"
  "q_toULongLong (qt_ref_with rd) = parse_unsigned 18446744073709551616"
  "q_parseHost (qt_ref_with rd) = quad_parse" "q_hostText (qt_ref_with rd) (QHostV4 a) = quad_text a"
  "q_isLoopback (qt_ref_with rd) (QHostV4 a) \<longleftrightarrow> drop_bit 24 a = 127"
  "q_isBroadcast (qt_ref_with rd) (QHostV4 a) \<longleftrightarrow> a = 0xffffffff"
  "q_isLinkLocal (qt_ref_with rd) (QHostV4 a) \<longleftrightarrow> drop_bit 16 a = 0xa9fe"
  "q_isMulticast (qt_ref_with rd) (QHostV4 a) \<longleftrightarrow> drop_bit 28 a = 14"
  "q_isInSubnet (qt_ref_with rd) (QHostV4 a) (QHostV4 b) p \<longleftrightarrow> p \<le> 32 \<and> drop_bit (32 - p) a = drop_bit (32 - p) b"
  "q_toAce (qt_ref_with rd) s = s" "q_toUtf8 (qt_ref_with rd) s = s" "q_sha256 (qt_ref_with rd) = checksum32"
  "q_jsonParse (qt_ref_with rd) = rd" "q_jsonText (qt_ref_with rd) ob = json_value_text (JObject ob)" "q_isoMs (qt_ref_with rd) = decimal_int"
  "q_variantToLongLong (qt_ref_with rd) = dbl_to_int" "q_urlHost (qt_ref_with rd) s = None"
  by (simp_all add: qt_ref_with_def)

section \<open>The instance behaves as documented\<close>

lemma parse_unsigned_decimal: "n < l \<Longrightarrow> parse_unsigned l (decimal n) = Some (int n)"
  using decimal_digits by (simp add: parse_unsigned_def list_all_iff)

lemma qt_ref_hosts: "qt_hosts_ok (qt_ref_with rd)"
  using quad_text_chars length_quad_text
  by (simp add: qt_hosts_ok_def qt_ref_with_def quad_parse_text quad_text_not_Nil)

lemma qt_ref_spaces: "qt_spaces_ok (qt_ref_with rd)"
  by (auto simp: qt_spaces_ok_def ascii_space_def is_plain_def is_dotted_def is_ascii_digit_iff
      char_le_of_char)

lemma qt_ref_decimal: "qt_decimal_ok (qt_ref_with rd)"
  by (simp add: qt_decimal_ok_def parse_unsigned_decimal is_ascii_digit_iff)

lemma ascii_lower_id:
  "is_plain c \<Longrightarrow> ascii_lower c = c"
  by (auto simp: ascii_lower_def is_plain_def is_dotted_def is_ascii_digit_iff char_le_of_char)

lemma qt_ref_lower: "qt_lower_ok (qt_ref_with rd)"
  by (simp add: qt_lower_ok_def map_idI ascii_lower_id list_all_iff)

lemma qt_ref_digest: "qt_digest_ok (qt_ref_with rd)"
  by (simp add: qt_digest_ok_def qt_ref_with_def checksum32_def)

lemma qt_ref_dates: "qt_dates_ok (qt_ref_with rd)"
proof -
  have "q_fromIsoMs (qt_ref_with rd) (decimal_int t) = Some t" for t
  proof (cases "t < 0")
    case True
    then show ?thesis by (simp add: qt_ref_with_def decimal_int_def parse_unsigned_decimal)
  next
    case False
    obtain c cs where d: "decimal (nat t) = c # cs" by (cases "decimal (nat t)") auto
    have "CHR ''-'' \<notin> set (decimal (nat t))"
      by (rule decimal_notin) (simp add: is_ascii_digit_iff)
    with d have "c \<noteq> CHR ''-''" by auto
    moreover have "parse_unsigned (2 * undecimal (c # cs) + 1) (c # cs) = Some t"
      using False parse_unsigned_decimal [of "nat t" "2 * nat t + 1"] by (simp flip: d)
    ultimately show ?thesis using False d by (simp add: qt_ref_with_def decimal_int_def)
  qed
  then show ?thesis by (simp add: qt_dates_ok_def)
qed

lemma qt_ref_routes: "qt_routes_ok (qt_ref_with rd)"
  by (simp add: qt_routes_ok_def qt_ref_hosts qt_ref_spaces qt_ref_decimal)

lemma trim_where_map: "(\<And>c. P (f c) = P c) \<Longrightarrow> trim_where P (map f s) = map f (trim_where P s)"
  by (simp add: trim_where_def dropWhile_map rev_map comp_def)

lemma ascii_space_code: "ascii_space c \<longleftrightarrow> (of_char c :: nat) = 32 \<or> (9 \<le> (of_char c :: nat) \<and> (of_char c :: nat) \<le> 13)"
proof -
  have "c = CHR '' '' \<longleftrightarrow> (of_char c :: nat) = of_char CHR '' ''" by (simp only: of_char_eq_iff)
  then show ?thesis by (simp add: ascii_space_def)
qed

lemma ascii_lower_laws: "ascii_lower (ascii_lower c) = ascii_lower c" "ascii_space (ascii_lower c) = ascii_space c"
  by (auto simp: ascii_lower_def ascii_space_code char_le_of_char of_char_of)

lemma qt_ref_policy: "qt_policy_ok (qt_ref_with rd)"
  by (simp add: qt_policy_ok_def qt_ref_routes qt_ref_lower trimmed_def trim_where_map ascii_lower_laws comp_def)

end
