(* ===== verification/Managed_Routes.thy ===== *)
theory Managed_Routes
  imports Ipv4_Prefix Qt_Reference
begin

unbundle bit_operations_syntax

text \<open>
  The route grammar of \<open>managedRoutePolicy.h\<close>: parsing and canonical printing of an IPv4
  route, the safety filter on it, the validation of stored route texts and route lists, and the
  allowed site keys.
\<close>

section \<open>Parsing and filtering one route\<close>

definition maximumRoutesPerSite :: nat where "maximumRoutesPerSite = 64"
definition maximumTotalRouteCount :: nat where "maximumTotalRouteCount = 4096"
definition maximumStoredRouteValueLength :: nat where "maximumStoredRouteValueLength = 4096"
definition maximumSiteKeyLength :: nat where "maximumSiteKeyLength = 253"
definition maximumRouteTokenLength :: nat where "maximumRouteTokenLength = 18"
definition maximumSiteCount :: nat where "maximumSiteCount = 4096"

definition parsePrefix :: "qt \<Rightarrow> string list \<Rightarrow> int option" where
  "parsePrefix Q parts =
     (if length parts = 2 then
        (case q_toInt Q (parts ! 1) of
           None \<Rightarrow> None
         | Some prefix \<Rightarrow>
             if prefix < 0 \<or> prefix > 32 \<or> decimal_int prefix \<noteq> parts ! 1 then None else Some prefix)
      else Some 32)"

definition parseCanonicalIpv4Route :: "qt \<Rightarrow> string \<Rightarrow> (u32 \<times> nat) option" where
  "parseCanonicalIpv4Route Q value =
     (let route = trimmed Q value in
      if length route > maximumRouteTokenLength then None else
      let parts = split_on CHR ''/'' route in
      if parts = [] \<or> length parts > 2 \<or> parts ! 0 = [] then None else
      let host = q_parseHost Q (parts ! 0) in
      if \<not> is_v4 host \<or> q_hostText Q host \<noteq> parts ! 0 then None else
      (case parsePrefix Q parts of
         None \<Rightarrow> None
       | Some prefix \<Rightarrow>
           let ipv4 = to_ipv4 host in
           if ipv4 AND ipv4Mask (nat prefix) \<noteq> ipv4 then None else Some (ipv4, nat prefix)))"

definition specialRanges :: "(u32 \<times> nat) list" where
  "specialRanges =
     [(0x00000000, 8), (0x7f000000, 8), (0x64400000, 10), (0xa9fe0000, 16),
      (0xc0000000, 24), (0xc0000200, 24), (0xc01f0000, 24), (0xc01fc400, 24),
      (0xc034c100, 24), (0xc0586300, 24), (0xc0af3000, 24), (0xc6120000, 15),
      (0xc6336400, 24), (0xcb007100, 24), (0xe0000000, 4), (0xf0000000, 4)]"

definition minimumPublicPrefixLength :: nat where "minimumPublicPrefixLength = 16"

definition isAllowedManagedIpv4Route :: "qt \<Rightarrow> string \<Rightarrow> bool" where
  "isAllowedManagedIpv4Route Q value =
     (case parseCanonicalIpv4Route Q value of
        None \<Rightarrow> False
      | Some (address, prefixLength) \<Rightarrow>
          if prefixLength = 0 then False else
          let host = QHostV4 address in
          if q_isLoopback Q host \<or> q_isBroadcast Q host \<or> q_isLinkLocal Q host \<or> q_isMulticast Q host
          then False else
          if list_ex (\<lambda>(base, len). ipv4RouteOverlapsRange address prefixLength base len) specialRanges
          then False else
          let withinRfc1918 = ipv4RouteIsWithinRange address prefixLength 0x0a000000 8
                            \<or> ipv4RouteIsWithinRange address prefixLength 0xac100000 12
                            \<or> ipv4RouteIsWithinRange address prefixLength 0xc0a80000 16
          in withinRfc1918 \<or> prefixLength \<ge> minimumPublicPrefixLength)"

definition routeText :: "qt \<Rightarrow> u32 \<Rightarrow> nat \<Rightarrow> string" where
  "routeText Q address prefixLength =
     (let host = q_hostText Q (QHostV4 address) in
      if prefixLength = 32 then host else host @ ''/'' @ decimal prefixLength)"

definition canonicalManagedIpv4Route :: "qt \<Rightarrow> string \<Rightarrow> string" where
  "canonicalManagedIpv4Route Q value =
     (if \<not> isAllowedManagedIpv4Route Q value then []
      else case parseCanonicalIpv4Route Q value of
             None \<Rightarrow> []
           | Some (address, prefixLength) \<Rightarrow> routeText Q address prefixLength)"

section \<open>Stored texts and lists of routes\<close>

definition isRouteSeparator :: "qt \<Rightarrow> char \<Rightarrow> bool" where
  "isRouteSeparator Q c \<longleftrightarrow> c = CHR '','' \<or> c = CHR '';'' \<or> q_reSpace Q c"

definition validatedManagedRouteTokens :: "qt \<Rightarrow> string \<Rightarrow> string list \<times> bool" where
  "validatedManagedRouteTokens Q value =
     (if length value \<le> maximumStoredRouteValueLength then
        let tokens = tokens_where (isRouteSeparator Q) value;
            isValid = length tokens \<le> maximumRoutesPerSite
        in case collected (canonicalManagedIpv4Route Q) tokens of
             None \<Rightarrow> ([], False)
           | Some routes \<Rightarrow> if isValid then (routes, True) else ([], False)
      else ([], False))"

fun validatedManagedRoutesLoop :: "qt \<Rightarrow> string list \<Rightarrow> string list \<Rightarrow> string list \<times> bool" where
  "validatedManagedRoutesLoop Q routes [] = (routes, True)"
| "validatedManagedRoutesLoop Q routes (value # values) =
     (let route = canonicalManagedIpv4Route Q value in
      if route = [] then (routes, False)
      else if route \<notin> set routes then
        let routes = routes @ [route] in
        if length routes > maximumTotalRouteCount then (routes, False)
        else validatedManagedRoutesLoop Q routes values
      else validatedManagedRoutesLoop Q routes values)"

definition validatedManagedRoutes :: "qt \<Rightarrow> string list \<Rightarrow> string list \<times> bool" where
  "validatedManagedRoutes Q values =
     (let (routes, isValid) =
        (if length values \<le> maximumTotalRouteCount then validatedManagedRoutesLoop Q [] values
         else ([], False))
      in if isValid then (routes, True) else ([], False))"

section \<open>Site keys\<close>

definition isLabelChar :: "char \<Rightarrow> bool" where
  "isLabelChar c \<longleftrightarrow> (CHR ''a'' \<le> c \<and> c \<le> CHR ''z'') \<or> is_ascii_digit c"

text \<open>
  The expression \<open>^[a-z0-9](?:[a-z0-9-]{0,61}[a-z0-9])?$\<close>; its final anchor also matches before
  one trailing newline.
\<close>

definition labelBody :: "string \<Rightarrow> bool" where
  "labelBody s \<longleftrightarrow> s \<noteq> [] \<and> length s \<le> 63 \<and> isLabelChar (hd s) \<and> isLabelChar (last s)
                 \<and> list_all (\<lambda>c. isLabelChar c \<or> c = CHR ''-'') s"

definition labelExpression :: "string \<Rightarrow> bool" where
  "labelExpression s \<longleftrightarrow> labelBody s \<or> (s \<noteq> [] \<and> last s = CHR 0x0A \<and> labelBody (butlast s))"

definition isAllowedManagedSiteKey :: "qt \<Rightarrow> string \<Rightarrow> bool" where
  "isAllowedManagedSiteKey Q rawSite =
     (let site = q_toLower Q (trimmed Q rawSite) in
      if site = [] \<or> length site > maximumSiteKeyLength then False
      else if CHR ''/'' \<in> set site \<or> q_parseHost Q site \<noteq> QHostNull then isAllowedManagedIpv4Route Q site
      else let hostname = q_toLower Q (q_toAce Q site) in
           if hostname = [] \<or> length hostname > maximumSiteKeyLength then False
           else list_all (\<lambda>label. length label \<le> 63 \<and> labelExpression label) (split_on CHR ''.'' hostname))"

section \<open>The route interface\<close>

text \<open>
  What the loops over routes rely on: a canonical text is its own canonical form, is short, and
  contains no separator. The laws hold for every instance of the Qt services that behaves as
  documented.
\<close>

locale route_canonicaliser =
  fixes canon :: "qt \<Rightarrow> string \<Rightarrow> string"
  assumes canon_idem: "\<lbrakk>qt_routes_ok Q; canon Q v \<noteq> []\<rbrakk> \<Longrightarrow> canon Q (canon Q v) = canon Q v"
    and canon_length: "qt_routes_ok Q \<Longrightarrow> length (canon Q v) \<le> 18"
    and canon_chars: "\<lbrakk>qt_routes_ok Q; c \<in> set (canon Q v)\<rbrakk> \<Longrightarrow> \<not> isRouteSeparator Q c"
begin

lemma collected_canonical:
  assumes "qt_routes_ok Q" "collected (canon Q) vs = Some rs" "r \<in> set rs"
  shows "canon Q r = r \<and> r \<noteq> []"
proof -
  obtain v where "r = canon Q v" "r \<noteq> []" using collected_set [OF assms(2)] assms(3) by force
  then show ?thesis using canon_idem [OF assms(1), of v] by simp
qed

lemma collected_fixed:
  assumes "qt_routes_ok Q" "collected (canon Q) vs = Some rs"
  shows "collected (canon Q) rs = Some rs"
  by (rule collected_id [OF collected_distinct [OF assms(2)]]) (use collected_canonical [OF assms] in simp)

lemma rejoined_tokens:
  assumes "qt_routes_ok Q" "collected (canon Q) vs = Some rs"
  shows "tokens_where (isRouteSeparator Q) (join '', '' rs) = rs"
    and "length (join '', '' rs) \<le> 20 * length rs"
proof -
  have c: "\<forall>r \<in> set rs. r \<noteq> [] \<and> (\<forall>x \<in> set r. \<not> isRouteSeparator Q x) \<and> length r \<le> 18"
  proof
    fix r assume "r \<in> set rs"
    from collected_canonical [OF assms this] canon_chars [OF assms(1), of _ r] canon_length [OF assms(1), of r]
    show "r \<noteq> [] \<and> (\<forall>x \<in> set r. \<not> isRouteSeparator Q x) \<and> length r \<le> 18" by auto
  qed
  have "q_reSpace Q CHR '' ''" by (rule space_facts(2) [OF assms(1)])
  with c show "tokens_where (isRouteSeparator Q) (join '', '' rs) = rs"
    by (intro tokens_where_join) (auto simp: isRouteSeparator_def)
  show "length (join '', '' rs) \<le> 20 * length rs"
    using c length_join_le [of rs 18 "'', ''"] by (simp add: mult.commute)
qed

end

section \<open>One route\<close>

lemma route_chars:
  assumes "qt_routes_ok Q" "c \<in> set (routeText Q a p)"
  shows "\<not> q_isSpace Q c" "\<not> isRouteSeparator Q c"
proof -
  have c: "is_dotted c \<or> c = CHR ''/''"
    using assms(2) decimal_digits [of p] host_text_facts(4) [OF assms(1), of c a]
    by (auto simp: routeText_def Let_def is_dotted_def split: if_splits)
  then show "\<not> q_isSpace Q c" using space_facts(1) [OF assms(1)] by blast
  have "c \<noteq> CHR '',''" "c \<noteq> CHR '';''" using c by (auto simp: is_dotted_code)
  then show "\<not> isRouteSeparator Q c"
    using space_facts(1) [OF assms(1) c] by (simp add: isRouteSeparator_def)
qed

lemma routeText_length:
  assumes "qt_routes_ok Q" "p \<le> 32"
  shows "length (routeText Q a p) \<le> 18" "routeText Q a p \<noteq> []"
proof -
  have "length (decimal p) \<le> 2" using assms(2) by (intro length_decimal_le) simp_all
  then show "length (routeText Q a p) \<le> 18" "routeText Q a p \<noteq> []"
    using host_text_facts(2,3) [OF assms(1), where a = a] by (simp_all add: routeText_def Let_def)
qed

lemma parse_routeText:
  assumes "qt_routes_ok Q" "p \<le> 32" "a AND ipv4Mask p = a"
  shows "parseCanonicalIpv4Route Q (routeText Q a p) = Some (a, p)"
proof -
  define host where "host = q_hostText Q (QHostV4 a)"
  have h: "q_parseHost Q host = QHostV4 a" "host \<noteq> []" "CHR ''/'' \<notin> set host"
    unfolding host_def using host_text_facts [OF assms(1), where a = a]
    by (simp, simp) (use host_text_facts(4) [OF assms(1), of "CHR ''/''" a] in \<open>auto simp: is_dotted_code\<close>)
  have parts: "split_on CHR ''/'' (routeText Q a p) = (if p = 32 then [host] else [host, decimal p])"
    using split_on_one [OF h(3)] split_on_two [OF h(3), of "decimal p"] decimal_notin [of "CHR ''/''" p]
    by (simp add: routeText_def Let_def is_ascii_digit_iff host_def)
  have "q_toInt Q (decimal p) = Some (int p)"
    using assms(2) by (intro toInt_decimal [OF assms(1)]) simp
  then have prefix: "parsePrefix Q (if p = 32 then [host] else [host, decimal p]) = Some (int p)"
    using assms(2) by (simp add: parsePrefix_def decimal_int_def)
  have t: "trimmed Q (routeText Q a p) = routeText Q a p"
    using route_chars(1) [OF assms(1)] by (intro trimmed_id) blast
  show ?thesis
    unfolding parseCanonicalIpv4Route_def Let_def t parts prefix
    using routeText_length(1) [OF assms(1,2), of a] h(1,2) assms(3)
    by (cases "p = 32") (simp_all add: maximumRouteTokenLength_def flip: host_def)
qed

lemma parsePrefix_range: "parsePrefix Q parts = Some n \<Longrightarrow> 0 \<le> n \<and> n \<le> 32"
  by (auto simp: parsePrefix_def split: if_splits option.splits)

lemma parse_Some:
  assumes "parseCanonicalIpv4Route Q v = Some (a, p)"
  shows "p \<le> 32" "a AND ipv4Mask p = a"
proof -
  obtain parts n where "parsePrefix Q parts = Some n" "p = nat n" "a AND ipv4Mask (nat n) = a"
    using assms unfolding parseCanonicalIpv4Route_def Let_def
    by (simp split: if_split_asm option.split_asm)
  then show "p \<le> 32" "a AND ipv4Mask p = a" using parsePrefix_range [of Q parts n] by auto
qed

lemma allowed_parse:
  assumes "isAllowedManagedIpv4Route Q v"
  obtains a p where "parseCanonicalIpv4Route Q v = Some (a, p)" "p \<le> 32" "a AND ipv4Mask p = a"
proof (cases "parseCanonicalIpv4Route Q v")
  case None
  with assms show ?thesis by (simp add: isAllowedManagedIpv4Route_def)
next
  case (Some ap)
  then have "parseCanonicalIpv4Route Q v = Some (fst ap, snd ap)" by simp
  from this parse_Some [OF this] show ?thesis by (rule that)
qed

lemma allowed_cong:
  "parseCanonicalIpv4Route Q v = parseCanonicalIpv4Route Q w \<Longrightarrow>
   isAllowedManagedIpv4Route Q v = isAllowedManagedIpv4Route Q w"
  by (simp add: isAllowedManagedIpv4Route_def)

lemma canonical_cong:
  "parseCanonicalIpv4Route Q v = parseCanonicalIpv4Route Q w \<Longrightarrow>
   canonicalManagedIpv4Route Q v = canonicalManagedIpv4Route Q w"
  using allowed_cong [of Q v w] by (simp add: canonicalManagedIpv4Route_def)

lemma canonical_cases:
  obtains (rejected) "\<not> isAllowedManagedIpv4Route Q v" "canonicalManagedIpv4Route Q v = []"
  | (accepted) a p where "isAllowedManagedIpv4Route Q v"
      "parseCanonicalIpv4Route Q v = Some (a, p)" "p \<le> 32" "a AND ipv4Mask p = a"
      "canonicalManagedIpv4Route Q v = routeText Q a p"
proof (cases "isAllowedManagedIpv4Route Q v")
  case True
  then obtain a p where "parseCanonicalIpv4Route Q v = Some (a, p)" "p \<le> 32" "a AND ipv4Mask p = a"
    by (rule allowed_parse)
  with True show ?thesis by (intro accepted) (simp_all add: canonicalManagedIpv4Route_def)
qed (simp add: canonicalManagedIpv4Route_def rejected)

lemma parse_canonical:
  assumes "qt_routes_ok Q" "canonicalManagedIpv4Route Q v \<noteq> []"
  shows "parseCanonicalIpv4Route Q (canonicalManagedIpv4Route Q v) = parseCanonicalIpv4Route Q v"
proof (cases Q v rule: canonical_cases)
  case (accepted a p)
  with parse_routeText [OF assms(1)] show ?thesis by simp
qed (use assms(2) in simp)

lemma canonical_fixed:
  assumes "qt_routes_ok Q" "canonicalManagedIpv4Route Q v \<noteq> []"
  shows "canonicalManagedIpv4Route Q (canonicalManagedIpv4Route Q v) = canonicalManagedIpv4Route Q v"
  by (rule canonical_cong [OF parse_canonical [OF assms]])

lemma canonical_length: "qt_routes_ok Q \<Longrightarrow> length (canonicalManagedIpv4Route Q v) \<le> 18"
  by (cases Q v rule: canonical_cases) (simp_all add: routeText_length(1))

lemma canonical_chars:
  "\<lbrakk>qt_routes_ok Q; c \<in> set (canonicalManagedIpv4Route Q v)\<rbrakk> \<Longrightarrow> \<not> isRouteSeparator Q c"
  by (cases Q v rule: canonical_cases) (simp_all add: route_chars(2))

interpretation managed: route_canonicaliser canonicalManagedIpv4Route
  by unfold_locales (fact canonical_fixed canonical_length canonical_chars)+

section \<open>What the safety filter lets through\<close>

text \<open>
  The special-purpose addresses, read off the dotted octets: this network, loopback, shared
  address space, link local, the protocol assignment, documentation, AS112, AMT and benchmarking
  blocks, multicast and reserved space.
\<close>

definition special_purpose :: "u32 \<Rightarrow> bool" where
  "special_purpose x \<longleftrightarrow>
     (let a = octet 1 x; b = octet 2 x; c = octet 3 x in
      a = 0 \<or> a = 127 \<or> (a = 100 \<and> 64 \<le> b \<and> b < 128) \<or> (a = 169 \<and> b = 254)
      \<or> (a = 192 \<and> (b, c) \<in> {(0, 0), (0, 2), (31, 0), (31, 196), (52, 193), (88, 99), (175, 48)})
      \<or> (a = 198 \<and> b \<in> {18, 19}) \<or> (a = 198 \<and> b = 51 \<and> c = 100) \<or> (a = 203 \<and> b = 0 \<and> c = 113)
      \<or> 224 \<le> a)"

definition corporate_block :: "u32 set \<Rightarrow> bool" where
  "corporate_block A \<longleftrightarrow>
     (\<forall>x \<in> A. octet 1 x = 10) \<or> (\<forall>x \<in> A. octet 1 x = 172 \<and> 16 \<le> octet 2 x \<and> octet 2 x < 32)
   \<or> (\<forall>x \<in> A. octet 1 x = 192 \<and> octet 2 x = 168)"

lemma div_eq_range: "0 < d \<Longrightarrow> n div d = k \<longleftrightarrow> k * d \<le> n \<and> n < (k + 1) * (d :: nat)"
  by (metis add.commute div_nat_eqI dividend_less_times_div div_times_less_eq_dividend mult.commute
      plus_1_eq_Suc mult_Suc_right)

lemma octet_numeral:
  "octet (Suc 0) (numeral n) = unat (numeral n :: u32) div 16777216 mod 256"
  "octet 2 (numeral n) = unat (numeral n :: u32) div 65536 mod 256"
  "octet 3 (numeral n) = unat (numeral n :: u32) div 256 mod 256"
  "octet i 0 = 0"
  by (simp_all add: octet_def)

lemma special_members:
  "x \<in> cidr 0x00000000 8 \<longleftrightarrow> octet 1 x = 0"
  "x \<in> cidr 0x7f000000 8 \<longleftrightarrow> octet 1 x = 127"
  "x \<in> cidr 0x64400000 10 \<longleftrightarrow> octet 1 x = 100 \<and> octet 2 x div 64 = 1"
  "x \<in> cidr 0xa9fe0000 16 \<longleftrightarrow> octet 1 x = 169 \<and> octet 2 x = 254"
  "x \<in> cidr 0xc0000000 24 \<longleftrightarrow> octet 1 x = 192 \<and> octet 2 x = 0 \<and> octet 3 x = 0"
  "x \<in> cidr 0xc0000200 24 \<longleftrightarrow> octet 1 x = 192 \<and> octet 2 x = 0 \<and> octet 3 x = 2"
  "x \<in> cidr 0xc01f0000 24 \<longleftrightarrow> octet 1 x = 192 \<and> octet 2 x = 31 \<and> octet 3 x = 0"
  "x \<in> cidr 0xc01fc400 24 \<longleftrightarrow> octet 1 x = 192 \<and> octet 2 x = 31 \<and> octet 3 x = 196"
  "x \<in> cidr 0xc034c100 24 \<longleftrightarrow> octet 1 x = 192 \<and> octet 2 x = 52 \<and> octet 3 x = 193"
  "x \<in> cidr 0xc0586300 24 \<longleftrightarrow> octet 1 x = 192 \<and> octet 2 x = 88 \<and> octet 3 x = 99"
  "x \<in> cidr 0xc0af3000 24 \<longleftrightarrow> octet 1 x = 192 \<and> octet 2 x = 175 \<and> octet 3 x = 48"
  "x \<in> cidr 0xc6120000 15 \<longleftrightarrow> octet 1 x = 198 \<and> octet 2 x div 2 = 9"
  "x \<in> cidr 0xc6336400 24 \<longleftrightarrow> octet 1 x = 198 \<and> octet 2 x = 51 \<and> octet 3 x = 100"
  "x \<in> cidr 0xcb007100 24 \<longleftrightarrow> octet 1 x = 203 \<and> octet 2 x = 0 \<and> octet 3 x = 113"
  "x \<in> cidr 0xe0000000 4 \<longleftrightarrow> octet 1 x div 16 = 14"
  "x \<in> cidr 0xf0000000 4 \<longleftrightarrow> octet 1 x div 16 = 15"
  by (simp_all add: in_cidr_octets in_cidr_octet_bits octet_numeral)

lemma special_purpose_iff: "special_purpose x \<longleftrightarrow> (\<exists>(b, q) \<in> set specialRanges. x \<in> cidr b q)"
proof -
  have hi: "octet 1 x div 16 = 14 \<or> octet 1 x div 16 = 15 \<longleftrightarrow> 224 \<le> octet 1 x"
    using octet_less [of 1 x] by (auto simp: div_eq_range)
  have shared: "octet 2 x div 64 = 1 \<longleftrightarrow> 64 \<le> octet 2 x \<and> octet 2 x < 128"
    and bench: "octet 2 x div 2 = 9 \<longleftrightarrow> octet 2 x = 18 \<or> octet 2 x = 19"
    by (auto simp: div_eq_range)
  have "special_purpose x \<longleftrightarrow> list_ex (\<lambda>(b, q). x \<in> cidr b q) specialRanges"
    unfolding specialRanges_def special_purpose_def Let_def hi [symmetric] shared [symmetric]
    by (simp only: list_ex_Nil_iff list_ex_Cons_iff case_prod_conv special_members bench simp_thms
        insert_iff empty_iff prod.inject conj_disj_distribL disj_assoc)
  then show ?thesis by (simp only: list_ex_iff)
qed

lemma corporate_block_iff:
  assumes "p \<le> 32"
  shows "corporate_block (cidr a p) \<longleftrightarrow>
     ipv4RouteIsWithinRange a p 0x0a000000 8 \<or> ipv4RouteIsWithinRange a p 0xac100000 12
     \<or> ipv4RouteIsWithinRange a p 0xc0a80000 16"
proof -
  have "x \<in> cidr 0x0a000000 8 \<longleftrightarrow> octet 1 x = 10"
    "x \<in> cidr 0xac100000 12 \<longleftrightarrow> octet 1 x = 172 \<and> 16 \<le> octet 2 x \<and> octet 2 x < 32"
    "x \<in> cidr 0xc0a80000 16 \<longleftrightarrow> octet 1 x = 192 \<and> octet 2 x = 168" for x
    by (simp_all add: in_cidr_octets in_cidr_octet_bits octet_numeral div_eq_range)
  then show ?thesis
    by (simp add: within_iff_subset assms subset_eq corporate_block_def)
qed

lemma special_overlap_iff:
  assumes "p \<le> 32"
  shows "list_ex (\<lambda>(b, q). ipv4RouteOverlapsRange a p b q) specialRanges \<longleftrightarrow>
         (\<exists>x \<in> cidr a p. special_purpose x)"
proof -
  have "\<forall>(b, q) \<in> set specialRanges. q \<le> 32" by (simp add: specialRanges_def)
  then have "(\<exists>(b, q) \<in> set specialRanges. ipv4RouteOverlapsRange a p b q) \<longleftrightarrow>
      (\<exists>(b, q) \<in> set specialRanges. cidr a p \<inter> cidr b q \<noteq> {})"
    by (intro bex_cong refl) (auto dest!: bspec simp: overlaps_iff_meet [OF assms])
  also have "\<dots> \<longleftrightarrow> (\<exists>x \<in> cidr a p. special_purpose x)"
    unfolding special_purpose_iff by blast
  finally show ?thesis by (simp only: list_ex_iff)
qed

text \<open>
  \<^bold>\<open>C11.\<close> The safety filter accepts a route exactly when the text is a canonical prefix, none of
  Qt's address classes applies to its base, no address of the prefix is special-purpose, and the
  prefix is at least /16 long or lies inside one of the three RFC 1918 networks.
\<close>

theorem isAllowedManagedIpv4Route_iff:
  "isAllowedManagedIpv4Route Q v \<longleftrightarrow>
     (\<exists>a p. parseCanonicalIpv4Route Q v = Some (a, p) \<and> 0 < p \<and> p \<le> 32
        \<and> \<not> q_isLoopback Q (QHostV4 a) \<and> \<not> q_isBroadcast Q (QHostV4 a)
        \<and> \<not> q_isLinkLocal Q (QHostV4 a) \<and> \<not> q_isMulticast Q (QHostV4 a)
        \<and> (\<forall>x \<in> cidr a p. \<not> special_purpose x)
        \<and> (16 \<le> p \<or> corporate_block (cidr a p)))"
proof (cases "parseCanonicalIpv4Route Q v")
  case (Some ap)
  obtain a p where ap: "ap = (a, p)" by (cases ap)
  then have "p \<le> 32" using Some parse_Some by simp
  then show ?thesis
    using Some special_overlap_iff [of p a]
    by (auto simp: isAllowedManagedIpv4Route_def ap Let_def corporate_block_iff minimumPublicPrefixLength_def)
qed (simp add: isAllowedManagedIpv4Route_def)

lemma ref_texts:
  "routeText (qt_ref_with rd) 0x0a000000 8 = ''10.0.0.0/8''"
  "routeText (qt_ref_with rd) 0x08080808 32 = ''8.8.8.8''"
  by (simp_all add: routeText_def quad_text_def decimal.simps text_simps)

lemma ref_parse:
  "parseCanonicalIpv4Route (qt_ref_with rd) ''10.0.0.0/8'' = Some (0x0a000000, 8)"
  "parseCanonicalIpv4Route (qt_ref_with rd) ''8.8.8.8'' = Some (0x08080808, 32)"
  using parse_routeText [OF qt_ref_routes, of 8 "0x0a000000"]
    parse_routeText [OF qt_ref_routes, of 32 "0x08080808"]
  by (simp_all add: ref_texts ipv4Mask_def)

lemma ref_allowed:
  "isAllowedManagedIpv4Route (qt_ref_with rd) ''10.0.0.0/8''"
  "isAllowedManagedIpv4Route (qt_ref_with rd) ''8.8.8.8''"
  by (simp_all add: isAllowedManagedIpv4Route_def ref_parse Let_def specialRanges_def
      ipv4RouteOverlapsRange_def ipv4RouteIsWithinRange_def ipv4Mask_def
      minimumPublicPrefixLength_def)

lemma ref_canonical:
  "canonicalManagedIpv4Route (qt_ref_with rd) ''10.0.0.0/8'' = ''10.0.0.0/8''"
  "canonicalManagedIpv4Route (qt_ref_with rd) ''8.8.8.8'' = ''8.8.8.8''"
  by (simp_all add: canonicalManagedIpv4Route_def ref_allowed ref_parse ref_texts)

theorem isAllowedManagedIpv4Route_iff_witness:
  "isAllowedManagedIpv4Route qt_ref ''10.0.0.0/8'' \<and> \<not> special_purpose 0x0a000001
   \<and> corporate_block (cidr 0x0a000000 8)"
  using isAllowedManagedIpv4Route_iff [of qt_ref "''10.0.0.0/8''"] ref_allowed(1)
  by (auto simp: ref_parse cidr_def ipv4Mask_def)

section \<open>Canonical texts\<close>

lemma canonical_Nil_iff: "qt_routes_ok Q \<Longrightarrow> canonicalManagedIpv4Route Q v = [] \<longleftrightarrow> \<not> isAllowedManagedIpv4Route Q v"
  by (cases Q v rule: canonical_cases) (simp_all add: routeText_length(2))

text \<open>
  \<^bold>\<open>C26.\<close> The canonical text of an accepted route is a fixed point, is read back as the same
  address and prefix, fits the token bound, and identifies the route: another text has the same
  canonical form exactly when it denotes the same prefix.
\<close>

theorem canonicalManagedIpv4Route_canonical:
  assumes "qt_routes_ok Q" "isAllowedManagedIpv4Route Q v"
  shows "canonicalManagedIpv4Route Q (canonicalManagedIpv4Route Q v) = canonicalManagedIpv4Route Q v
    \<and> parseCanonicalIpv4Route Q (canonicalManagedIpv4Route Q v) = parseCanonicalIpv4Route Q v
    \<and> length (canonicalManagedIpv4Route Q v) \<le> maximumRouteTokenLength
    \<and> (canonicalManagedIpv4Route Q w = canonicalManagedIpv4Route Q v \<longleftrightarrow>
       parseCanonicalIpv4Route Q w = parseCanonicalIpv4Route Q v)"
proof -
  have ne: "canonicalManagedIpv4Route Q v \<noteq> []" using assms by (simp add: canonical_Nil_iff)
  have "parseCanonicalIpv4Route Q w = parseCanonicalIpv4Route Q v"
    if eq: "canonicalManagedIpv4Route Q w = canonicalManagedIpv4Route Q v"
    using parse_canonical [OF assms(1) ne] parse_canonical [OF assms(1), of w] ne by (simp add: eq)
  then show ?thesis
    using canonical_fixed [OF assms(1) ne] parse_canonical [OF assms(1) ne]
      canonical_length [OF assms(1), of v] canonical_cong [of Q w v]
    by (auto simp: maximumRouteTokenLength_def)
qed

theorem canonicalManagedIpv4Route_canonical_witness:
  "canonicalManagedIpv4Route qt_ref ''8.8.8.8'' = ''8.8.8.8''
   \<and> parseCanonicalIpv4Route qt_ref ''8.8.8.8'' = Some (0x08080808, 32)"
  using canonicalManagedIpv4Route_canonical [OF qt_ref_routes ref_allowed(2), of _ "''8.8.8.8''"]
  by (simp add: ref_canonical ref_parse)

section \<open>Validated texts and lists\<close>

lemma tokens_unfold:
  "validatedManagedRouteTokens Q value =
     (case collected (canonicalManagedIpv4Route Q) (tokens_where (isRouteSeparator Q) value) of
        Some routes \<Rightarrow>
          if length value \<le> 4096 \<and> length (tokens_where (isRouteSeparator Q) value) \<le> 64
          then (routes, True) else ([], False)
      | None \<Rightarrow> ([], False))"
  by (simp add: validatedManagedRouteTokens_def Let_def maximumStoredRouteValueLength_def
      maximumRoutesPerSite_def split: option.splits)

lemma tokens_rejoined:
  assumes "qt_routes_ok Q" "validatedManagedRouteTokens Q value = (routes, True)"
  shows "validatedManagedRouteTokens Q (join '', '' routes) = (routes, True)"
proof -
  let ?c = "collected (canonicalManagedIpv4Route Q)"
  have c: "?c (tokens_where (isRouteSeparator Q) value) = Some routes"
    and n: "length (tokens_where (isRouteSeparator Q) value) \<le> 64"
    using assms(2) by (auto simp: tokens_unfold split: option.splits if_splits)
  have "length routes \<le> 64" using collected_length [OF c] n by simp
  then have "length (join '', '' routes) \<le> 4096"
    using managed.rejoined_tokens(2) [OF assms(1) c] by linarith
  then show ?thesis
    using managed.rejoined_tokens(1) [OF assms(1) c] managed.collected_fixed [OF assms(1) c] \<open>length routes \<le> 64\<close>
    by (simp add: tokens_unfold)
qed

text \<open>
  \<^bold>\<open>C27.\<close> A stored route text is valid exactly when it has at most 4096 characters and at most
  64 tokens, every one of them allowed. The result then lists the canonical routes of the tokens
  without duplicates, and printing and validating it again changes nothing. An invalid text
  yields no route.
\<close>

theorem validatedManagedRouteTokens_correct:
  assumes "qt_routes_ok Q" "validatedManagedRouteTokens Q value = (routes, valid)"
  shows "(valid \<longleftrightarrow> length value \<le> 4096 \<and> length (tokens_where (isRouteSeparator Q) value) \<le> 64
           \<and> (\<forall>token \<in> set (tokens_where (isRouteSeparator Q) value). isAllowedManagedIpv4Route Q token))
    \<and> (if valid then distinct routes \<and> length routes \<le> 64
           \<and> set routes = canonicalManagedIpv4Route Q ` set (tokens_where (isRouteSeparator Q) value)
           \<and> validatedManagedRouteTokens Q (join '', '' routes) = (routes, True)
       else routes = [])"
proof -
  let ?t = "tokens_where (isRouteSeparator Q) value"
  let ?c = "collected (canonicalManagedIpv4Route Q)"
  have iff: "(\<exists>rs. ?c ?t = Some rs) \<longleftrightarrow> (\<forall>t \<in> set ?t. isAllowedManagedIpv4Route Q t)"
    by (simp add: collected_iff canonical_Nil_iff [OF assms(1)])
  show ?thesis
  proof (cases "?c ?t")
    case None
    then show ?thesis using assms(2) iff by (simp add: tokens_unfold)
  next
    case (Some rs)
    then have "valid \<longleftrightarrow> length value \<le> 4096 \<and> length ?t \<le> 64"
      and "routes = (if valid then rs else [])"
      using assms(2) by (simp_all add: tokens_unfold split: if_splits)
    moreover have "\<forall>t \<in> set ?t. isAllowedManagedIpv4Route Q t" using iff Some by blast
    ultimately show ?thesis
      using Some assms collected_distinct [OF Some] collected_set(1) [OF Some] collected_length [OF Some]
        tokens_rejoined [OF assms(1), of "value" rs] by simp
  qed
qed

lemma ref_tokens: "tokens_where (isRouteSeparator (qt_ref_with rd)) ''10.0.0.0/8 ; 8.8.8.8'' = [''10.0.0.0/8'', ''8.8.8.8'']"
  by (simp add: tokens_where_def isRouteSeparator_def ascii_space_def)

theorem validatedManagedRouteTokens_correct_witness:
  "validatedManagedRouteTokens qt_ref ''10.0.0.0/8 ; 8.8.8.8'' = ([''10.0.0.0/8'', ''8.8.8.8''], True)
   \<and> validatedManagedRouteTokens qt_ref ''10.0.0.0/8, 8.8.8.8'' = ([''10.0.0.0/8'', ''8.8.8.8''], True)"
proof -
  have "validatedManagedRouteTokens qt_ref ''10.0.0.0/8 ; 8.8.8.8'' = ([''10.0.0.0/8'', ''8.8.8.8''], True)"
    by (simp add: tokens_unfold ref_tokens collected_def add_new_def non_empty_def ref_canonical)
  from this validatedManagedRouteTokens_correct [OF qt_ref_routes this] show ?thesis by simp
qed

lemma routesLoop_collect:
  "length acc + length vs \<le> maximumTotalRouteCount \<Longrightarrow>
   (case collect (\<lambda>v. non_empty (canonicalManagedIpv4Route Q v)) acc vs of
      Some rs \<Rightarrow> validatedManagedRoutesLoop Q acc vs = (rs, True)
    | None \<Rightarrow> \<not> snd (validatedManagedRoutesLoop Q acc vs))"
proof (induction vs arbitrary: acc)
  case (Cons v vs)
  let ?r = "canonicalManagedIpv4Route Q v"
  have len: "length acc + length vs \<le> maximumTotalRouteCount"
    "length (acc @ [?r]) + length vs \<le> maximumTotalRouteCount" using Cons.prems by simp_all
  consider "?r = []" | "?r \<noteq> []" "?r \<in> set acc" | "?r \<noteq> []" "?r \<notin> set acc" by blast
  then show ?case
  proof cases
    case 1
    then show ?thesis by (simp add: non_empty_def)
  next
    case 2
    then show ?thesis using Cons.IH [OF len(1)] by (simp add: non_empty_def add_new_def split: option.splits)
  next
    case 3
    then show ?thesis using Cons.IH [OF len(2)] Cons.prems
      by (simp add: non_empty_def add_new_def split: option.splits)
  qed
qed simp

lemma routes_unfold:
  "validatedManagedRoutes Q values =
     (case collected (canonicalManagedIpv4Route Q) values of
        Some rs \<Rightarrow> if length values \<le> 4096 then (rs, True) else ([], False)
      | None \<Rightarrow> ([], False))"
  using routesLoop_collect [of "[]" "values" Q]
  by (auto simp: validatedManagedRoutes_def collected_def maximumTotalRouteCount_def Let_def
      split: option.splits prod.splits)

text \<open>
  A list of routes is valid exactly when it has at most 4096 entries, all of them allowed;
  the result is the duplicate-free list of their canonical forms, on which validation is the
  identity. The privileged service therefore accepts a list the client validated, unchanged.
\<close>

theorem validatedManagedRoutes_correct:
  assumes "qt_routes_ok Q" "validatedManagedRoutes Q values = (routes, valid)"
  shows "(valid \<longleftrightarrow> length values \<le> 4096 \<and> (\<forall>v \<in> set values. isAllowedManagedIpv4Route Q v))
    \<and> (if valid then distinct routes \<and> set routes = canonicalManagedIpv4Route Q ` set values
           \<and> length routes \<le> length values \<and> validatedManagedRoutes Q routes = (routes, True)
       else routes = [])"
proof -
  let ?c = "collected (canonicalManagedIpv4Route Q)"
  have iff: "(\<exists>rs. ?c values = Some rs) \<longleftrightarrow> (\<forall>v \<in> set values. isAllowedManagedIpv4Route Q v)"
    by (simp add: collected_iff canonical_Nil_iff [OF assms(1)])
  show ?thesis
  proof (cases "?c values")
    case None
    then show ?thesis using assms(2) iff by (simp add: routes_unfold)
  next
    case (Some rs)
    then have "\<forall>v \<in> set values. isAllowedManagedIpv4Route Q v" using iff by blast
    then show ?thesis
      using Some assms(2) collected_distinct [OF Some] collected_set(1) [OF Some] collected_length [OF Some]
        managed.collected_fixed [OF assms(1) Some] by (simp add: routes_unfold split: if_splits)
  qed
qed

theorem validatedManagedRoutes_correct_witness:
  "validatedManagedRoutes qt_ref [''8.8.8.8'', ''10.0.0.0/8'', ''8.8.8.8''] = ([''8.8.8.8'', ''10.0.0.0/8''], True)
   \<and> validatedManagedRoutes qt_ref [''8.8.8.8'', ''10.0.0.0/8''] = ([''8.8.8.8'', ''10.0.0.0/8''], True)"
proof -
  have "validatedManagedRoutes qt_ref [''8.8.8.8'', ''10.0.0.0/8'', ''8.8.8.8''] = ([''8.8.8.8'', ''10.0.0.0/8''], True)"
    by (simp add: routes_unfold collected_def add_new_def non_empty_def ref_canonical)
  from this validatedManagedRoutes_correct [OF qt_ref_routes this] show ?thesis by simp
qed

end
