(* ===== verification/Managed_Policy.thy ===== *)
theory Managed_Policy
  imports Managed_Routes
begin

text \<open>
  The lifecycle of a managed route policy (\<open>managedRoutePolicy.h\<close>): the canonical form and
  digest of the source rules, the metadata of an accepted policy and its JSON record, the
  admission of a downloaded candidate against the last known good policy, and the test that a
  stored policy is still effective.
\<close>

section \<open>Metadata\<close>

text \<open>How sites are routed (\<open>routeModes.h\<close>).\<close>

datatype RouteMode = VpnAllSites | VpnOnlyForwardSites | VpnAllExceptSites

record ManagedRoutePolicyMetadata =
  pm_schemaVersion :: int
  pm_revision :: string
  pm_revisionNumber :: int
  pm_versioned :: bool
  pm_contentHash :: string
  pm_declaredContentHash :: string
  pm_contentMatchesDeclaration :: bool
  pm_issuedAt :: qdatetime
  pm_expiresAt :: qdatetime
  pm_acceptedAt :: qdatetime
  pm_source :: string
  pm_trustState :: string

definition defaultMetadata :: ManagedRoutePolicyMetadata where
  "defaultMetadata = \<lparr> pm_schemaVersion = 1, pm_revision = [], pm_revisionNumber = -1,
     pm_versioned = False, pm_contentHash = [], pm_declaredContentHash = [],
     pm_contentMatchesDeclaration = True, pm_issuedAt = None, pm_expiresAt = None,
     pm_acceptedAt = None, pm_source = [], pm_trustState = ''unsigned'' \<rparr>"

definition isExpired :: "ManagedRoutePolicyMetadata \<Rightarrow> qdatetime \<Rightarrow> bool" where
  "isExpired m now \<longleftrightarrow> dt_valid (pm_expiresAt m) \<and> dt_le (pm_expiresAt m) now"

definition insert_if :: "bool \<Rightarrow> string \<Rightarrow> json \<Rightarrow> jobject \<Rightarrow> jobject" where
  "insert_if b k v ob = (if b then obj_insert k v ob else ob)"

definition insert_instant :: "qt \<Rightarrow> string \<Rightarrow> qdatetime \<Rightarrow> jobject \<Rightarrow> jobject" where
  "insert_instant Q k t ob = (case t of None \<Rightarrow> ob | Some ms \<Rightarrow> obj_insert k (JString (q_isoMs Q ms)) ob)"

definition toJson :: "qt \<Rightarrow> ManagedRoutePolicyMetadata \<Rightarrow> jobject" where
  "toJson Q m =
     (let json = [];
          json = obj_insert ''schemaVersion'' (jint (pm_schemaVersion m)) json;
          json = obj_insert ''policyType''
                   (JString (if pm_versioned m then ''versioned'' else ''legacy'')) json;
          json = obj_insert ''revision'' (JString (pm_revision m)) json;
          json = insert_if (pm_versioned m \<and> pm_revisionNumber m \<ge> 0) ''revisionNumber''
                   (jint (pm_revisionNumber m)) json;
          json = insert_if (pm_contentHash m \<noteq> []) ''contentHash'' (JString (pm_contentHash m)) json;
          json = insert_if (pm_declaredContentHash m \<noteq> []) ''declaredContentHash''
                   (JString (pm_declaredContentHash m)) json;
          json = obj_insert ''contentMatchesDeclaration'' (JBool (pm_contentMatchesDeclaration m)) json;
          json = obj_insert ''trustState''
                   (JString (if pm_trustState m = [] then ''unsigned'' else pm_trustState m)) json;
          json = insert_instant Q ''issuedAt'' (pm_issuedAt m) json;
          json = insert_instant Q ''expiresAt'' (pm_expiresAt m) json;
          json = insert_instant Q ''acceptedAt'' (pm_acceptedAt m) json;
          json = insert_if (pm_source m \<noteq> []) ''source'' (JString (pm_source m)) json
      in json)"

section \<open>Reading members\<close>

definition stateKey :: string where "stateKey = ''managedRoutePolicyState''"
definition lastKnownGoodKey :: string where "lastKnownGoodKey = ''lastKnownGood''"

text \<open>\<open>QDateTime::fromSecsSinceEpoch\<close> is not valid when the milliseconds overflow 64 bits.\<close>

definition fromSecsSinceEpoch :: "int \<Rightarrow> qdatetime" where
  "fromSecsSinceEpoch t =
     (if -9223372036854775 \<le> t \<and> t \<le> 9223372036854775 then Some (t * 1000) else None)"

definition dateTimeFromJson :: "qt \<Rightarrow> json \<Rightarrow> qdatetime" where
  "dateTimeFromJson Q v =
     (case v of
        JString s \<Rightarrow> (case q_fromIsoMs Q s of Some t \<Rightarrow> Some t | None \<Rightarrow> q_fromIso Q s)
      | JDouble d \<Rightarrow>
          (let timestamp = q_variantToLongLong Q d in
           if timestamp > 100000000000 then Some timestamp else fromSecsSinceEpoch timestamp)
      | _ \<Rightarrow> None)"

fun firstKey :: "jobject \<Rightarrow> string list \<Rightarrow> json option" where
  "firstKey ob [] = None"
| "firstKey ob (k # ks) = (if obj_contains ob k then Some (obj_value ob k) else firstKey ob ks)"

definition firstValue :: "jobject \<Rightarrow> jobject \<Rightarrow> string list \<Rightarrow> json" where
  "firstValue primary fallback keys =
     (case firstKey primary keys of
        Some v \<Rightarrow> v
      | None \<Rightarrow> (case firstKey fallback keys of Some v \<Rightarrow> v | None \<Rightarrow> JUndefined))"

definition maxExactJsonInteger :: int where "maxExactJsonInteger = 9007199254740991"

definition canonicalRevisionNumber :: "json \<Rightarrow> int option" where
  "canonicalRevisionNumber v =
     (case v of
        JDouble number \<Rightarrow>
          (if \<not> dbl_isfinite number \<or> dbl_less number (dbl_int 1)
              \<or> dbl_less (dbl_int maxExactJsonInteger) number
              \<or> \<not> dbl_eq (dbl_floor number) number
           then None else Some (dbl_to_int number))
      | _ \<Rightarrow> None)"

definition storedCanonicalRevisionNumber :: "qt \<Rightarrow> string \<Rightarrow> int option" where
  "storedCanonicalRevisionNumber Q s =
     (let t = trimmed Q s in
      if t = [] \<or> (length t > 1 \<and> hd t = CHR ''0'') then None
      else if \<not> list_all (q_isDigit Q) t then None
      else case q_toULongLong Q t of
             None \<Rightarrow> None
           | Some number \<Rightarrow> if number < 1 \<or> number > maxExactJsonInteger then None else Some number)"

definition normalizedSha256 :: "qt \<Rightarrow> string \<Rightarrow> string" where
  "normalizedSha256 Q s =
     (let normalized = q_toLower Q (trimmed Q s) in
      if \<not> starts_with ''sha256:'' normalized \<or> length normalized \<noteq> 71 then []
      else if list_ex (\<lambda>c. \<not> q_isDigit Q c \<and> (c < CHR ''a'' \<or> c > CHR ''f'')) (drop 7 normalized) then []
      else normalized)"

section \<open>Canonical source rules\<close>

definition sourceSitesKeys :: "string list" where
  "sourceSitesKeys = [''managedSplitTunnelExceptSourceSites'', ''managedSplitTunnelExceptSites'', ''serverExcept'']"

definition containsSourceSites :: "jobject \<Rightarrow> bool" where
  "containsSourceSites ob \<longleftrightarrow>
     obj_contains ob ''managedSplitTunnelExceptSourceSites''
     \<or> obj_contains ob ''managedSplitTunnelExceptSites'' \<or> obj_contains ob ''serverExcept''"

fun sourceSitesLoop :: "jobject \<Rightarrow> string list \<Rightarrow> json" where
  "sourceSitesLoop ob [] = JUndefined"
| "sourceSitesLoop ob (k # ks) =
     (let v = obj_value ob k in if is_object v \<or> is_array v then v else sourceSitesLoop ob ks)"

definition sourceSitesValue :: "jobject \<Rightarrow> json" where
  "sourceSitesValue ob = sourceSitesLoop ob sourceSitesKeys"

record SiteLoop =
  sl_sites :: jobject
  sl_isValid :: bool
  sl_totalRouteBudget :: nat

definition insertSite :: "qt \<Rightarrow> SiteLoop \<Rightarrow> string \<Rightarrow> json \<Rightarrow> SiteLoop" where
  "insertSite Q st rawSite rawValue =
     (if \<not> is_string rawValue then st\<lparr>sl_isValid := False\<rparr> else
      let site = q_toLower Q (trimmed Q rawSite) in
      if \<not> isAllowedManagedSiteKey Q site then st\<lparr>sl_isValid := False\<rparr> else
      let directRoute = canonicalManagedIpv4Route Q site;
          site = (if directRoute \<noteq> [] then directRoute else site);
          (routes, routesValid) = validatedManagedRouteTokens Q (jstr rawValue) in
      if \<not> routesValid \<or> (directRoute \<noteq> [] \<and> routes \<noteq> []) then st\<lparr>sl_isValid := False\<rparr> else
      let canonicalValue = JString (join '', '' routes);
          previous = obj_value (sl_sites st) site in
      if previous \<noteq> JUndefined then
        (if previous \<noteq> canonicalValue then st\<lparr>sl_isValid := False\<rparr> else st)
      else
      let budget = sl_totalRouteBudget st + length routes + 1;
          st = st\<lparr>sl_totalRouteBudget := budget\<rparr> in
      if budget > maximumTotalRouteCount then st\<lparr>sl_isValid := False\<rparr>
      else st\<lparr>sl_sites := obj_insert site canonicalValue (sl_sites st)\<rparr>)"

definition siteOfItem :: "jobject \<Rightarrow> string" where
  "siteOfItem ob = to_string (jstr (obj_value ob ''url'')) (obj_value ob ''hostname'')"

definition insertItem :: "qt \<Rightarrow> SiteLoop \<Rightarrow> json \<Rightarrow> SiteLoop" where
  "insertItem Q st item =
     (if \<not> is_object item then st\<lparr>sl_isValid := False\<rparr>
      else insertSite Q st (siteOfItem (to_object item)) (obj_value (to_object item) ''ip''))"

definition canonicalSourceSites :: "qt \<Rightarrow> json \<Rightarrow> jobject \<times> bool" where
  "canonicalSourceSites Q v =
     (let st = \<lparr> sl_sites = [], sl_isValid = is_object v \<or> is_array v, sl_totalRouteBudget = 0 \<rparr>;
          st = (case v of
             JObject ob \<Rightarrow>
               foldl (\<lambda>st (k, w). insertSite Q st k w)
                 (if length ob > maximumSiteCount then st\<lparr>sl_isValid := False\<rparr> else st) ob
           | JArray items \<Rightarrow>
               foldl (insertItem Q)
                 (if length items > maximumSiteCount then st\<lparr>sl_isValid := False\<rparr> else st) items
           | _ \<Rightarrow> st)
      in (sl_sites st, sl_isValid st))"

definition policyContent :: "jobject \<Rightarrow> bool \<Rightarrow> jobject" where
  "policyContent sites force =
     obj_insert ''managedSplitTunnelForceEnabled'' (JBool force)
       (obj_insert ''managedSplitTunnelExceptSourceSites'' (JObject sites)
         (obj_insert ''schemaVersion'' (jint 1) []))"

definition canonicalSourcePolicyContent :: "qt \<Rightarrow> jobject \<Rightarrow> jobject \<times> bool" where
  "canonicalSourcePolicyContent Q ob =
     (let (sites, sitesValid) = canonicalSourceSites Q (sourceSitesValue ob);
          isValid = containsSourceSites ob \<and> sitesValid
      in (policyContent sites (to_bool False (obj_value ob ''managedSplitTunnelForceEnabled'')), isValid))"

definition derivedRevision :: "qt \<Rightarrow> jobject \<Rightarrow> string" where
  "derivedRevision Q canonicalObject = ''sha256:'' @ to_hex (q_sha256 Q (q_jsonText Q canonicalObject))"

definition canonicalSourcePolicyHash :: "qt \<Rightarrow> jobject \<Rightarrow> string \<times> bool" where
  "canonicalSourcePolicyHash Q ob =
     (let (content, contentValid) = canonicalSourcePolicyContent Q ob
      in (''sha256:'' @ to_hex (q_sha256 Q (q_jsonText Q content)), contentValid))"

section \<open>Stored metadata\<close>

text \<open>The members of a stored record, before any check.\<close>

definition readMetadata :: "qt \<Rightarrow> jobject \<Rightarrow> ManagedRoutePolicyMetadata" where
  "readMetadata Q json =
     (let contentHash = normalizedSha256 Q (jstr (obj_value json ''contentHash''));
          declared = normalizedSha256 Q (jstr (obj_value json ''declaredContentHash''));
          declared = (if declared = [] then contentHash else declared)
      in defaultMetadata\<lparr>
           pm_schemaVersion := to_int 1 (obj_value json ''schemaVersion''),
           pm_revision := trimmed Q (jstr (obj_value json ''revision'')),
           pm_contentHash := contentHash,
           pm_declaredContentHash := declared,
           pm_contentMatchesDeclaration :=
             to_bool (declared = [] \<or> declared = contentHash) (obj_value json ''contentMatchesDeclaration''),
           pm_issuedAt := dateTimeFromJson Q (obj_value json ''issuedAt''),
           pm_expiresAt := dateTimeFromJson Q (obj_value json ''expiresAt''),
           pm_acceptedAt := dateTimeFromJson Q (obj_value json ''acceptedAt''),
           pm_source := trimmed Q (jstr (obj_value json ''source'')),
           pm_trustState := to_string ''unsigned'' (obj_value json ''trustState'')\<rparr>)"

definition metadataFromJson :: "qt \<Rightarrow> jobject \<Rightarrow> ManagedRoutePolicyMetadata option" where
  "metadataFromJson Q json =
     (if json = [] then None else
      let metadata = readMetadata Q json;
          policyType = q_toLower Q (trimmed Q (jstr (obj_value json ''policyType'')));
          parsedRevision = storedCanonicalRevisionNumber Q (pm_revision metadata);
          numericRevision = (parsedRevision \<noteq> None)
      in
      if (policyType \<noteq> [] \<and> policyType \<noteq> ''versioned'' \<and> policyType \<noteq> ''legacy'')
         \<or> (policyType = ''legacy'' \<and> numericRevision) then None else
      let versioned = (policyType = ''versioned'' \<or> (policyType = [] \<and> numericRevision));
          storedRevision = canonicalRevisionNumber (obj_value json ''revisionNumber'');
          revisionNumber =
            (if versioned then
               (case storedRevision of
                  Some n \<Rightarrow> n
                | None \<Rightarrow> (case parsedRevision of Some n \<Rightarrow> n | None \<Rightarrow> -1))
             else -1);
          metadata = metadata\<lparr>pm_versioned := versioned, pm_revisionNumber := revisionNumber\<rparr>
      in
      if pm_schemaVersion metadata \<noteq> 1 \<or> pm_revision metadata = [] \<or> (versioned \<and> revisionNumber < 1)
      then None else
      if versioned
         \<and> (\<not> numericRevision
            \<or> storedRevision = None
            \<or> Some revisionNumber \<noteq> parsedRevision
            \<or> pm_contentHash metadata = [] \<or> pm_declaredContentHash metadata = []
            \<or> normalizedSha256 Q (jstr (obj_value json ''declaredContentHash'')) = []
            \<or> \<not> is_bool (obj_value json ''contentMatchesDeclaration'')
            \<or> \<not> dt_valid (pm_issuedAt metadata) \<or> \<not> dt_valid (pm_expiresAt metadata)
            \<or> dt_le (pm_expiresAt metadata) (pm_issuedAt metadata))
      then None else
      Some (if pm_trustState metadata \<noteq> ''unsigned'' then metadata\<lparr>pm_trustState := ''unsigned''\<rparr>
            else metadata))"

definition lastKnownGood :: "qt \<Rightarrow> jobject \<Rightarrow> ManagedRoutePolicyMetadata option" where
  "lastKnownGood Q serverConfig =
     (let state = to_object (obj_value serverConfig stateKey)
      in metadataFromJson Q (to_object (obj_value state lastKnownGoodKey)))"

definition metadataForEffectiveContent ::
  "qt \<Rightarrow> jobject \<Rightarrow> ManagedRoutePolicyMetadata \<Rightarrow> ManagedRoutePolicyMetadata" where
  "metadataForEffectiveContent Q serverConfig metadata =
     (let declared = (if pm_declaredContentHash metadata = [] then pm_contentHash metadata
                      else pm_declaredContentHash metadata);
          (effectiveHash, contentValid) = canonicalSourcePolicyHash Q serverConfig;
          effective = metadata\<lparr>pm_declaredContentHash := declared\<rparr>;
          effective =
            (if contentValid then
               effective\<lparr>pm_contentHash := effectiveHash,
                         pm_contentMatchesDeclaration := (declared = [] \<or> declared = effectiveHash)\<rparr>
             else effective\<lparr>pm_contentHash := [], pm_contentMatchesDeclaration := False\<rparr>)
      in effective\<lparr>pm_trustState := ''unsigned''\<rparr>)"

definition lastKnownGoodForEffectiveContent :: "qt \<Rightarrow> jobject \<Rightarrow> ManagedRoutePolicyMetadata option" where
  "lastKnownGoodForEffectiveContent Q serverConfig =
     (case lastKnownGood Q serverConfig of
        None \<Rightarrow> None
      | Some metadata \<Rightarrow> Some (metadataForEffectiveContent Q serverConfig metadata))"

definition isEffective :: "qt \<Rightarrow> jobject \<Rightarrow> qdatetime \<Rightarrow> bool" where
  "isEffective Q serverConfig now =
     (let stateValue = obj_value serverConfig stateKey in
      if stateValue = JUndefined then snd (canonicalSourcePolicyContent Q serverConfig)
      else if \<not> is_object stateValue then False
      else let retainedValue = obj_value (to_object stateValue) lastKnownGoodKey in
      if \<not> is_object retainedValue \<or> to_object retainedValue = [] then False
      else case metadataFromJson Q (to_object retainedValue) of
             None \<Rightarrow> False
           | Some metadata \<Rightarrow>
               let effective = metadataForEffectiveContent Q serverConfig metadata
               in pm_contentMatchesDeclaration effective \<and> \<not> isExpired effective now)"

definition effectiveContentHash :: "qt \<Rightarrow> jobject \<Rightarrow> qdatetime \<Rightarrow> string" where
  "effectiveContentHash Q serverConfig now =
     (if \<not> isEffective Q serverConfig now then []
      else let (contentHash, contentValid) = canonicalSourcePolicyHash Q serverConfig
           in if contentValid then contentHash else [])"

definition isCanonicalPolicyIdentity :: "qt \<Rightarrow> string \<Rightarrow> string \<Rightarrow> bool" where
  "isCanonicalPolicyIdentity Q revision contentHash =
     (if revision = [] \<or> contentHash = [] then revision = [] \<and> contentHash = []
      else let revisionValid =
             (trimmed Q revision = revision \<and> storedCanonicalRevisionNumber Q revision \<noteq> None)
             \<or> normalizedSha256 Q revision = revision
           in revisionValid \<and> normalizedSha256 Q contentHash = contentHash)"

definition effectiveRevision :: "qt \<Rightarrow> jobject \<Rightarrow> qdatetime \<Rightarrow> string" where
  "effectiveRevision Q serverConfig now =
     (let contentHash = effectiveContentHash Q serverConfig now in
      if contentHash = [] then []
      else if obj_value serverConfig stateKey = JUndefined then contentHash
      else case lastKnownGoodForEffectiveContent Q serverConfig of
             None \<Rightarrow> []
           | Some metadata \<Rightarrow>
               if isExpired metadata now \<or> \<not> pm_contentMatchesDeclaration metadata
                  \<or> pm_contentHash metadata \<noteq> contentHash
               then [] else pm_revision metadata)"

definition storeLastKnownGood :: "qt \<Rightarrow> jobject \<Rightarrow> ManagedRoutePolicyMetadata \<Rightarrow> jobject \<times> bool" where
  "storeLastKnownGood Q serverConfig metadata =
     (let state = to_object (obj_value serverConfig stateKey);
          effective = metadataForEffectiveContent Q serverConfig metadata;
          metadataJson = toJson Q effective in
      if to_object (obj_value state lastKnownGoodKey) = metadataJson then (serverConfig, False)
      else let state = obj_insert ''schemaVersion'' (jint 1) state;
               state = obj_insert lastKnownGoodKey (JObject metadataJson) state
           in (obj_insert stateKey (JObject state) serverConfig, True))"

definition refreshEffectiveContentMetadata :: "qt \<Rightarrow> jobject \<Rightarrow> jobject \<times> bool" where
  "refreshEffectiveContentMetadata Q serverConfig =
     (case lastKnownGood Q serverConfig of
        None \<Rightarrow> (serverConfig, False)
      | Some metadata \<Rightarrow> storeLastKnownGood Q serverConfig metadata)"

section \<open>Admission of a candidate\<close>

definition candidateSchema :: "qt \<Rightarrow> bool \<Rightarrow> jobject \<Rightarrow> jobject \<Rightarrow> int" where
  "candidateSchema Q versioned policyObject payload =
     (let v = (if versioned then obj_value policyObject ''schemaVersion''
               else firstValue policyObject payload [''schemaVersion'', ''schema_version'']) in
      if v = JUndefined then 1
      else if is_double v \<and> dbl_eq (dbl_floor (to_double (dbl_int 0) v)) (to_double (dbl_int 0) v) then to_int 0 v
      else if \<not> versioned \<and> is_string v then (case q_toInt Q (jstr v) of Some n \<Rightarrow> n | None \<Rightarrow> 0)
      else 0)"

text \<open>The content and number a versioned envelope declares.\<close>

definition declaredPolicy :: "qt \<Rightarrow> jobject \<Rightarrow> jobject \<Rightarrow> string + (int \<times> jobject)" where
  "declaredPolicy Q policyObject effectiveContent =
     (case canonicalRevisionNumber (obj_value policyObject ''revision'') of
        None \<Rightarrow> Inl ''policy revision must be a canonical positive integer''
      | Some n \<Rightarrow>
          let contentValue = obj_value policyObject ''content'' in
          if \<not> is_object contentValue then Inl ''versioned policy has no canonical content'' else
          let contentObject = to_object contentValue in
          if to_int 0 (obj_value contentObject ''schemaVersion'') \<noteq> 1
             \<or> \<not> is_double (obj_value contentObject ''schemaVersion'')
             \<or> \<not> obj_contains contentObject ''managedSplitTunnelExceptSourceSites''
             \<or> \<not> is_bool (obj_value contentObject ''managedSplitTunnelForceEnabled'')
          then Inl ''versioned policy content schema is invalid'' else
          let (declaredContent, declaredContentValid) = canonicalSourcePolicyContent Q contentObject in
          if \<not> declaredContentValid \<or> declaredContent \<noteq> effectiveContent
          then Inl ''policy content does not match effective source rules''
          else Inr (n, declaredContent))"

text \<open>The comparison with the policy in force: an error, or the acceptance time to carry over.\<close>

definition compareWithCurrent ::
  "ManagedRoutePolicyMetadata \<Rightarrow> ManagedRoutePolicyMetadata \<Rightarrow> string + qdatetime" where
  "compareWithCurrent current metadata =
     (let currentDeclaredHash =
            (if pm_declaredContentHash current = [] then pm_contentHash current
             else pm_declaredContentHash current) in
      if pm_versioned current \<and> \<not> pm_versioned metadata
      then Inl ''legacy policy cannot replace a versioned policy''
      else if pm_versioned metadata \<and> pm_versioned current then
        (if pm_revisionNumber current < 1 then Inl ''stored versioned policy revision is invalid''
         else if pm_revisionNumber metadata < pm_revisionNumber current
         then Inl ''policy revision is older than last-known-good''
         else if pm_revisionNumber metadata = pm_revisionNumber current then
           (if currentDeclaredHash \<noteq> [] \<and> pm_declaredContentHash metadata \<noteq> currentDeclaredHash
            then Inl ''policy content changed without a new revision''
            else if (dt_valid (pm_issuedAt current) \<and> pm_issuedAt metadata \<noteq> pm_issuedAt current)
                    \<or> (dt_valid (pm_expiresAt current) \<and> pm_expiresAt metadata \<noteq> pm_expiresAt current)
            then Inl ''policy lifecycle changed without a new revision''
            else Inr (pm_acceptedAt current))
         else if dt_valid (pm_issuedAt current) \<and> dt_less (pm_issuedAt metadata) (pm_issuedAt current)
         then Inl ''policy issue time is older than last-known-good''
         else Inr None)
      else if \<not> pm_versioned metadata \<and> \<not> pm_versioned current then
        (if pm_declaredContentHash metadata = currentDeclaredHash \<and> dt_valid (pm_acceptedAt current)
         then Inr (pm_acceptedAt current)
         else if dt_valid (pm_issuedAt current) then
           (if \<not> dt_valid (pm_issuedAt metadata)
            then Inl ''policy without issue time would replace last-known-good''
            else if dt_less (pm_issuedAt metadata) (pm_issuedAt current)
            then Inl ''policy is older than last-known-good'' else Inr None)
         else Inr None)
      else Inr None)"

definition lifecycleError ::
  "bool \<Rightarrow> json \<Rightarrow> json \<Rightarrow> qdatetime \<Rightarrow> qdatetime \<Rightarrow> qdatetime \<Rightarrow> string option" where
  "lifecycleError versioned issuedValue expiresValue issuedAt expiresAt utcNow =
     (if (issuedValue \<noteq> JUndefined \<and> \<not> dt_valid issuedAt) \<or> (versioned \<and> \<not> dt_valid issuedAt)
      then Some ''invalid policy issue time''
      else if (expiresValue \<noteq> JUndefined \<and> \<not> dt_valid expiresAt) \<or> (versioned \<and> \<not> dt_valid expiresAt)
      then Some ''invalid policy expiry time''
      else if dt_valid issuedAt \<and> dt_less (dt_addSecs (10 * 60) utcNow) issuedAt
      then Some ''policy issue time is in the future''
      else if dt_valid expiresAt \<and> dt_le expiresAt utcNow then Some ''policy is expired''
      else if dt_valid issuedAt \<and> dt_valid expiresAt \<and> dt_le expiresAt issuedAt
      then Some ''policy expiry is not after issue time''
      else None)"

text \<open>\<open>clock\<close> is the reading of the system clock, used when the caller passes no valid time.\<close>

definition validateCandidate ::
  "qt \<Rightarrow> jobject \<Rightarrow> ManagedRoutePolicyMetadata option \<Rightarrow> qdatetime \<Rightarrow> int
   \<Rightarrow> string + ManagedRoutePolicyMetadata" where
  "validateCandidate Q payload current now clock =
     (let policyMemberPresent = obj_contains payload ''policy'' in
      if policyMemberPresent \<and> \<not> is_object (obj_value payload ''policy'') then Inl ''invalid policy envelope'' else
      let versioned = policyMemberPresent;
          policyObject = to_object (obj_value payload ''policy'') in
      if candidateSchema Q versioned policyObject payload \<noteq> 1 then Inl ''unsupported policy schema version'' else
      let (effectiveContent, effectiveContentValid) = canonicalSourcePolicyContent Q payload in
      if \<not> effectiveContentValid then Inl ''invalid canonical source policy'' else
      case (if versioned then declaredPolicy Q policyObject effectiveContent
            else Inr (-1, effectiveContent)) of
        Inl e \<Rightarrow> Inl e
      | Inr (revisionNumber, declaredContent) \<Rightarrow>
          let contentHash = derivedRevision Q declaredContent;
              declaredHash = normalizedSha256 Q (jstr (obj_value policyObject ''contentSha256'')) in
          if versioned \<and> (declaredHash = [] \<or> declaredHash \<noteq> contentHash)
          then Inl ''policy content digest mismatch'' else
          let revision = (if versioned then decimal_int revisionNumber else contentHash);
              issuedValue = firstValue policyObject payload [''issuedAt'', ''issued_at'', ''issued'', ''generatedAt''];
              expiresValue = firstValue policyObject payload [''expiresAt'', ''expires_at'', ''expires''];
              issuedAt = dateTimeFromJson Q issuedValue;
              expiresAt = dateTimeFromJson Q expiresValue;
              utcNow = (case now of Some t \<Rightarrow> Some t | None \<Rightarrow> Some clock) in
          (case lifecycleError versioned issuedValue expiresValue issuedAt expiresAt utcNow of
             Some e \<Rightarrow> Inl e
           | None \<Rightarrow>
               let metadata = defaultMetadata\<lparr>pm_revision := revision, pm_revisionNumber := revisionNumber,
                     pm_versioned := versioned, pm_contentHash := contentHash,
                     pm_declaredContentHash := contentHash, pm_issuedAt := issuedAt, pm_expiresAt := expiresAt\<rparr> in
               (case (case current of None \<Rightarrow> Inr None | Some c \<Rightarrow> compareWithCurrent c metadata) of
                  Inl e \<Rightarrow> Inl e
                | Inr acceptedAt \<Rightarrow>
                    Inr (metadata\<lparr>pm_acceptedAt := (if dt_valid acceptedAt then acceptedAt else utcNow)\<rparr>))))"

section \<open>The site budget\<close>

text \<open>What a site costs: its fallback routes and one reserved route.\<close>

definition siteCost :: "qt \<Rightarrow> json \<Rightarrow> nat" where
  "siteCost Q v = Suc (length (fst (validatedManagedRouteTokens Q (jstr v))))"

definition siteOk :: "qt \<Rightarrow> string \<Rightarrow> json \<Rightarrow> bool" where
  "siteOk Q k v \<longleftrightarrow>
     (\<exists>routes. v = JString (join '', '' routes)
        \<and> validatedManagedRouteTokens Q (join '', '' routes) = (routes, True)
        \<and> (canonicalManagedIpv4Route Q k \<noteq> [] \<longrightarrow> canonicalManagedIpv4Route Q k = k \<and> routes = []))
     \<and> isAllowedManagedSiteKey Q k \<and> q_toLower Q (trimmed Q k) = k"

definition sitesCost :: "qt \<Rightarrow> jobject \<Rightarrow> nat" where
  "sitesCost Q sites = sum_list (map (\<lambda>(k, v). siteCost Q v) sites)"

definition siteLoopInv :: "qt \<Rightarrow> SiteLoop \<Rightarrow> bool" where
  "siteLoopInv Q st \<longleftrightarrow>
     (qt_policy_ok Q \<longrightarrow>
        wf_obj (sl_sites st) \<and> sitesCost Q (sl_sites st) \<le> sl_totalRouteBudget st
        \<and> sitesCost Q (sl_sites st) \<le> maximumTotalRouteCount
        \<and> (\<forall>(k, v) \<in> set (sl_sites st). siteOk Q k v))"

lemma sum_obj_put:
  "map_of ob k = None \<Longrightarrow> sum_list (map f (obj_put k v ob)) = (f (k, v) :: nat) + sum_list (map f ob)"
  by (induction k v ob rule: obj_put.induct) (auto split: if_splits)

lemma sitesCost_insert:
  assumes "obj_value sites k = JUndefined" "wf_obj sites" "v \<noteq> JUndefined"
  shows "sitesCost Q (obj_insert k v sites) = siteCost Q v + sitesCost Q sites"
proof -
  have "map_of sites k = None"
  proof (cases "map_of sites k")
    case (Some w)
    then have "w \<in> snd ` set sites" by (force dest: map_of_SomeD)
    with assms Some show ?thesis by (auto simp: wf_obj_def obj_value_def)
  qed
  with assms(3) show ?thesis by (simp add: sitesCost_def obj_insert_def sum_obj_put)
qed

lemma canonical_key:
  assumes "qt_policy_ok Q" "canonicalManagedIpv4Route Q v \<noteq> []"
  defines "k \<equiv> canonicalManagedIpv4Route Q v"
  shows "q_toLower Q (trimmed Q k) = k" "isAllowedManagedSiteKey Q k"
proof -
  have ok: "qt_routes_ok Q" using assms(1) by (simp add: qt_policy_ok_def)
  obtain a p where k: "k = routeText Q a p" and p: "p \<le> 32"
    using assms(2) unfolding k_def by (cases Q v rule: canonical_cases) auto
  have "is_plain c" if "c \<in> set k" for c
    using that k decimal_digits [of p] host_text_facts(4) [OF ok, of c a]
    by (auto simp: routeText_def Let_def is_plain_def is_dotted_def split: if_splits)
  then have "list_all is_plain k" by (simp add: list_all_iff)
  then show fold: "q_toLower Q (trimmed Q k) = k" by (rule plain_fold [OF assms(1)])
  have "CHR ''/'' \<in> set k \<or> q_parseHost Q k \<noteq> QHostNull"
    using k host_text_facts(1) [OF ok, of a] by (simp add: routeText_def Let_def)
  moreover have "isAllowedManagedIpv4Route Q k"
    using canonical_fixed [OF ok assms(2)] assms(2) canonical_Nil_iff [OF ok, of k] by (simp add: k_def)
  moreover have "k \<noteq> []" "length k \<le> maximumSiteKeyLength"
    using assms(2) canonical_length [OF ok, of v] by (simp_all add: k_def maximumSiteKeyLength_def)
  ultimately show "isAllowedManagedSiteKey Q k"
    by (simp add: isAllowedManagedSiteKey_def fold Let_def)
qed

text \<open>The four ways an insertion can end.\<close>

lemma insertSite_cases:
  assumes "qt_policy_ok Q"
  obtains (invalid) "insertSite Q st r w = st\<lparr>sl_isValid := False\<rparr>"
  | (repeated) "insertSite Q st r w = st"
  | (over) b where "insertSite Q st r w = st\<lparr>sl_totalRouteBudget := b, sl_isValid := False\<rparr>"
      "sl_totalRouteBudget st \<le> b"
  | (new) k routes where
      "insertSite Q st r w = st\<lparr>sl_totalRouteBudget := sl_totalRouteBudget st + length routes + 1,
         sl_sites := obj_insert k (JString (join '', '' routes)) (sl_sites st)\<rparr>"
      "sl_totalRouteBudget st + length routes + 1 \<le> maximumTotalRouteCount"
      "obj_value (sl_sites st) k = JUndefined"
      "siteOk Q k (JString (join '', '' routes))"
      "validatedManagedRouteTokens Q (join '', '' routes) = (routes, True)"
proof -
  have ok: "qt_routes_ok Q" using assms by (simp add: qt_policy_ok_def)
  define site where "site = q_toLower Q (trimmed Q r)"
  define direct where "direct = canonicalManagedIpv4Route Q site"
  define k where "k = (if direct \<noteq> [] then direct else site)"
  obtain routes rv where rts: "validatedManagedRouteTokens Q (jstr w) = (routes, rv)" by (cases "validatedManagedRouteTokens Q (jstr w)")
  let ?v = "JString (join '', '' routes)"
  consider (a) "\<not> is_string w \<or> \<not> isAllowedManagedSiteKey Q site \<or> \<not> rv \<or> (direct \<noteq> [] \<and> routes \<noteq> [])"
    | (b) "is_string w" "isAllowedManagedSiteKey Q site" "rv" "direct = [] \<or> routes = []" by blast
  then show thesis
  proof cases
    case a
    then have "insertSite Q st r w = st\<lparr>sl_isValid := False\<rparr>"
      using rts by (simp add: insertSite_def Let_def flip: site_def direct_def)
    then show thesis by (rule invalid)
  next
    case b
    have eq: "insertSite Q st r w =
       (let previous = obj_value (sl_sites st) k in
        if previous \<noteq> JUndefined then (if previous \<noteq> ?v then st\<lparr>sl_isValid := False\<rparr> else st)
        else let budget = sl_totalRouteBudget st + length routes + 1; st = st\<lparr>sl_totalRouteBudget := budget\<rparr> in
          if budget > maximumTotalRouteCount then st\<lparr>sl_isValid := False\<rparr>
          else st\<lparr>sl_sites := obj_insert k ?v (sl_sites st)\<rparr>)"
      using b rts by (cases "direct = []") (simp_all add: insertSite_def k_def Let_def flip: site_def direct_def)
    have again: "validatedManagedRouteTokens Q (join '', '' routes) = (routes, True)"
      using tokens_rejoined [OF ok, of "jstr w" routes] rts b(3) by simp
    have fold: "q_toLower Q (trimmed Q site) = site"
      using assms by (simp add: qt_policy_ok_def site_def)
    have sok: "siteOk Q k ?v"
      using again b fold canonical_fixed [OF ok, of site] canonical_key [OF assms, of site]
      by (auto simp: siteOk_def k_def direct_def)
    show thesis
    proof (cases "obj_value (sl_sites st) k = JUndefined")
      case False
      then show thesis using eq invalid repeated by (auto simp: Let_def split: if_splits)
    next
      case True
      then show thesis
        using eq over [of "sl_totalRouteBudget st + length routes + 1"] new [of k routes] sok again
        by (auto simp: Let_def split: if_splits)
    qed
  qed
qed


lemma insertSite_inv: "siteLoopInv Q st \<Longrightarrow> siteLoopInv Q (insertSite Q st r w)"
proof (cases "qt_policy_ok Q")
  case ok: True
  assume inv: "siteLoopInv Q st"
  from ok show ?thesis
  proof (cases rule: insertSite_cases [of Q st r w])
    case (new k routes)
    have cost: "siteCost Q (JString (join '', '' routes)) = length routes + 1"
      using new(5) by (simp add: siteCost_def)
    have "sitesCost Q (obj_insert k (JString (join '', '' routes)) (sl_sites st))
        = siteCost Q (JString (join '', '' routes)) + sitesCost Q (sl_sites st)"
      using inv ok new(3) by (intro sitesCost_insert) (auto simp: siteLoopInv_def)
    moreover have "set (obj_insert k (JString (join '', '' routes)) (sl_sites st))
        \<subseteq> insert (k, JString (join '', '' routes)) (set (sl_sites st))"
      by (simp add: obj_insert_def set_obj_put)
    ultimately show ?thesis
      using inv ok new(1,2,4) cost by (auto simp: siteLoopInv_def wf_obj_insert)
  qed (use inv ok in \<open>auto simp: siteLoopInv_def\<close>)
qed (simp add: siteLoopInv_def)

lemma insertItem_inv: "siteLoopInv Q st \<Longrightarrow> siteLoopInv Q (insertItem Q st item)"
  using insertSite_inv [of Q st] by (cases "is_object item") (simp_all add: insertItem_def siteLoopInv_def)

definition siteStep :: "qt \<Rightarrow> SiteLoop \<Rightarrow> string \<times> json \<Rightarrow> SiteLoop \<times> unit" where
  "siteStep Q st kv = (insertSite Q st (fst kv) (snd kv), ())"

definition itemStep :: "qt \<Rightarrow> SiteLoop \<Rightarrow> json \<Rightarrow> SiteLoop \<times> unit" where
  "itemStep Q st item = (insertItem Q st item, ())"

interpretation site_loop: invariant_machine "siteStep Q" "siteLoopInv Q" for Q
  by unfold_locales (simp add: siteStep_def insertSite_inv)

interpretation item_loop: invariant_machine "itemStep Q" "siteLoopInv Q" for Q
  by unfold_locales (simp add: itemStep_def insertItem_inv)

lemma foldl_run: "foldl (\<lambda>s e. fst (step s e)) s es = run step s es"
  by (induction es arbitrary: s) auto

lemma canonicalSourceSites_run:
  "canonicalSourceSites Q v =
     (let st0 = \<lambda>n. \<lparr> sl_sites = [], sl_isValid = (n \<le> maximumSiteCount), sl_totalRouteBudget = 0 \<rparr>;
          st = (case v of JObject ob \<Rightarrow> run (siteStep Q) (st0 (length ob)) ob
                | JArray items \<Rightarrow> run (itemStep Q) (st0 (length items)) items
                | _ \<Rightarrow> (st0 0)\<lparr>sl_isValid := False\<rparr>)
      in (sl_sites st, sl_isValid st))"
proof -
  have "(\<lambda>st (k, w). insertSite Q st k w) = (\<lambda>st e. fst (siteStep Q st e))"
    "insertItem Q = (\<lambda>st e. fst (itemStep Q st e))"
    by (auto simp: siteStep_def itemStep_def fun_eq_iff)
  then show ?thesis
    by (simp add: canonicalSourceSites_def Let_def foldl_run split: json.splits)
qed

lemma siteLoopInv_init: "siteLoopInv Q \<lparr> sl_sites = [], sl_isValid = b, sl_totalRouteBudget = 0 \<rparr>"
  by (simp add: siteLoopInv_def sitesCost_def)

lemma canonicalSourceSites_inv:
  "qt_policy_ok Q \<Longrightarrow> canonicalSourceSites Q v = (sites, valid) \<Longrightarrow>
   wf_obj sites \<and> sitesCost Q sites \<le> maximumTotalRouteCount \<and> (\<forall>(k, v) \<in> set sites. siteOk Q k v)"
proof -
  assume ok: "qt_policy_ok Q" and eq: "canonicalSourceSites Q v = (sites, valid)"
  obtain st where "siteLoopInv Q st" "sites = sl_sites st"
  proof (cases v)
    case (JObject ob)
    then show ?thesis using that eq site_loop.inv_run [OF siteLoopInv_init]
      by (auto simp: canonicalSourceSites_run Let_def)
  next
    case (JArray items)
    then show ?thesis using that eq item_loop.inv_run [OF siteLoopInv_init]
      by (auto simp: canonicalSourceSites_run Let_def)
  qed (use that eq siteLoopInv_init [of Q False] in \<open>auto simp: canonicalSourceSites_run Let_def\<close>)
  then show ?thesis using ok by (simp add: siteLoopInv_def)
qed

lemma length_le_sitesCost: "length sites \<le> sitesCost Q sites"
  by (induction sites) (auto simp: sitesCost_def siteCost_def)

text \<open>
  \<^bold>\<open>C16.\<close> Whatever the input, the canonical source rules are an object in key order whose sites
  and reserved routes together stay within the budget of 4096. Every key is an allowed host name
  or a canonical route with no fallback, and every value is the canonical text of a valid
  route list.
\<close>

theorem canonicalSourceSites_bounded:
  assumes "qt_policy_ok Q" "canonicalSourceSites Q v = (sites, valid)"
  shows "wf_obj sites \<and> length sites \<le> sitesCost Q sites \<and> sitesCost Q sites \<le> 4096
    \<and> (\<forall>(k, w) \<in> set sites. siteOk Q k w)"
  using canonicalSourceSites_inv [OF assms] length_le_sitesCost [of sites Q]
  by (simp add: maximumTotalRouteCount_def)

lemma insertSite_ok:
  assumes "siteOk Q k v" "obj_value (sl_sites st) k = JUndefined"
    "sl_totalRouteBudget st + siteCost Q v \<le> maximumTotalRouteCount"
  shows "insertSite Q st k v =
    st\<lparr>sl_totalRouteBudget := sl_totalRouteBudget st + siteCost Q v, sl_sites := obj_insert k v (sl_sites st)\<rparr>"
proof -
  obtain routes where v: "v = JString (join '', '' routes)"
    "validatedManagedRouteTokens Q (join '', '' routes) = (routes, True)"
    "canonicalManagedIpv4Route Q k \<noteq> [] \<longrightarrow> canonicalManagedIpv4Route Q k = k \<and> routes = []"
    and k: "isAllowedManagedSiteKey Q k" "q_toLower Q (trimmed Q k) = k"
    using assms(1) by (auto simp: siteOk_def)
  have cost: "siteCost Q v = length routes + 1" using v by (simp add: siteCost_def)
  show ?thesis
    using assms(2,3) v k cost by (cases "canonicalManagedIpv4Route Q k = []") (auto simp: insertSite_def Let_def)
qed

lemma obj_insert_last:
  assumes wf: "wf_obj (pre @ [(k, v)])"
  shows "obj_insert k v pre = pre @ [(k, v)]" "obj_value pre k = JUndefined"
proof -
  have lt: "\<forall>x \<in> fst ` set pre. x < k" using wf by (auto simp: wf_obj_def sorted_wrt_append)
  then have "obj_put k v pre = pre @ [(k, v)]"
  proof (induction pre)
    case (Cons xw pre)
    then show ?case by (cases xw) auto
  qed simp
  then show "obj_insert k v pre = pre @ [(k, v)]" using wf by (simp add: obj_insert_def wf_obj_def)
  have "map_of pre k = None" using lt by (auto simp: map_of_eq_None_iff)
  then show "obj_value pre k = JUndefined" by (simp add: obj_value_def)
qed

lemma run_canonical:
  "\<lbrakk>wf_obj (pre @ suf); \<forall>(k, v) \<in> set suf. siteOk Q k v; sl_sites st = pre;
    sl_totalRouteBudget st = sitesCost Q pre; sitesCost Q (pre @ suf) \<le> maximumTotalRouteCount\<rbrakk> \<Longrightarrow>
   sl_sites (run (siteStep Q) st suf) = pre @ suf \<and> sl_isValid (run (siteStep Q) st suf) = sl_isValid st"
proof (induction suf arbitrary: pre st)
  case (Cons kv suf)
  obtain k v where kv: "kv = (k, v)" by (cases kv)
  have "wf_obj (pre @ [(k, v)])" using Cons.prems(1) by (auto simp: kv wf_obj_def sorted_wrt_append)
  note ins = obj_insert_last [OF this]
  have "sitesCost Q pre + siteCost Q v \<le> maximumTotalRouteCount"
    using Cons.prems(5) by (simp add: kv sitesCost_def)
  then have step: "insertSite Q st k v = st\<lparr>sl_totalRouteBudget := sitesCost Q (pre @ [(k, v)]), sl_sites := pre @ [(k, v)]\<rparr>"
    using insertSite_ok [of Q k v st] Cons.prems ins by (simp add: kv sitesCost_def)
  show ?case
    using Cons.IH [of "pre @ [(k, v)]" "insertSite Q st k v"] Cons.prems
    by (simp add: kv step siteStep_def)
qed simp

lemma canonicalSourceSites_fixed:
  assumes "qt_policy_ok Q" "canonicalSourceSites Q v = (sites, valid)"
  shows "canonicalSourceSites Q (JObject sites) = (sites, True)"
proof -
  note inv = canonicalSourceSites_inv [OF assms]
  then have "length sites \<le> maximumSiteCount"
    using length_le_sitesCost [of sites Q] by (simp add: maximumTotalRouteCount_def maximumSiteCount_def)
  then show ?thesis
    using run_canonical [of "[]" sites Q "\<lparr> sl_sites = [], sl_isValid = True, sl_totalRouteBudget = 0 \<rparr>"] inv
    by (simp add: canonicalSourceSites_run sitesCost_def)
qed

text \<open>
  \<^bold>\<open>C28.\<close> Canonicalisation is idempotent: the canonical rules of a policy are accepted again and
  are their own canonical form, so the content digest of a stored policy is stable.
\<close>

theorem canonicalSourceSites_idempotent:
  assumes "qt_policy_ok Q" "canonicalSourceSites Q v = (sites, valid)"
  shows "canonicalSourceSites Q (JObject sites) = (sites, True)"
  by (rule canonicalSourceSites_fixed [OF assms])

lemma ref_site:
  "canonicalSourceSites (qt_ref_with rd) (JArray [JObject [(''hostname'', JString '' 10.0.0.0/8''), (''ip'', JString [])]])
     = ([(''10.0.0.0/8'', JString [])], True)"
proof -
  have trim: "trimmed (qt_ref_with rd) '' 10.0.0.0/8'' = ''10.0.0.0/8''"
    by (simp add: trimmed_def trim_where_def ascii_space_def)
  have key: "q_toLower (qt_ref_with rd) (trimmed (qt_ref_with rd) ''10.0.0.0/8'') = ''10.0.0.0/8''" "isAllowedManagedSiteKey (qt_ref_with rd) ''10.0.0.0/8''"
    using canonical_key [OF qt_ref_policy, of _ "''10.0.0.0/8''"] by (simp_all add: ref_canonical)
  have "q_toLower (qt_ref_with rd) ''10.0.0.0/8'' = ''10.0.0.0/8''" by (simp add: ascii_lower_def char_le_of_char)
  then show ?thesis
    using key trim
    by (simp add: canonicalSourceSites_def insertItem_def insertSite_def siteOfItem_def obj_value_def Let_def
        ref_canonical tokens_unfold tokens_where_def collected_def obj_insert_def
        maximumSiteCount_def maximumTotalRouteCount_def del: qt_ref_services)
qed

theorem canonicalSourceSites_bounded_witness:
  "sitesCost qt_ref [(''10.0.0.0/8'', JString [])] \<le> 4096 \<and> siteOk qt_ref ''10.0.0.0/8'' (JString [])"
  using canonicalSourceSites_bounded [OF qt_ref_policy ref_site] by simp

theorem canonicalSourceSites_idempotent_witness:
  "canonicalSourceSites qt_ref (JObject [(''10.0.0.0/8'', JString [])]) = ([(''10.0.0.0/8'', JString [])], True)"
  by (rule canonicalSourceSites_idempotent [OF qt_ref_policy ref_site])

end
