(* ===== verification/Policy_Lifecycle.thy ===== *)
theory Policy_Lifecycle
  imports Managed_Policy
begin

text \<open>
  Correctness of the policy lifecycle: what admission guarantees, histories of admissions, the
  stored record and its round trip, and when a stored policy is effective. The last section
  builds concrete policies on which the theorems are exercised.
\<close>

section \<open>Admission\<close>

text \<open>What an admitted candidate is made of.\<close>

lemma validateCandidate_Inr:
  assumes "validateCandidate Q payload current now clock = Inr m"
  obtains content n t issuedValue expiresValue accepted where
    "canonicalSourcePolicyContent Q payload = (content, True)"
    "pm_versioned m = obj_contains payload ''policy''"
    "if pm_versioned m
     then declaredPolicy Q (to_object (obj_value payload ''policy'')) content = Inr (n, content)
       \<and> normalizedSha256 Q (jstr (obj_value (to_object (obj_value payload ''policy'')) ''contentSha256'')) = derivedRevision Q content
     else n = -1"
    "t = (case now of Some u \<Rightarrow> u | None \<Rightarrow> clock)"
    "lifecycleError (pm_versioned m) issuedValue expiresValue (pm_issuedAt m) (pm_expiresAt m) (Some t) = None"
    "m = defaultMetadata\<lparr>pm_revision := (if pm_versioned m then decimal_int n else derivedRevision Q content),
       pm_revisionNumber := n, pm_versioned := pm_versioned m, pm_contentHash := derivedRevision Q content,
       pm_declaredContentHash := derivedRevision Q content, pm_issuedAt := pm_issuedAt m,
       pm_expiresAt := pm_expiresAt m, pm_acceptedAt := pm_acceptedAt m\<rparr>"
    "case current of None \<Rightarrow> accepted = None
     | Some c \<Rightarrow> compareWithCurrent c (m\<lparr>pm_acceptedAt := None\<rparr>) = Inr accepted"
    "pm_acceptedAt m = (if dt_valid accepted then accepted else Some t)"
proof -
  let ?v = "obj_contains payload ''policy''"
  let ?po = "to_object (obj_value payload ''policy'')"
  obtain content cv where content: "canonicalSourcePolicyContent Q payload = (content, cv)"
    by (cases "canonicalSourcePolicyContent Q payload")
  let ?declared = "if ?v then declaredPolicy Q ?po content else Inr (-1, content)"
  have cv and "\<not> isl ?declared"
    using assms content by (auto simp: validateCandidate_def Let_def split: if_splits sum.splits)
  then obtain n dc where declared: "?declared = Inr (n, dc)" by (cases ?declared) auto
  then have dc: "dc = content"
    by (auto simp: declaredPolicy_def Let_def split: if_splits option.splits prod.splits)
  define t where "t = (case now of Some u \<Rightarrow> u | None \<Rightarrow> clock)"
  define iv where "iv = firstValue ?po payload [''issuedAt'', ''issued_at'', ''issued'', ''generatedAt'']"
  define ev where "ev = firstValue ?po payload [''expiresAt'', ''expires_at'', ''expires'']"
  define m0 where "m0 = defaultMetadata\<lparr>pm_revision := (if ?v then decimal_int n else derivedRevision Q content),
    pm_revisionNumber := n, pm_versioned := ?v, pm_contentHash := derivedRevision Q content,
    pm_declaredContentHash := derivedRevision Q content, pm_issuedAt := dateTimeFromJson Q iv,
    pm_expiresAt := dateTimeFromJson Q ev\<rparr>"
  have t: "(case now of Some u \<Rightarrow> Some u | None \<Rightarrow> Some clock) = Some t"
    by (simp add: t_def split: option.splits)
  obtain acc where
    digest: "?v \<longrightarrow> normalizedSha256 Q (jstr (obj_value ?po ''contentSha256'')) = derivedRevision Q content"
    and life: "lifecycleError ?v iv ev (dateTimeFromJson Q iv) (dateTimeFromJson Q ev) (Some t) = None"
    and cmp: "(case current of None \<Rightarrow> Inr None | Some c \<Rightarrow> compareWithCurrent c m0) = Inr acc"
    and m: "m = m0\<lparr>pm_acceptedAt := (if dt_valid acc then acc else Some t)\<rparr>"
    using assms \<open>cv\<close> unfolding validateCandidate_def Let_def content prod.case declared dc sum.case t
      iv_def [symmetric] ev_def [symmetric] m0_def [symmetric]
    by (simp split: if_split_asm option.split_asm sum.split_asm)
  have reset: "m\<lparr>pm_acceptedAt := None\<rparr> = m0" by (simp add: m m0_def defaultMetadata_def)
  show thesis
  proof (rule that [of content n t iv ev acc])
    show "canonicalSourcePolicyContent Q payload = (content, True)" using content \<open>cv\<close> by simp
    show "t = (case now of Some u \<Rightarrow> u | None \<Rightarrow> clock)" by (rule t_def)
    show "lifecycleError (pm_versioned m) iv ev (pm_issuedAt m) (pm_expiresAt m) (Some t) = None"
      using life by (simp add: m m0_def)
    show "case current of None \<Rightarrow> acc = None
        | Some c \<Rightarrow> compareWithCurrent c (m\<lparr>pm_acceptedAt := None\<rparr>) = Inr acc"
      using cmp reset by (simp split: option.splits)
  qed (use digest declared in \<open>simp_all add: m m0_def dc split: if_splits\<close>)
qed

lemma canonicalRevisionNumber_range:
  "canonicalRevisionNumber v = Some n \<Longrightarrow> 1 \<le> n \<and> n \<le> maxExactJsonInteger"
proof -
  assume a: "canonicalRevisionNumber v = Some n"
  then obtain r where v: "v = JDouble (Finite r)" and b: "\<not> r < 1" "\<not> of_int maxExactJsonInteger < r"
    "n = \<lfloor>r\<rfloor>"
    by (auto simp: canonicalRevisionNumber_def dbl_int_def split: json.splits if_splits elim!: dbl_isfinite.elims)
  then show ?thesis by (simp add: le_floor_iff floor_le_iff)
qed

lemma declaredPolicy_revision:
  "declaredPolicy Q po content = Inr (n, dc) \<Longrightarrow> 1 \<le> n \<and> n \<le> maxExactJsonInteger"
  by (auto simp: declaredPolicy_def Let_def canonicalRevisionNumber_range split: option.splits if_splits prod.splits)

lemma derivedRevision_not_Nil [simp]: "derivedRevision Q ob \<noteq> []"
  by (simp add: derivedRevision_def)

lemma lifecycle_ok:
  "lifecycleError ver iv ev i e (Some t) = None \<Longrightarrow>
   (ver \<longrightarrow> i \<noteq> None \<and> e \<noteq> None)
   \<and> (\<forall>x. i = Some x \<longrightarrow> x \<le> t + 600000) \<and> (\<forall>y. e = Some y \<longrightarrow> t < y)
   \<and> (\<forall>x y. i = Some x \<and> e = Some y \<longrightarrow> x < y)"
  by (auto simp: lifecycleError_def dt_defs split: if_splits)

lemma no_rollback:
  assumes "validateCandidate Q payload (Some c) now clock = Inr m" "pm_versioned c"
  shows "pm_versioned m \<and> 1 \<le> pm_revisionNumber c \<and> pm_revisionNumber c \<le> pm_revisionNumber m
    \<and> (if pm_revisionNumber m = pm_revisionNumber c
       then (pm_declaredContentHash c = [] \<or> pm_declaredContentHash m = pm_declaredContentHash c)
         \<and> (pm_issuedAt c = None \<or> pm_issuedAt m = pm_issuedAt c)
         \<and> (pm_expiresAt c = None \<or> pm_expiresAt m = pm_expiresAt c)
       else \<not> dt_less (pm_issuedAt m) (pm_issuedAt c))"
proof -
  from assms(1) obtain acc where "compareWithCurrent c (m\<lparr>pm_acceptedAt := None\<rparr>) = Inr acc"
    by (rule validateCandidate_Inr) auto
  with assms(2) show ?thesis
    by (auto simp: compareWithCurrent_def Let_def dt_defs split: if_splits option.splits)
qed

text \<open>
  \<^bold>\<open>C17.\<close> A candidate that replaces a versioned policy is versioned and not older: its revision is
  at least the current one, an equal revision carries the same content digest and the same issue
  and expiry times, and a newer revision was not issued before the current policy.
\<close>

theorem validateCandidate_no_rollback:
  assumes "validateCandidate Q payload (Some c) now clock = Inr m" "pm_versioned c"
  shows "pm_versioned m \<and> 1 \<le> pm_revisionNumber c \<and> pm_revisionNumber c \<le> pm_revisionNumber m
    \<and> (if pm_revisionNumber m = pm_revisionNumber c
       then (pm_declaredContentHash c = [] \<or> pm_declaredContentHash m = pm_declaredContentHash c)
         \<and> (pm_issuedAt c = None \<or> pm_issuedAt m = pm_issuedAt c)
         \<and> (pm_expiresAt c = None \<or> pm_expiresAt m = pm_expiresAt c)
       else \<not> dt_less (pm_issuedAt m) (pm_issuedAt c))"
  by (rule no_rollback [OF assms])

lemma admitted_facts:
  assumes "validateCandidate Q payload current now clock = Inr m"
  shows "canonicalSourcePolicyHash Q payload = (pm_contentHash m, True)
    \<and> pm_declaredContentHash m = pm_contentHash m
    \<and> (if pm_versioned m
       then 1 \<le> pm_revisionNumber m \<and> pm_revisionNumber m \<le> maxExactJsonInteger
         \<and> pm_revision m = decimal_int (pm_revisionNumber m)
         \<and> (\<exists>i e. pm_issuedAt m = Some i \<and> pm_expiresAt m = Some e \<and> i < e
              \<and> i \<le> (case now of Some u \<Rightarrow> u | None \<Rightarrow> clock) + 600000)
       else pm_revision m = pm_contentHash m)
    \<and> \<not> isExpired m (Some (case now of Some u \<Rightarrow> u | None \<Rightarrow> clock))
    \<and> pm_acceptedAt m \<noteq> None \<and> pm_trustState m = ''unsigned''"
  using assms
proof (rule validateCandidate_Inr)
  fix content n t iv ev acc
  assume content: "canonicalSourcePolicyContent Q payload = (content, True)"
    and declared: "if pm_versioned m
       then declaredPolicy Q (to_object (obj_value payload ''policy'')) content = Inr (n, content)
         \<and> normalizedSha256 Q (jstr (obj_value (to_object (obj_value payload ''policy'')) ''contentSha256'')) = derivedRevision Q content
       else n = -1"
    and t: "t = (case now of Some u \<Rightarrow> u | None \<Rightarrow> clock)"
    and life: "lifecycleError (pm_versioned m) iv ev (pm_issuedAt m) (pm_expiresAt m) (Some t) = None"
    and m: "m = defaultMetadata\<lparr>pm_revision := (if pm_versioned m then decimal_int n else derivedRevision Q content),
       pm_revisionNumber := n, pm_versioned := pm_versioned m, pm_contentHash := derivedRevision Q content,
       pm_declaredContentHash := derivedRevision Q content, pm_issuedAt := pm_issuedAt m,
       pm_expiresAt := pm_expiresAt m, pm_acceptedAt := pm_acceptedAt m\<rparr>"
    and acc: "pm_acceptedAt m = (if dt_valid acc then acc else Some t)"
  have f: "pm_revision m = (if pm_versioned m then decimal_int n else derivedRevision Q content)"
    "pm_revisionNumber m = n" "pm_contentHash m = derivedRevision Q content"
    "pm_declaredContentHash m = derivedRevision Q content" "pm_trustState m = ''unsigned''"
    by (subst m, simp add: defaultMetadata_def)+
  have hash: "canonicalSourcePolicyHash Q payload = (derivedRevision Q content, True)"
    using content by (simp add: canonicalSourcePolicyHash_def derivedRevision_def)
  have "pm_acceptedAt m \<noteq> None" using acc by (auto simp: dt_defs)
  moreover have "\<not> isExpired m (Some t)"
    using lifecycle_ok [OF life] by (auto simp: isExpired_def dt_defs split: option.splits)
  moreover have "1 \<le> n \<and> n \<le> maxExactJsonInteger" if "pm_versioned m"
    using declared that declaredPolicy_revision by auto
  ultimately show ?thesis
    using lifecycle_ok [OF life] f hash by (auto simp flip: t)
qed

text \<open>
  \<^bold>\<open>C18.\<close> An admitted policy is bound to its content and its time: the recorded digest is the digest
  of the canonical source rules of the payload, a versioned policy has an exact positive revision
  and an issue time before its expiry, is not from more than ten minutes ahead, and is not
  expired when it is accepted; an unversioned one is identified by its digest.
\<close>

theorem validateCandidate_sound:
  assumes "validateCandidate Q payload current now clock = Inr m"
  shows "canonicalSourcePolicyHash Q payload = (pm_contentHash m, True)
    \<and> pm_declaredContentHash m = pm_contentHash m
    \<and> (if pm_versioned m
       then 1 \<le> pm_revisionNumber m \<and> pm_revisionNumber m \<le> maxExactJsonInteger
         \<and> pm_revision m = decimal_int (pm_revisionNumber m)
         \<and> (\<exists>i e. pm_issuedAt m = Some i \<and> pm_expiresAt m = Some e \<and> i < e
              \<and> i \<le> (case now of Some u \<Rightarrow> u | None \<Rightarrow> clock) + 600000)
       else pm_revision m = pm_contentHash m)
    \<and> \<not> isExpired m (Some (case now of Some u \<Rightarrow> u | None \<Rightarrow> clock))
    \<and> pm_acceptedAt m \<noteq> None \<and> pm_trustState m = ''unsigned''"
  by (rule admitted_facts [OF assms])

section \<open>Histories of admissions\<close>

text \<open>
  The stored policy under a sequence of downloads: each candidate is validated against the policy
  in force and replaces it when it is admitted.
\<close>

type_synonym candidate = "jobject \<times> qdatetime \<times> int"

definition policyStep ::
  "qt \<Rightarrow> ManagedRoutePolicyMetadata option \<Rightarrow> candidate \<Rightarrow> ManagedRoutePolicyMetadata option \<times> string option" where
  "policyStep Q current cand =
     (case validateCandidate Q (fst cand) current (fst (snd cand)) (snd (snd cand)) of
        Inl e \<Rightarrow> (current, Some e)
      | Inr m \<Rightarrow> (Some m, None))"

definition policyInv :: "ManagedRoutePolicyMetadata option \<Rightarrow> bool" where
  "policyInv st \<longleftrightarrow> (case st of None \<Rightarrow> True | Some m \<Rightarrow> pm_versioned m \<longrightarrow> 1 \<le> pm_revisionNumber m)"

definition policyLevel :: "ManagedRoutePolicyMetadata option \<Rightarrow> int" where
  "policyLevel st = (case st of None \<Rightarrow> 0 | Some m \<Rightarrow> if pm_versioned m then pm_revisionNumber m else 0)"

lemma policyStep_Inr:
  "policyStep Q st cand = (st', None) \<Longrightarrow>
   \<exists>m. st' = Some m \<and> validateCandidate Q (fst cand) st (fst (snd cand)) (snd (snd cand)) = Inr m"
  by (auto simp: policyStep_def split: sum.splits)

lemma admitted_revision:
  "validateCandidate Q payload current now clock = Inr m \<Longrightarrow> pm_versioned m \<Longrightarrow> 1 \<le> pm_revisionNumber m"
  using admitted_facts [of Q payload current now clock m] by simp

lemma policyInv_step: "policyInv st \<Longrightarrow> policyInv (fst (policyStep Q st cand))"
  using admitted_revision by (auto simp: policyStep_def policyInv_def split: sum.splits)

lemma policyLevel_step: "policyInv st \<Longrightarrow> policyLevel st \<le> policyLevel (fst (policyStep Q st cand))"
proof (cases "validateCandidate Q (fst cand) st (fst (snd cand)) (snd (snd cand))")
  case (Inr m)
  have "0 \<le> policyLevel (Some m)" using admitted_revision [OF Inr] by (auto simp: policyLevel_def)
  moreover have "policyLevel st \<le> policyLevel (Some m)" if "st = Some c" "pm_versioned c" for c
    using no_rollback [of Q "fst cand" c] Inr that by (auto simp: policyLevel_def)
  ultimately show ?thesis
    using Inr by (cases st) (auto simp: policyStep_def policyLevel_def)
qed (simp add: policyStep_def)

interpretation policy_history: monotone_machine "policyStep Q" policyInv policyLevel for Q
  by unfold_locales (simp_all add: policyInv_step policyLevel_step)


section \<open>Persistence\<close>

lemma hex_is_plain: "list_all is_plain (''sha256:'' @ to_hex bs)"
proof -
  have "list_all is_plain (to_hex bs)"
    using to_hex_digits [of bs] by (auto simp: list_all_iff is_lower_hex_plain)
  then show ?thesis by (simp add: is_plain_def is_dotted_def is_ascii_digit_def char_le_of_char)
qed

lemma normalized_digest:
  assumes "qt_policy_ok Q" "qt_digest_ok Q"
  shows "normalizedSha256 Q (derivedRevision Q ob) = derivedRevision Q ob"
proof -
  have fold: "q_toLower Q (trimmed Q (derivedRevision Q ob)) = derivedRevision Q ob"
    unfolding derivedRevision_def by (rule plain_fold [OF assms(1) hex_is_plain])
  have "q_isDigit Q c \<or> (CHR ''a'' \<le> c \<and> c \<le> CHR ''f'')" if "c \<in> set (to_hex (q_sha256 Q x))" for c x
    using to_hex_digits [of "q_sha256 Q x"] that assms(1)
    by (auto simp: is_lower_hex_def qt_policy_ok_def qt_routes_ok_def qt_decimal_ok_def)
  then have "\<not> list_ex (\<lambda>c. \<not> q_isDigit Q c \<and> (c < CHR ''a'' \<or> c > CHR ''f'')) (drop 7 (derivedRevision Q ob))"
    by (auto simp: derivedRevision_def list_ex_iff not_less)
  moreover have "length (derivedRevision Q ob) = 71"
    using assms(2) by (simp add: derivedRevision_def qt_digest_ok_def)
  ultimately show ?thesis
    by (simp add: normalizedSha256_def fold Let_def) (simp add: derivedRevision_def starts_with_def)
qed

lemma stored_decimal:
  assumes "qt_policy_ok Q" "1 \<le> n" "n \<le> maxExactJsonInteger"
  shows "storedCanonicalRevisionNumber Q (decimal_int n) = Some n" "trimmed Q (decimal_int n) = decimal_int n"
    "decimal_int n \<noteq> []"
proof -
  have ok: "qt_routes_ok Q" using assms(1) by (simp add: qt_policy_ok_def)
  have d: "decimal_int n = decimal (nat n)" using assms(2) by (simp add: decimal_int_def)
  have digits: "is_ascii_digit c" if "c \<in> set (decimal (nat n))" for c using that decimal_digits by blast
  show t: "trimmed Q (decimal_int n) = decimal_int n"
    using digits by (intro space_facts(3) [OF ok]) (auto simp: d list_all_iff is_plain_def is_dotted_def)
  show "decimal_int n \<noteq> []" by (simp add: d)
  have "hd (decimal (nat n)) \<noteq> CHR ''0''" using assms(2) by (intro hd_decimal_pos) simp
  moreover have "list_all (q_isDigit Q) (decimal (nat n))"
    using digits ok by (auto simp: list_all_iff qt_routes_ok_def qt_decimal_ok_def)
  moreover have "q_toULongLong Q (decimal (nat n)) = Some n"
    using ok assms(2,3) by (simp add: qt_routes_ok_def qt_decimal_ok_def maxExactJsonInteger_def)
  ultimately show "storedCanonicalRevisionNumber Q (decimal_int n) = Some n"
    using assms(2,3) t unfolding d by (simp add: storedCanonicalRevisionNumber_def Let_def)
qed

lemma date_text: "qt_dates_ok Q \<Longrightarrow> dateTimeFromJson Q (JString (q_isoMs Q t)) = Some t"
  by (simp add: dateTimeFromJson_def qt_dates_ok_def)

lemma date_undefined: "dateTimeFromJson Q JUndefined = None"
  by (simp add: dateTimeFromJson_def)

lemma obj_value_insert_if [simp]: "obj_value (insert_if b k v ob) j = (if j = k \<and> b then v else obj_value ob j)"
  by (simp add: insert_if_def)

definition instant_json :: "qt \<Rightarrow> qdatetime \<Rightarrow> json" where
  "instant_json Q t = (case t of None \<Rightarrow> JUndefined | Some ms \<Rightarrow> JString (q_isoMs Q ms))"

lemma obj_value_insert_instant [simp]:
  "obj_value (insert_instant Q k t ob) j = (if j = k \<and> t \<noteq> None then instant_json Q t else obj_value ob j)"
  by (simp add: insert_instant_def instant_json_def split: option.splits)

lemma instant_json_None [simp]: "instant_json Q None = JUndefined"
  by (simp add: instant_json_def)

lemma date_instant: "qt_dates_ok Q \<Longrightarrow> dateTimeFromJson Q (instant_json Q t) = t"
  by (simp add: instant_json_def date_text date_undefined split: option.splits)

text \<open>Each member of a stored record.\<close>

lemma toJson_values:
  "obj_value (toJson Q m) ''schemaVersion'' = jint (pm_schemaVersion m)"
  "obj_value (toJson Q m) ''policyType'' = JString (if pm_versioned m then ''versioned'' else ''legacy'')"
  "obj_value (toJson Q m) ''revision'' = JString (pm_revision m)"
  "obj_value (toJson Q m) ''revisionNumber'' =
     (if pm_versioned m \<and> pm_revisionNumber m \<ge> 0 then jint (pm_revisionNumber m) else JUndefined)"
  "obj_value (toJson Q m) ''contentHash'' = (if pm_contentHash m = [] then JUndefined else JString (pm_contentHash m))"
  "obj_value (toJson Q m) ''declaredContentHash'' =
     (if pm_declaredContentHash m = [] then JUndefined else JString (pm_declaredContentHash m))"
  "obj_value (toJson Q m) ''contentMatchesDeclaration'' = JBool (pm_contentMatchesDeclaration m)"
  "obj_value (toJson Q m) ''trustState'' =
     JString (if pm_trustState m = [] then ''unsigned'' else pm_trustState m)"
  "obj_value (toJson Q m) ''issuedAt'' = instant_json Q (pm_issuedAt m)"
  "obj_value (toJson Q m) ''expiresAt'' = instant_json Q (pm_expiresAt m)"
  "obj_value (toJson Q m) ''acceptedAt'' = instant_json Q (pm_acceptedAt m)"
  "obj_value (toJson Q m) ''source'' = (if pm_source m = [] then JUndefined else JString (pm_source m))"
  by (simp_all add: toJson_def Let_def)

text \<open>The metadata that survive a stored record: the shape admission produces.\<close>

definition storable :: "qt \<Rightarrow> ManagedRoutePolicyMetadata \<Rightarrow> bool" where
  "storable Q m \<longleftrightarrow>
     pm_schemaVersion m = 1 \<and> pm_revision m \<noteq> [] \<and> trimmed Q (pm_revision m) = pm_revision m
     \<and> normalizedSha256 Q (pm_contentHash m) = pm_contentHash m
     \<and> normalizedSha256 Q (pm_declaredContentHash m) = pm_declaredContentHash m
     \<and> (pm_declaredContentHash m = [] \<longrightarrow> pm_contentHash m = [])
     \<and> trimmed Q (pm_source m) = pm_source m \<and> pm_trustState m = ''unsigned''
     \<and> (if pm_versioned m
        then 1 \<le> pm_revisionNumber m \<and> pm_revisionNumber m \<le> maxExactJsonInteger
          \<and> pm_revision m = decimal_int (pm_revisionNumber m)
          \<and> pm_contentHash m \<noteq> []
          \<and> (\<exists>i e. pm_issuedAt m = Some i \<and> pm_expiresAt m = Some e \<and> i < e)
        else pm_revisionNumber m = -1 \<and> storedCanonicalRevisionNumber Q (pm_revision m) = None)"

lemma canonicalRevisionNumber_jint:
  "\<lbrakk>1 \<le> n; n \<le> maxExactJsonInteger\<rbrakk> \<Longrightarrow> canonicalRevisionNumber (jint n) = Some n"
  by (simp add: canonicalRevisionNumber_def dbl_int_def)

lemma normalizedSha256_Nil [simp]: "qt_policy_ok Q \<Longrightarrow> normalizedSha256 Q [] = []"
  by (simp add: normalizedSha256_def plain_fold)

lemma readMetadata_toJson:
  assumes "qt_policy_ok Q" "qt_dates_ok Q" "storable Q m"
  shows "readMetadata Q (toJson Q m) = m\<lparr>pm_versioned := False, pm_revisionNumber := -1\<rparr>"
proof -
  have s: "pm_schemaVersion m = 1" "trimmed Q (pm_revision m) = pm_revision m"
    "normalizedSha256 Q (pm_contentHash m) = pm_contentHash m"
    "normalizedSha256 Q (pm_declaredContentHash m) = pm_declaredContentHash m"
    "pm_declaredContentHash m = [] \<longrightarrow> pm_contentHash m = []"
    "trimmed Q (pm_source m) = pm_source m" "pm_trustState m = ''unsigned''"
    using assms(3) by (auto simp: storable_def)
  have hash: "normalizedSha256 Q (jstr (obj_value (toJson Q m) ''contentHash'')) = pm_contentHash m"
    "normalizedSha256 Q (jstr (obj_value (toJson Q m) ''declaredContentHash'')) = pm_declaredContentHash m"
    "trimmed Q (jstr (obj_value (toJson Q m) ''source'')) = pm_source m"
    using assms(1) s by (simp_all add: toJson_values trimmed_def trim_where_def)
  have one: "to_int 1 (jint 1) = 1" by (simp add: dbl_int_def)
  show ?thesis
    unfolding readMetadata_def Let_def hash
    by (rule ManagedRoutePolicyMetadata.equality)
      (use s one in \<open>simp_all add: toJson_values defaultMetadata_def date_instant [OF assms(2)]\<close>)
qed

lemma metadata_roundtrip:
  assumes "qt_policy_ok Q" "qt_dates_ok Q" "storable Q m"
  shows "metadataFromJson Q (toJson Q m) = Some m"
proof -
  have "toJson Q m \<noteq> []" using toJson_values(1) [of Q m] by auto
  have type: "q_toLower Q (trimmed Q (jstr (obj_value (toJson Q m) ''policyType'')))
      = (if pm_versioned m then ''versioned'' else ''legacy'')"
    by (simp add: toJson_values plain_fold [OF assms(1)] is_plain_def char_le_of_char)
  show ?thesis
  proof (cases "pm_versioned m")
    case True
    then have v: "1 \<le> pm_revisionNumber m" "pm_revisionNumber m \<le> maxExactJsonInteger"
      "pm_revision m = decimal_int (pm_revisionNumber m)" "pm_contentHash m \<noteq> []" "pm_declaredContentHash m \<noteq> []"
      "normalizedSha256 Q (pm_declaredContentHash m) = pm_declaredContentHash m"
      "dt_valid (pm_issuedAt m)" "dt_valid (pm_expiresAt m)" "\<not> dt_le (pm_expiresAt m) (pm_issuedAt m)"
      "pm_schemaVersion m = 1" "pm_revision m \<noteq> []" "pm_trustState m = ''unsigned''"
      using assms(3) by (auto simp: storable_def dt_defs)
    then show ?thesis
      using True \<open>toJson Q m \<noteq> []\<close> stored_decimal(1) [OF assms(1) v(1,2)] canonicalRevisionNumber_jint [OF v(1,2)]
      by (simp add: metadataFromJson_def readMetadata_toJson [OF assms] Let_def type)
        (simp add: toJson_values)
  next
    case False
    then show ?thesis
      using \<open>toJson Q m \<noteq> []\<close> assms(3)
      by (simp add: metadataFromJson_def readMetadata_toJson [OF assms] Let_def type storable_def)
  qed
qed

lemma admitted_shape:
  assumes "validateCandidate Q payload current now clock = Inr m"
  shows "pm_schemaVersion m = 1" "pm_source m = []" "pm_contentMatchesDeclaration m"
    "\<not> pm_versioned m \<Longrightarrow> pm_revisionNumber m = -1"
    "\<exists>content. pm_contentHash m = derivedRevision Q content"
proof -
  obtain content n where "if pm_versioned m then True else n = -1" and
    m: "m = defaultMetadata\<lparr>pm_revision := (if pm_versioned m then decimal_int n else derivedRevision Q content),
       pm_revisionNumber := n, pm_versioned := pm_versioned m, pm_contentHash := derivedRevision Q content,
       pm_declaredContentHash := derivedRevision Q content, pm_issuedAt := pm_issuedAt m,
       pm_expiresAt := pm_expiresAt m, pm_acceptedAt := pm_acceptedAt m\<rparr>"
    using assms by (rule validateCandidate_Inr) (auto split: if_splits)
  have "pm_schemaVersion m = 1 \<and> pm_source m = [] \<and> pm_contentMatchesDeclaration m
      \<and> pm_revisionNumber m = n \<and> pm_contentHash m = derivedRevision Q content"
    by (subst m, simp add: defaultMetadata_def)+
  then show "pm_schemaVersion m = 1" "pm_source m = []" "pm_contentMatchesDeclaration m"
    "\<not> pm_versioned m \<Longrightarrow> pm_revisionNumber m = -1"
    "\<exists>content. pm_contentHash m = derivedRevision Q content"
    using \<open>if pm_versioned m then True else n = -1\<close> by auto
qed

lemma digest_not_numeric:
  assumes "qt_policy_ok Q"
  shows "storedCanonicalRevisionNumber Q (derivedRevision Q ob) = None"
    "trimmed Q (derivedRevision Q ob) = derivedRevision Q ob"
proof -
  have ok: "qt_routes_ok Q" using assms by (simp add: qt_policy_ok_def)
  show t: "trimmed Q (derivedRevision Q ob) = derivedRevision Q ob"
    unfolding derivedRevision_def by (rule space_facts(3) [OF ok hex_is_plain])
  have "\<not> q_isDigit Q CHR ''s''" using ok by (simp add: qt_routes_ok_def qt_decimal_ok_def)
  then have "\<not> list_all (q_isDigit Q) (derivedRevision Q ob)" by (simp add: derivedRevision_def)
  then show "storedCanonicalRevisionNumber Q (derivedRevision Q ob) = None"
    by (simp add: storedCanonicalRevisionNumber_def t Let_def)
qed

lemma admitted_storable:
  assumes "qt_policy_ok Q" "qt_digest_ok Q" "validateCandidate Q payload current now clock = Inr m"
  shows "storable Q m"
proof -
  obtain content where h: "pm_contentHash m = derivedRevision Q content"
    using admitted_shape(5) [OF assms(3)] by blast
  note f = admitted_facts [OF assms(3)] and sh = admitted_shape(1-4) [OF assms(3)]
  show ?thesis
  proof (cases "pm_versioned m")
    case True
    then show ?thesis
      using f sh h stored_decimal [OF assms(1), of "pm_revisionNumber m"] normalized_digest [OF assms(1,2)]
      by (auto simp: storable_def trimmed_def trim_where_def)
  next
    case False
    then show ?thesis
      using f sh h digest_not_numeric [OF assms(1)] normalized_digest [OF assms(1,2)]
      by (auto simp: storable_def trimmed_def trim_where_def)
  qed
qed

lemma content_of_state [simp]:
  "canonicalSourcePolicyContent Q (obj_insert stateKey v cfg) = canonicalSourcePolicyContent Q cfg"
  "canonicalSourcePolicyHash Q (obj_insert stateKey v cfg) = canonicalSourcePolicyHash Q cfg"
proof -
  show c: "canonicalSourcePolicyContent Q (obj_insert stateKey v cfg) = canonicalSourcePolicyContent Q cfg"
    by (simp add: canonicalSourcePolicyContent_def containsSourceSites_def sourceSitesValue_def
        sourceSitesKeys_def stateKey_def Let_def)
  then show "canonicalSourcePolicyHash Q (obj_insert stateKey v cfg) = canonicalSourcePolicyHash Q cfg"
    by (simp add: canonicalSourcePolicyHash_def)
qed

lemma hash_valid_iff: "snd (canonicalSourcePolicyHash Q cfg) = snd (canonicalSourcePolicyContent Q cfg)"
  by (simp add: canonicalSourcePolicyHash_def split: prod.splits)

lemma effective_same:
  assumes "canonicalSourcePolicyHash Q cfg = (pm_contentHash m, True)"
    "pm_declaredContentHash m = pm_contentHash m" "pm_contentMatchesDeclaration m" "pm_trustState m = ''unsigned''"
  shows "metadataForEffectiveContent Q cfg m = m"
  using assms by (simp add: metadataForEffectiveContent_def)

lemma isEffective_iff:
  "isEffective Q cfg now \<longleftrightarrow>
     snd (canonicalSourcePolicyHash Q cfg)
     \<and> (obj_value cfg stateKey = JUndefined
        \<or> (\<exists>m. lastKnownGood Q cfg = Some m \<and> \<not> isExpired m now
             \<and> (let d = (if pm_declaredContentHash m = [] then pm_contentHash m else pm_declaredContentHash m)
                in d = [] \<or> d = fst (canonicalSourcePolicyHash Q cfg))))"
proof (cases "obj_value cfg stateKey = JUndefined")
  case True
  then show ?thesis by (simp add: isEffective_def hash_valid_iff)
next
  case False
  have nil: "metadataFromJson Q [] = None" by (simp add: metadataFromJson_def)
  show ?thesis
    using False nil
    by (cases "obj_value cfg stateKey"; cases "obj_value (to_object (obj_value cfg stateKey)) lastKnownGoodKey")
      (auto simp: isEffective_def lastKnownGood_def Let_def metadataForEffectiveContent_def isExpired_def
        split: option.splits prod.splits if_splits)
qed

lemma stored_state:
  assumes "qt_policy_ok Q" "qt_digest_ok Q" "qt_dates_ok Q"
    "validateCandidate Q payload current now clock = Inr m"
    "canonicalSourcePolicyHash Q cfg = (pm_contentHash m, True)"
  shows "lastKnownGood Q (fst (storeLastKnownGood Q cfg m)) = Some m"
    "canonicalSourcePolicyHash Q (fst (storeLastKnownGood Q cfg m)) = (pm_contentHash m, True)"
    "obj_value (fst (storeLastKnownGood Q cfg m)) stateKey \<noteq> JUndefined"
    "\<not> snd (storeLastKnownGood Q (fst (storeLastKnownGood Q cfg m)) m)"
proof -
  note f = admitted_facts [OF assms(4)]
  have eff: "metadataForEffectiveContent Q c m = m" if "canonicalSourcePolicyHash Q c = (pm_contentHash m, True)" for c
    using that f admitted_shape(3) [OF assms(4)] by (intro effective_same) auto
  have rt: "metadataFromJson Q (toJson Q m) = Some m"
    by (rule metadata_roundtrip [OF assms(1,3) admitted_storable [OF assms(1,2,4)]])
  then have ne: "toJson Q m \<noteq> []" by (auto simp: metadataFromJson_def)
  show h: "canonicalSourcePolicyHash Q (fst (storeLastKnownGood Q cfg m)) = (pm_contentHash m, True)"
    using assms(5) by (simp add: storeLastKnownGood_def Let_def)
  have lkg: "to_object (obj_value (to_object (obj_value (fst (storeLastKnownGood Q cfg m)) stateKey)) lastKnownGoodKey)
      = toJson Q m"
    using eff [OF assms(5)] by (simp add: storeLastKnownGood_def Let_def)
  then show "lastKnownGood Q (fst (storeLastKnownGood Q cfg m)) = Some m" using rt by (simp add: lastKnownGood_def)
  show "obj_value (fst (storeLastKnownGood Q cfg m)) stateKey \<noteq> JUndefined" using lkg ne by auto
  show "\<not> snd (storeLastKnownGood Q (fst (storeLastKnownGood Q cfg m)) m)"
    using lkg eff [OF h] unfolding storeLastKnownGood_def [of Q "fst (storeLastKnownGood Q cfg m)"] Let_def by simp
qed


text \<open>
  \<^bold>\<open>C30.\<close> A stored policy is effective only when its rules are valid today and either no lifecycle
  record exists or the record parses, is not expired and declares the digest of the rules actually
  stored. A policy effective at some time was effective at every earlier time, and torn or cleared
  lifecycle state is never effective.
\<close>

theorem isEffective_fail_closed:
  "(isEffective Q cfg (Some t) \<longleftrightarrow>
     snd (canonicalSourcePolicyHash Q cfg)
     \<and> (obj_value cfg stateKey = JUndefined
        \<or> (\<exists>m. lastKnownGood Q cfg = Some m \<and> (case pm_expiresAt m of None \<Rightarrow> True | Some e \<Rightarrow> t < e)
             \<and> (let d = (if pm_declaredContentHash m = [] then pm_contentHash m else pm_declaredContentHash m)
                in d = [] \<or> d = fst (canonicalSourcePolicyHash Q cfg)))))
   \<and> (isEffective Q cfg (Some t) \<and> s \<le> t \<longrightarrow> isEffective Q cfg (Some s))
   \<and> (obj_value cfg stateKey \<noteq> JUndefined \<and> lastKnownGood Q cfg = None \<longrightarrow> \<not> isEffective Q cfg (Some t))"
proof -
  have exp: "isExpired m (Some u) \<longleftrightarrow> \<not> (case pm_expiresAt m of None \<Rightarrow> True | Some e \<Rightarrow> u < e)" for m u
    by (auto simp: isExpired_def dt_defs split: option.splits)
  have "\<not> isExpired m (Some t) \<Longrightarrow> s \<le> t \<Longrightarrow> \<not> isExpired m (Some s)" for m
    by (auto simp: exp split: option.splits)
  then show ?thesis unfolding isEffective_iff exp by auto
qed

text \<open>
  Once an admitted policy is stored, the pair of revision and content digest reported for
  it is canonical at every instant: the revision and digest of the policy until it expires, and
  the empty pair afterwards.
\<close>

theorem effective_identity_canonical:
  assumes "qt_policy_ok Q" "qt_digest_ok Q" "qt_dates_ok Q"
    "validateCandidate Q payload current now clock = Inr m"
    "canonicalSourcePolicyHash Q cfg = (pm_contentHash m, True)"
    "storeLastKnownGood Q cfg m = (cfg', changed)"
  shows "(effectiveRevision Q cfg' t, effectiveContentHash Q cfg' t)
      = (if isExpired m t then ([], []) else (pm_revision m, pm_contentHash m))
    \<and> isCanonicalPolicyIdentity Q (effectiveRevision Q cfg' t) (effectiveContentHash Q cfg' t)"
proof -
  note st = stored_state [OF assms(1-5), unfolded assms(6) fst_conv]
  note f = admitted_facts [OF assms(4)]
  have s: "storable Q m" by (rule admitted_storable [OF assms(1,2,4)])
  have ne: "pm_contentHash m \<noteq> []" using admitted_shape(5) [OF assms(4)] derivedRevision_not_Nil by metis
  have eff: "isEffective Q cfg' t \<longleftrightarrow> \<not> isExpired m t" using st f by (simp add: isEffective_iff)
  have same: "metadataForEffectiveContent Q cfg' m = m"
    using st(2) f admitted_shape(3) [OF assms(4)] by (intro effective_same) auto
  have pair: "effectiveContentHash Q cfg' t = (if isExpired m t then [] else pm_contentHash m)"
    "effectiveRevision Q cfg' t = (if isExpired m t then [] else pm_revision m)"
    using eff st ne same admitted_shape(3) [OF assms(4)]
    by (simp_all add: effectiveContentHash_def effectiveRevision_def lastKnownGoodForEffectiveContent_def)
  have "trimmed Q (pm_revision m) = pm_revision m \<and> storedCanonicalRevisionNumber Q (pm_revision m) \<noteq> None
      \<or> normalizedSha256 Q (pm_revision m) = pm_revision m"
    using s f stored_decimal [OF assms(1), of "pm_revisionNumber m"] by (auto simp: storable_def split: if_splits)
  then show ?thesis
    using pair ne s by (auto simp: isCanonicalPolicyIdentity_def storable_def)
qed

section \<open>Concrete policies\<close>

definition refSites :: jobject where
  "refSites = [(''10.0.0.0/8'', JString [])]"

definition refRules :: jobject where
  "refRules = [(''managedSplitTunnelExceptSourceSites'', JObject refSites),
               (''managedSplitTunnelForceEnabled'', JBool False), (''schemaVersion'', jint 1)]"

definition refPayload :: "int \<Rightarrow> jobject" where
  "refPayload n =
     [(''managedSplitTunnelExceptSourceSites'', JObject refSites),
      (''policy'', JObject
        [(''content'', JObject refRules), (''contentSha256'', JString (derivedRevision qt_ref refRules)),
         (''expiresAt'', jint 2000), (''issuedAt'', jint 1000), (''revision'', jint n)])]"

definition refMetadata :: "int \<Rightarrow> ManagedRoutePolicyMetadata" where
  "refMetadata n = defaultMetadata\<lparr>pm_revision := decimal_int n, pm_revisionNumber := n, pm_versioned := True,
     pm_contentHash := derivedRevision qt_ref refRules, pm_declaredContentHash := derivedRevision qt_ref refRules,
     pm_issuedAt := Some 1000000, pm_expiresAt := Some 2000000, pm_acceptedAt := Some 1500000\<rparr>"

lemma ref_content:
  "canonicalSourcePolicyContent (qt_ref_with rd) (refPayload n) = (refRules, True)"
  "canonicalSourcePolicyContent (qt_ref_with rd) refRules = (refRules, True)"
proof -
  have sites: "canonicalSourceSites (qt_ref_with rd) (JObject refSites) = (refSites, True)"
    unfolding refSites_def by (rule canonicalSourceSites_fixed [OF qt_ref_policy ref_site])
  show "canonicalSourcePolicyContent (qt_ref_with rd) (refPayload n) = (refRules, True)"
    "canonicalSourcePolicyContent (qt_ref_with rd) refRules = (refRules, True)"
    using sites
    by (simp_all add: canonicalSourcePolicyContent_def containsSourceSites_def sourceSitesValue_def
        sourceSitesKeys_def refPayload_def refRules_def obj_value_def obj_contains_def policyContent_def
        obj_insert_def)
qed

lemma ref_validate:
  assumes n: "1 \<le> n" "n \<le> 5" and cur: "cur = None \<or> (\<exists>k. cur = Some (refMetadata k) \<and> 1 \<le> k \<and> k \<le> n)"
  shows "validateCandidate (qt_ref_with rd) (refPayload n) cur (Some 1500000) clk = Inr (refMetadata n)"
proof -
  have digest: "derivedRevision qt_ref refRules = derivedRevision (qt_ref_with rd) refRules" by (simp add: derivedRevision_def)
  let ?po = "to_object (obj_value (refPayload n) ''policy'')"
  have rev: "canonicalRevisionNumber (jint n) = Some n"
    using n by (intro canonicalRevisionNumber_jint) (simp_all add: maxExactJsonInteger_def)
  have po: "is_object (obj_value (refPayload n) ''policy'')" "obj_contains (refPayload n) ''policy''"
    "obj_value ?po ''revision'' = jint n" "obj_value ?po ''content'' = JObject refRules"
    "obj_value ?po ''contentSha256'' = JString (derivedRevision (qt_ref_with rd) refRules)"
    "obj_value ?po ''schemaVersion'' = JUndefined"
    "firstValue ?po (refPayload n) [''issuedAt'', ''issued_at'', ''issued'', ''generatedAt''] = jint 1000"
    "firstValue ?po (refPayload n) [''expiresAt'', ''expires_at'', ''expires''] = jint 2000"
    by (simp_all add: refPayload_def digest obj_value_def obj_contains_def firstValue_def)
  have rules: "obj_value refRules ''schemaVersion'' = jint 1" "obj_contains refRules ''managedSplitTunnelExceptSourceSites''"
    "obj_value refRules ''managedSplitTunnelForceEnabled'' = JBool False" "to_int 0 (jint 1) = 1"
    by (simp_all add: refRules_def obj_value_def obj_contains_def dbl_int_def)
  have declared: "declaredPolicy (qt_ref_with rd) ?po refRules = Inr (n, refRules)"
    by (simp add: declaredPolicy_def po rules rev ref_content)
  have dates: "dateTimeFromJson (qt_ref_with rd) (jint 1000) = Some 1000000" "dateTimeFromJson (qt_ref_with rd) (jint 2000) = Some 2000000"
    by (simp_all add: dateTimeFromJson_def dbl_int_def fromSecsSinceEpoch_def)
  have life: "lifecycleError True (jint 1000) (jint 2000) (Some 1000000) (Some 2000000) (Some 1500000) = None"
    by (simp add: lifecycleError_def dt_defs)
  have "candidateSchema (qt_ref_with rd) True ?po (refPayload n) = 1" by (simp add: candidateSchema_def po)
  then show ?thesis
    unfolding validateCandidate_def Let_def po(5,7,8) ref_content prod.case dates
    using cur declared life po(1,2) normalized_digest [OF qt_ref_policy qt_ref_digest, where ob = refRules]
    by (auto simp: refMetadata_def digest dt_defs compareWithCurrent_def defaultMetadata_def Let_def)
qed

lemma ref_hash: "canonicalSourcePolicyHash (qt_ref_with rd) refRules = (pm_contentHash (refMetadata n), True)"
  by (simp add: canonicalSourcePolicyHash_def ref_content refMetadata_def derivedRevision_def)

theorem validateCandidate_sound_witness:
  "validateCandidate qt_ref (refPayload 3) None (Some 1500000) 0 = Inr (refMetadata 3)
   \<and> canonicalSourcePolicyHash qt_ref (refPayload 3) = (pm_contentHash (refMetadata 3), True)"
proof -
  have v: "validateCandidate qt_ref (refPayload 3) None (Some 1500000) 0 = Inr (refMetadata 3)"
    by (rule ref_validate) auto
  from v validateCandidate_sound [OF v] show ?thesis by simp
qed

theorem validateCandidate_no_rollback_witness:
  "validateCandidate qt_ref (refPayload 4) (Some (refMetadata 3)) (Some 1500000) 0 = Inr (refMetadata 4)
   \<and> pm_revisionNumber (refMetadata 3) \<le> pm_revisionNumber (refMetadata 4)"
proof -
  have v: "validateCandidate qt_ref (refPayload 4) (Some (refMetadata 3)) (Some 1500000) 0 = Inr (refMetadata 4)"
    by (rule ref_validate) auto
  have "pm_versioned (refMetadata 3)" by (simp add: refMetadata_def)
  from v validateCandidate_no_rollback [OF v this] show ?thesis by simp
qed



theorem isEffective_fail_closed_witness:
  "isEffective qt_ref refRules (Some 5) \<and> isEffective qt_ref refRules (Some 3)
   \<and> \<not> isEffective qt_ref (obj_insert stateKey (JObject []) refRules) (Some 5)"
proof -
  have "obj_value refRules stateKey = JUndefined" by (simp add: refRules_def stateKey_def obj_value_def)
  then have e: "isEffective qt_ref refRules (Some 5)" using ref_hash [where n = 3] by (simp add: isEffective_iff)
  have "lastKnownGood qt_ref (obj_insert stateKey (JObject []) refRules) = None"
    by (simp add: lastKnownGood_def metadataFromJson_def)
  with e isEffective_fail_closed [of qt_ref refRules 5 3]
    isEffective_fail_closed [of qt_ref "obj_insert stateKey (JObject []) refRules" 5 5] show ?thesis by simp
qed

theorem effective_identity_canonical_witness:
  "isCanonicalPolicyIdentity qt_ref (decimal_int 3) (derivedRevision qt_ref refRules)"
proof -
  have v: "validateCandidate qt_ref (refPayload 3) None (Some 1500000) 0 = Inr (refMetadata 3)"
    by (rule ref_validate) auto
  have "\<not> isExpired (refMetadata 3) (Some 1999999)" by (simp add: isExpired_def refMetadata_def dt_defs)
  moreover have "pm_revision (refMetadata 3) = decimal_int 3"
    "pm_contentHash (refMetadata 3) = derivedRevision qt_ref refRules" by (simp_all add: refMetadata_def)
  ultimately show ?thesis
    using effective_identity_canonical [OF qt_ref_policy qt_ref_digest qt_ref_dates v ref_hash surjective_pairing,
        of "Some 1999999"] by auto
qed

end
