(* ===== verification/Route_Matcher.thy ===== *)
theory Route_Matcher
  imports Managed_Routes
begin

unbundle bit_operations_syntax

text \<open>
  The route inspector (\<open>routeRuleMatcher.cpp\<close>): normalisation of a target, the rule and stored
  route grammar, and the deterministic choice of the rule that explains where an address goes.
  A map of rules is its list of entries in key order, and a stored value is the text Qt converts
  it to.
\<close>

section \<open>Types and limits\<close>

definition maximumInputLength :: nat where "maximumInputLength = 2048"
definition maximumHostLength :: nat where "maximumHostLength = 253"
definition maximumRuleOutputLength :: nat where "maximumRuleOutputLength = 255"
definition maximumStoredRouteLength :: nat where "maximumStoredRouteLength = 128"
definition maximumStoredRoutesPerRule :: nat where "maximumStoredRoutesPerRule = 64"
definition maximumMatchedValueLength :: nat where "maximumMatchedValueLength = 2048"
definition maximumRawStoredValueLength :: nat where "maximumRawStoredValueLength = 4096"
definition maximumRulesPerSource :: nat where "maximumRulesPerSource = 512"
definition maximumManagedRulesPerSource :: nat where "maximumManagedRulesPerSource = 4096"
definition resolvedAddressScoreBase :: int where "resolvedAddressScoreBase = 7000"
definition addressScoreBase :: int where "addressScoreBase = 8000"
definition domainScoreBase :: int where "domainScoreBase = 10032"

datatype InputPolicy = HostOrUrl | BareHostOrAddress

datatype DomainMatchPolicy = RequireResolvedIpv4 | PolicyOnly

record NormalizedTarget =
  nt_host :: string
  nt_literalAddress :: qhost
  nt_error :: string

record RuleMatch =
  rm_matched :: bool
  rm_source :: string
  rm_rule :: string
  rm_configuredRule :: string
  rm_matchedValue :: string
  rm_matchType :: string
  rm_safetyTransform :: string
  rm_matchedValueTruncated :: bool
  rm_score :: int

record MatchResult =
  mr_accepted :: RuleMatch
  mr_rejected :: RuleMatch
  mr_coverageComplete :: bool
  mr_localRulesTruncated :: bool
  mr_managedRulesTruncated :: bool
  mr_storedValuesTruncated :: bool
  mr_localRulesInspected :: nat
  mr_managedRulesInspected :: nat

definition noMatch :: RuleMatch where
  "noMatch = \<lparr> rm_matched = False, rm_source = [], rm_rule = [], rm_configuredRule = [],
     rm_matchedValue = [], rm_matchType = [], rm_safetyTransform = [],
     rm_matchedValueTruncated = False, rm_score = -1 \<rparr>"

definition emptyResult :: MatchResult where
  "emptyResult = \<lparr> mr_accepted = noMatch, mr_rejected = noMatch, mr_coverageComplete = True,
     mr_localRulesTruncated = False, mr_managedRulesTruncated = False, mr_storedValuesTruncated = False,
     mr_localRulesInspected = 0, mr_managedRulesInspected = 0 \<rparr>"

section \<open>Targets\<close>

definition hasControlCharacters :: "qt \<Rightarrow> string \<Rightarrow> bool" where
  "hasControlCharacters Q s = list_ex (q_isControl Q) s"

definition isValidAceHostname :: "string \<Rightarrow> bool" where
  "isValidAceHostname host =
     (if host = [] \<or> length host > maximumHostLength then False
      else list_all (\<lambda>label. length label \<le> 63 \<and> labelExpression label) (split_on CHR ''.'' host))"

definition hasForbiddenBareHostCharacter :: "qt \<Rightarrow> string \<Rightarrow> bool" where
  "hasForbiddenBareHostCharacter Q s = list_ex (q_isBareForbidden Q) s"

definition targetError :: "string \<Rightarrow> NormalizedTarget" where
  "targetError e = \<lparr> nt_host = [], nt_literalAddress = QHostNull, nt_error = e \<rparr>"

fun scopeId :: "qhost \<Rightarrow> string" where
  "scopeId (QHostV6 a s) = s" | "scopeId _ = []"

definition literalTarget :: "qt \<Rightarrow> qhost \<Rightarrow> NormalizedTarget" where
  "literalTarget Q a =
     (if scopeId a \<noteq> [] then targetError ''scoped_ipv6_not_supported''
      else \<lparr> nt_host = q_toLower Q (q_hostText Q a), nt_literalAddress = a, nt_error = [] \<rparr>)"

definition stripBrackets :: "string \<Rightarrow> string" where
  "stripBrackets s =
     (if s \<noteq> [] \<and> hd s = CHR ''['' \<and> last s = CHR '']'' then butlast (tl s) else s)"

definition hostnameOf :: "qt \<Rightarrow> bool \<Rightarrow> string \<Rightarrow> string option" where
  "hostnameOf Q bareHostOnly t =
     (if bareHostOnly then
        (if list_ex (\<lambda>c. c \<in> {CHR '':'', CHR ''/'', CHR 0x5C, CHR ''@'', CHR ''?'', CHR ''#'', CHR ''%''}) t
         then None else Some t)
      else
        let hasScheme = has_infix ''://'' t;
            needsUrlParsing = hasScheme \<or> starts_with ''//'' t
              \<or> list_ex (\<lambda>c. c \<in> {CHR ''/'', CHR ''?'', CHR ''#'', CHR ''@'', CHR '':''}) t
        in if needsUrlParsing then
             let urlText = (if starts_with ''//'' t then ''route:'' @ t
                            else if \<not> hasScheme then ''route://'' @ t else t)
             in (case q_urlHost Q urlText of None \<Rightarrow> None | Some h \<Rightarrow> if h = [] then None else Some h)
           else Some t)"

definition chopDots :: "string \<Rightarrow> string" where
  "chopDots s = rev (dropWhile (\<lambda>c. c = CHR ''.'') (rev s))"

definition normalizeTargetImpl :: "qt \<Rightarrow> string \<Rightarrow> InputPolicy \<Rightarrow> NormalizedTarget" where
  "normalizeTargetImpl Q input policy =
     (let bareHostOnly = (policy = BareHostOrAddress);
          t = (if bareHostOnly then input else trimmed Q input) in
      if t = [] then targetError ''host_required''
      else if length t > maximumInputLength
        \<or> (if bareHostOnly then hasForbiddenBareHostCharacter Q t else hasControlCharacters Q t)
      then targetError ''invalid_host''
      else let literal = q_parseHost Q (stripBrackets t) in
      if literal \<noteq> QHostNull then literalTarget Q literal
      else case hostnameOf Q bareHostOnly t of
             None \<Rightarrow> targetError ''invalid_host''
           | Some h \<Rightarrow>
               let hostname = chopDots h;
                   literal = q_parseHost Q hostname in
               if literal \<noteq> QHostNull then literalTarget Q literal
               else let normalized = q_toLower Q (q_toAce Q hostname) in
                    if \<not> isValidAceHostname normalized then targetError ''invalid_host''
                    else \<lparr> nt_host = normalized, nt_literalAddress = QHostNull, nt_error = [] \<rparr>)"

definition normalizeTarget :: "qt \<Rightarrow> string \<Rightarrow> InputPolicy \<Rightarrow> NormalizedTarget" where
  "normalizeTarget Q input policy = normalizeTargetImpl Q input policy"

section \<open>Routes of a rule\<close>

text \<open>\<open>addressMatchesRoute\<close>: the prefix length it reports together with the verdict.\<close>

definition addressMatchesRoute :: "qt \<Rightarrow> qhost \<Rightarrow> string \<Rightarrow> (bool \<times> int) option" where
  "addressMatchesRoute Q address route =
     (if address = QHostNull then None else
      let r = trimmed Q route; routeAddress = q_parseHost Q r in
      if CHR ''/'' \<notin> set r \<and> routeAddress \<noteq> QHostNull
      then Some (address = routeAddress, if is_v4 routeAddress then 32 else 128)
      else case q_parseSubnet Q r of
             None \<Rightarrow> None
           | Some (net, len) \<Rightarrow>
               if is_v4 net \<noteq> is_v4 address then None
               else Some (q_isInSubnet Q address net len, int len))"

definition routeMatches :: "qt \<Rightarrow> qhost \<Rightarrow> string \<Rightarrow> bool" where
  "routeMatches Q address route = (case addressMatchesRoute Q address route of Some (b, _) \<Rightarrow> b | None \<Rightarrow> False)"

definition matchPrefix :: "qt \<Rightarrow> qhost \<Rightarrow> string \<Rightarrow> int" where
  "matchPrefix Q address route = (case addressMatchesRoute Q address route of Some (_, p) \<Rightarrow> p | None \<Rightarrow> -1)"

definition isIpv4HostOrCidr :: "qt \<Rightarrow> string \<Rightarrow> bool" where
  "isIpv4HostOrCidr Q route =
     (let t = trimmed Q route in
      if CHR ''/'' \<notin> set t then is_v4 (q_parseHost Q t)
      else let parts = split_on CHR ''/'' t in
           if length parts \<noteq> 2 \<or> \<not> is_v4 (q_parseHost Q (parts ! 0)) then False
           else case q_toInt Q (parts ! 1) of None \<Rightarrow> False | Some p \<Rightarrow> p \<ge> 0 \<and> p \<le> 32)"

definition isStoredRouteSeparator :: "qt \<Rightarrow> char \<Rightarrow> bool" where
  "isStoredRouteSeparator Q c \<longleftrightarrow> c = CHR '','' \<or> c = CHR '';'' \<or> q_isSpace Q c"

text \<open>
  The scan keeps what is left of the bounded value; the result is the tokens and whether the
  token limit stopped it.
\<close>

function storedRouteScan :: "qt \<Rightarrow> bool \<Rightarrow> string list \<Rightarrow> string \<Rightarrow> string list \<times> bool" where
  "storedRouteScan Q rawValueBounded tokens rest =
     (let rest = dropWhile (isStoredRouteSeparator Q) rest in
      if rest = [] then (tokens, False)
      else
        let route = takeWhile (\<lambda>c. \<not> isStoredRouteSeparator Q c) rest;
            after = dropWhile (\<lambda>c. \<not> isStoredRouteSeparator Q c) rest;
            tokenComplete = (after \<noteq> [] \<or> rawValueBounded) in
        if tokenComplete \<and> length route \<le> maximumStoredRouteLength
           \<and> isIpv4HostOrCidr Q route \<and> route \<notin> set tokens then
          (if length tokens \<ge> maximumStoredRoutesPerRule then (tokens, True)
           else storedRouteScan Q rawValueBounded (tokens @ [route]) after)
        else storedRouteScan Q rawValueBounded tokens after)"
  by pat_completeness auto

lemma scan_shrinks:
  assumes "dropWhile P rest \<noteq> []"
  shows "length (dropWhile (\<lambda>c. \<not> P c) (dropWhile P rest)) < length rest"
proof -
  have "\<not> P (hd (dropWhile P rest))" using assms by (rule hd_dropWhile)
  then have "length (dropWhile (\<lambda>c. \<not> P c) (dropWhile P rest)) < length (dropWhile P rest)"
    using assms by (cases "dropWhile P rest") (auto simp: length_dropWhile_le le_imp_less_Suc)
  also have "\<dots> \<le> length rest" by (rule length_dropWhile_le)
  finally show ?thesis .
qed

termination storedRouteScan
  by (relation "measure (\<lambda>(_, _, _, rest). length rest)") (auto simp: scan_shrinks)

declare storedRouteScan.simps [simp del]

definition storedRouteTokens :: "qt \<Rightarrow> string \<Rightarrow> string list \<times> bool" where
  "storedRouteTokens Q rawValue =
     (let rawValueBounded = length rawValue \<le> maximumRawStoredValueLength;
          boundedValue = take maximumRawStoredValueLength rawValue;
          (tokens, tokenLimitReached) = storedRouteScan Q rawValueBounded [] boundedValue
      in (tokens, rawValueBounded \<and> \<not> tokenLimitReached))"

definition normalizedDomainRule :: "qt \<Rightarrow> string \<Rightarrow> string" where
  "normalizedDomainRule Q rawRule =
     (let target = normalizeTargetImpl Q (q_toLower Q (trimmed Q rawRule)) BareHostOrAddress in
      if nt_error target \<noteq> [] \<or> nt_literalAddress target \<noteq> QHostNull then [] else nt_host target)"

definition privacySafeRule :: "qt \<Rightarrow> string \<Rightarrow> string" where
  "privacySafeRule Q rawRule =
     (let t = trimmed Q rawRule;
          domain = (let d = normalizedDomainRule Q t in if d \<noteq> [] then d else ''configured-rule'') in
      case q_parseSubnet Q t of
        None \<Rightarrow> domain
      | Some (net, len) \<Rightarrow>
          let maximumPrefix = (if is_v4 net then 32 else 128) in
          if len \<le> maximumPrefix then
            (if len = maximumPrefix \<and> CHR ''/'' \<notin> set t then q_toLower Q (q_hostText Q net)
             else q_toLower Q (q_hostText Q net) @ ''/'' @ decimal len)
          else domain)"

definition parseIpv4Route :: "qt \<Rightarrow> string \<Rightarrow> (u32 \<times> nat) option" where
  "parseIpv4Route Q route =
     (let parts = split_on CHR ''/'' (trimmed Q route) in
      if parts = [] \<or> length parts > 2 then None else
      let routeAddress = q_parseHost Q (parts ! 0) in
      if \<not> is_v4 routeAddress then None
      else if length parts = 1 then Some (to_ipv4 routeAddress, 32)
      else case q_toInt Q (parts ! 1) of
             None \<Rightarrow> None
           | Some p \<Rightarrow> if p \<ge> 0 \<and> p \<le> 32 then Some (to_ipv4 routeAddress, nat p) else None)"

definition routeOverlapsIpv4Range :: "u32 \<Rightarrow> nat \<Rightarrow> u32 \<Rightarrow> nat \<Rightarrow> bool" where
  "routeOverlapsIpv4Range address prefixLength base rangePrefixLength =
     (let routeStart = address AND ipv4Mask prefixLength;
          routeEnd = routeStart OR NOT (ipv4Mask prefixLength);
          rangeStart = base AND ipv4Mask rangePrefixLength;
          rangeEnd = rangeStart OR NOT (ipv4Mask rangePrefixLength)
      in routeStart \<le> rangeEnd \<and> rangeStart \<le> routeEnd)"

definition isCanonicalRuntimeIpv4Route :: "qt \<Rightarrow> string \<Rightarrow> bool" where
  "isCanonicalRuntimeIpv4Route Q route =
     (case parseIpv4Route Q route of
        None \<Rightarrow> False
      | Some (address, prefixLength) \<Rightarrow> address AND ipv4Mask prefixLength = address)"

definition clientForbiddenRanges :: "(u32 \<times> nat) list" where
  "clientForbiddenRanges =
     [(0x00000000, 8), (0x7f000000, 8), (0xc0000000, 24), (0xc0000200, 24), (0xc01f0000, 24),
      (0xc01fc400, 24), (0xc034c100, 24), (0xc0586300, 24), (0xc0af3000, 24), (0xc6120000, 15),
      (0xc6336400, 24), (0xcb007100, 24), (0xe0000000, 4), (0xf0000000, 4)]"

definition isRoutableClientRoute :: "qt \<Rightarrow> string \<Rightarrow> bool" where
  "isRoutableClientRoute Q route =
     (case parseIpv4Route Q route of
        None \<Rightarrow> False
      | Some (address, prefixLength) \<Rightarrow>
          if prefixLength = 0 then False else
          let hostAddress = QHostV4 address;
              inRange = (\<lambda>base prefix. address AND ipv4Mask prefix = base AND ipv4Mask prefix);
              overlaps = (\<lambda>base prefix. routeOverlapsIpv4Range address prefixLength base prefix) in
          if prefixLength < 32 \<and> address AND ipv4Mask prefixLength \<noteq> address then False
          else if q_isLoopback Q hostAddress \<or> q_isBroadcast Q hostAddress
            \<or> q_isLinkLocal Q hostAddress \<or> q_isMulticast Q hostAddress then False
          else
          let localOrServiceRoute = inRange 0x0a000000 8 \<or> inRange 0x64400000 10
                \<or> inRange 0xac100000 12 \<or> inRange 0xc0a80000 16 in
          if list_ex (\<lambda>(base, len). overlaps base len) clientForbiddenRanges then False
          else prefixLength \<ge> (if localOrServiceRoute then 24 else 16))"

section \<open>Choosing a rule\<close>

definition considerMatch ::
  "RuleMatch \<Rightarrow> string \<Rightarrow> string \<Rightarrow> string \<Rightarrow> string \<Rightarrow> string \<Rightarrow> int \<Rightarrow> string \<Rightarrow> RuleMatch" where
  "considerMatch best source rule configuredRule configuredValue matchType score safetyTransform =
     (let localTieBreaker = score = rm_score best \<and> source = ''local'' \<and> rm_source best \<noteq> ''local'' in
      if \<not> rm_matched best \<or> score > rm_score best \<or> localTieBreaker then
        \<lparr> rm_matched = True, rm_source = source, rm_rule = take maximumRuleOutputLength rule,
          rm_configuredRule = configuredRule,
          rm_matchedValue = take maximumMatchedValueLength configuredValue,
          rm_matchType = matchType, rm_safetyTransform = safetyTransform,
          rm_matchedValueTruncated = (length configuredValue > maximumMatchedValueLength),
          rm_score = score \<rparr>
      else best)"

definition trustedRoute :: "qt \<Rightarrow> bool \<Rightarrow> string \<Rightarrow> bool" where
  "trustedRoute Q trustedManaged route \<longleftrightarrow>
     (trustedManaged \<and> isCanonicalRuntimeIpv4Route Q route) \<or> (\<not> trustedManaged \<and> isRoutableClientRoute Q route)"

definition considerResult ::
  "bool \<Rightarrow> string \<Rightarrow> string \<Rightarrow> string \<Rightarrow> string \<Rightarrow> string \<Rightarrow> int \<Rightarrow> string \<Rightarrow> MatchResult \<Rightarrow> MatchResult" where
  "considerResult ok source rule key val matchType score rejectionReason result =
     (if ok then result\<lparr>mr_accepted := considerMatch (mr_accepted result) source rule key val matchType score []\<rparr>
      else result\<lparr>mr_rejected :=
        considerMatch (mr_rejected result) source rule key val matchType score rejectionReason\<rparr>)"

definition rejectionReasonOf :: "bool \<Rightarrow> string" where
  "rejectionReasonOf trustedManaged =
     (if trustedManaged then ''unsupported_managed_cidr_rejected'' else ''client_cidr_rejected'')"

definition inspectKey ::
  "qt \<Rightarrow> string \<Rightarrow> string \<Rightarrow> qhost \<Rightarrow> DomainMatchPolicy \<Rightarrow> string \<Rightarrow> string \<Rightarrow> MatchResult \<Rightarrow> MatchResult" where
  "inspectKey Q source host address policy key val result =
     (let trustedManaged = (source = ''managed'');
          reason = rejectionReasonOf trustedManaged;
          rawRule = trimmed Q key;
          keyMatched = isIpv4HostOrCidr Q rawRule \<and> routeMatches Q address rawRule in
      if keyMatched then
        considerResult (trustedRoute Q trustedManaged rawRule) source (privacySafeRule Q rawRule) key val
          ''address'' (addressScoreBase + matchPrefix Q address rawRule) reason result
      else
        let domainRule = normalizedDomainRule Q rawRule in
        if domainRule \<noteq> [] \<and> host = domainRule \<and> policy = PolicyOnly then
          considerResult True source domainRule key val ''domain'' (domainScoreBase + int (length domainRule)) reason result
        else if is_v4 address \<and> domainRule \<noteq> [] \<and> host = domainRule then
          considerResult (trustedRoute Q trustedManaged (q_hostText Q address)) source domainRule key val
            ''domain'' (domainScoreBase + int (length domainRule)) reason result
        else result)"

definition inspectStored ::
  "qt \<Rightarrow> string \<Rightarrow> qhost \<Rightarrow> string \<Rightarrow> string \<Rightarrow> MatchResult \<Rightarrow> string \<Rightarrow> MatchResult" where
  "inspectStored Q source address key val result storedRoute =
     (if \<not> routeMatches Q address storedRoute then result
      else considerResult (trustedRoute Q (source = ''managed'') storedRoute) source
             (privacySafeRule Q (trimmed Q key)) key val ''resolvedAddress''
             (resolvedAddressScoreBase + matchPrefix Q address storedRoute)
             (rejectionReasonOf (source = ''managed'')) result)"

definition countInspected :: "string \<Rightarrow> MatchResult \<Rightarrow> MatchResult" where
  "countInspected source result =
     (if source = ''managed'' then result\<lparr>mr_managedRulesInspected := Suc (mr_managedRulesInspected result)\<rparr>
      else result\<lparr>mr_localRulesInspected := Suc (mr_localRulesInspected result)\<rparr>)"

definition inspectRule ::
  "qt \<Rightarrow> string \<Rightarrow> string \<Rightarrow> qhost \<Rightarrow> DomainMatchPolicy \<Rightarrow> MatchResult \<Rightarrow> string \<times> string \<Rightarrow> MatchResult" where
  "inspectRule Q source host address policy result entry =
     (let (key, val) = entry;
          result = countInspected source result in
      if length key > maximumInputLength then
        result\<lparr>mr_coverageComplete := False, mr_storedValuesTruncated := True\<rparr>
      else if trimmed Q key = [] then result
      else
        let result = inspectKey Q source host address policy key val result;
            (storedRoutes, storedValueComplete) = storedRouteTokens Q val;
            result = (if storedValueComplete then result
                      else result\<lparr>mr_coverageComplete := False, mr_storedValuesTruncated := True\<rparr>)
        in foldl (inspectStored Q source address key val) result storedRoutes)"

definition inspectRules ::
  "qt \<Rightarrow> (string \<times> string) list \<Rightarrow> string \<Rightarrow> string \<Rightarrow> qhost \<Rightarrow> DomainMatchPolicy \<Rightarrow> MatchResult \<Rightarrow> MatchResult" where
  "inspectRules Q rules source host address policy result =
     (let trustedManaged = (source = ''managed'');
          maximumRules = (if trustedManaged then maximumManagedRulesPerSource else maximumRulesPerSource);
          mapTruncated = length rules > maximumRules;
          result = (if trustedManaged then result\<lparr>mr_managedRulesTruncated := mapTruncated\<rparr>
                    else result\<lparr>mr_localRulesTruncated := mapTruncated\<rparr>);
          result = result\<lparr>mr_coverageComplete := (mr_coverageComplete result \<and> \<not> mapTruncated)\<rparr>
      in foldl (inspectRule Q source host address policy) result (take maximumRules rules))"

definition matchRules ::
  "qt \<Rightarrow> (string \<times> string) list \<Rightarrow> (string \<times> string) list \<Rightarrow> string \<Rightarrow> qhost \<Rightarrow> DomainMatchPolicy \<Rightarrow> MatchResult" where
  "matchRules Q localRules managedRules host resolvedAddress policy =
     (let normalized = normalizeTargetImpl Q host BareHostOrAddress;
          canonicalHost = (if nt_error normalized = [] \<and> nt_literalAddress normalized = QHostNull
                           then nt_host normalized else []);
          result = inspectRules Q localRules ''local'' canonicalHost resolvedAddress policy emptyResult
      in inspectRules Q managedRules ''managed'' canonicalHost resolvedAddress policy result)"

section \<open>Stored route tokens\<close>

lemma tokens_where_skip: "\<forall>x \<in> set seps. P x \<Longrightarrow> tokens_where P (seps @ s) = tokens_where P s"
  by (induction seps) (simp_all add: tokens_where_def)

lemma tokens_where_step:
  "tokens_where P s =
     (let r = dropWhile P s in
      if r = [] then [] else takeWhile (\<lambda>c. \<not> P c) r # tokens_where P (dropWhile (\<lambda>c. \<not> P c) r))"
proof -
  define r where "r = dropWhile P s"
  have s: "tokens_where P s = tokens_where P r"
    using tokens_where_skip [of "takeWhile P s" P r] by (auto simp: r_def dest: set_takeWhileD)
  show ?thesis
  proof (cases "r = []")
    case True
    then show ?thesis using s by (simp add: Let_def tokens_where_def flip: r_def)
  next
    case False
    let ?t = "takeWhile (\<lambda>c. \<not> P c) r" and ?a = "dropWhile (\<lambda>c. \<not> P c) r"
    have ne: "?t \<noteq> []" using False hd_dropWhile [of P s] by (cases r) (auto simp: r_def)
    have t: "\<forall>x \<in> set ?t. \<not> P x" by (auto dest: set_takeWhileD)
    have "tokens_where P r = ?t # tokens_where P ?a"
    proof (cases ?a)
      case Nil
      then have rt: "?t = r" using takeWhile_dropWhile_id [of "\<lambda>c. \<not> P c" r] by (metis append_Nil2)
      have "tokens_where P r = [r]" using ne t unfolding rt by (simp add: tokens_where_def split_where_noP)
      then show ?thesis unfolding Nil rt by (simp add: tokens_where_def)
    next
      case (Cons c cs)
      then have "P c" using hd_dropWhile [of "\<lambda>c. \<not> P c" r] by simp
      then have "tokens_where P (?t @ [c] @ cs) = ?t # tokens_where P cs"
        using ne t by (intro tokens_where_append) auto
      moreover have "tokens_where P ?a = tokens_where P cs"
        using Cons tokens_where_skip [of "[c]" P cs] \<open>P c\<close> by simp
      moreover have "?t @ [c] @ cs = r" using Cons takeWhile_dropWhile_id [of "\<lambda>c. \<not> P c" r] by simp
      ultimately show ?thesis by simp
    qed
    then show ?thesis using s False by (simp add: Let_def flip: r_def)
  qed
qed

definition relevantRoutes :: "qt \<Rightarrow> string \<Rightarrow> string list" where
  "relevantRoutes Q s = filter (\<lambda>t. length t \<le> maximumStoredRouteLength \<and> isIpv4HostOrCidr Q t)
     (tokens_where (isStoredRouteSeparator Q) s)"

lemma relevant_step:
  "relevantRoutes Q s =
     (let r = dropWhile (isStoredRouteSeparator Q) s in
      if r = [] then []
      else let t = takeWhile (\<lambda>c. \<not> isStoredRouteSeparator Q c) r;
               rest = relevantRoutes Q (dropWhile (\<lambda>c. \<not> isStoredRouteSeparator Q c) r)
           in if length t \<le> maximumStoredRouteLength \<and> isIpv4HostOrCidr Q t then t # rest else rest)"
  unfolding relevantRoutes_def by (subst tokens_where_step) (simp add: Let_def)

lemma add_new_foldl_prefix: "\<exists>zs. foldl (\<lambda>a t. add_new t a) acc ts = acc @ zs"
  by (induction ts arbitrary: acc) (auto simp: add_new_def, metis append.assoc)

lemma scan_reference:
  "length tokens \<le> 64 \<Longrightarrow>
   storedRouteScan Q True tokens rest =
     (let full = foldl (\<lambda>a t. add_new t a) tokens (relevantRoutes Q rest) in (take 64 full, length full > 64))"
proof (induction Q "True" tokens rest rule: storedRouteScan.induct)
  case (1 Q tokens rest)
  note IH_add = 1(1) and IH_skip = 1(2) and len = 1(3)
  define r where "r = dropWhile (isStoredRouteSeparator Q) rest"
  define t where "t = takeWhile (\<lambda>c. \<not> isStoredRouteSeparator Q c) r"
  define u where "u = dropWhile (\<lambda>c. \<not> isStoredRouteSeparator Q c) r"
  have scan: "storedRouteScan Q True tokens rest =
      (if r = [] then (tokens, False)
       else if length t \<le> maximumStoredRouteLength \<and> isIpv4HostOrCidr Q t \<and> t \<notin> set tokens then
         (if length tokens \<ge> 64 then (tokens, True) else storedRouteScan Q True (tokens @ [t]) u)
       else storedRouteScan Q True tokens u)"
    by (subst storedRouteScan.simps)
      (simp add: Let_def maximumStoredRoutesPerRule_def flip: r_def t_def u_def)
  have rel: "relevantRoutes Q rest =
      (if r = [] then []
       else if length t \<le> maximumStoredRouteLength \<and> isIpv4HostOrCidr Q t then t # relevantRoutes Q u
       else relevantRoutes Q u)"
    by (subst relevant_step) (simp add: Let_def flip: r_def t_def u_def)
  let ?fold = "foldl (\<lambda>a t. add_new t a)"
  show ?case
  proof (cases "r \<noteq> [] \<and> length t \<le> maximumStoredRouteLength \<and> isIpv4HostOrCidr Q t \<and> t \<notin> set tokens")
    case True
    then have add: "add_new t tokens = tokens @ [t]" by (simp add: add_new_def)
    show ?thesis
    proof (cases "length tokens \<ge> 64")
      case full: True
      obtain zs where "?fold (tokens @ [t]) (relevantRoutes Q u) = (tokens @ [t]) @ zs"
        using add_new_foldl_prefix by blast
      then show ?thesis using True full len add by (simp add: scan rel)
    next
      case room: False
      have "storedRouteScan Q True (tokens @ [t]) u =
          (let full = ?fold (tokens @ [t]) (relevantRoutes Q u) in (take 64 full, length full > 64))"
        using True room
        by (intro IH_add [OF r_def _ t_def u_def refl]) (auto simp: maximumStoredRoutesPerRule_def)
      then show ?thesis using True room add by (simp add: scan rel)
    qed
  next
    case False
    show ?thesis
    proof (cases "r = []")
      case True
      then show ?thesis using len by (simp add: scan rel)
    next
      case ne: False
      have "storedRouteScan Q True tokens u =
          (let full = ?fold tokens (relevantRoutes Q u) in (take 64 full, length full > 64))"
        using False ne len by (intro IH_skip [OF r_def _ t_def u_def refl]) auto
      moreover have "add_new t tokens = tokens" if "t \<in> set tokens" using that by (simp add: add_new_def)
      ultimately show ?thesis using False ne by (auto simp: scan rel)
    qed
  qed
qed

lemma scan_bounds:
  "\<lbrakk>length tokens \<le> 64; distinct tokens; \<forall>t \<in> set tokens. length t \<le> 128 \<and> isIpv4HostOrCidr Q t;
    storedRouteScan Q b tokens rest = (ts, stopped)\<rbrakk> \<Longrightarrow>
   length ts \<le> 64 \<and> distinct ts \<and> (\<forall>t \<in> set ts. length t \<le> 128 \<and> isIpv4HostOrCidr Q t)"
proof (induction Q b tokens rest rule: storedRouteScan.induct)
  case (1 Q b tokens rest)
  note IH = 1(1,2) and prems = 1(3-6)
  define r where "r = dropWhile (isStoredRouteSeparator Q) rest"
  define t where "t = takeWhile (\<lambda>c. \<not> isStoredRouteSeparator Q c) r"
  define u where "u = dropWhile (\<lambda>c. \<not> isStoredRouteSeparator Q c) r"
  define c where "c = ((u \<noteq> [] \<or> b) \<and> length t \<le> maximumStoredRouteLength \<and> isIpv4HostOrCidr Q t \<and> t \<notin> set tokens)"
  have scan: "storedRouteScan Q b tokens rest =
      (if r = [] then (tokens, False)
       else if c then (if length tokens \<ge> 64 then (tokens, True) else storedRouteScan Q b (tokens @ [t]) u)
       else storedRouteScan Q b tokens u)"
    by (subst storedRouteScan.simps)
      (auto simp: Let_def maximumStoredRoutesPerRule_def c_def simp flip: r_def t_def u_def)
  consider (stop) "ts = tokens" | (add) "r \<noteq> []" c "length tokens < 64" "storedRouteScan Q b (tokens @ [t]) u = (ts, stopped)"
    | (skip) "r \<noteq> []" "\<not> c" "storedRouteScan Q b tokens u = (ts, stopped)"
    using prems(4) by (auto simp: scan split: if_splits)
  then show ?case
  proof cases
    case stop
    with prems show ?thesis by simp
  next
    case add
    then show ?thesis using prems
      by (intro IH(1) [OF r_def _ t_def u_def refl])
        (auto simp: c_def maximumStoredRoutesPerRule_def maximumStoredRouteLength_def)
  next
    case skip
    then show ?thesis using prems by (intro IH(2) [OF r_def _ t_def u_def refl]) (auto simp: c_def)
  qed
qed

text \<open>
  \<^bold>\<open>C31.\<close> Scanning a stored value keeps at most 64 distinct IPv4 routes of at most 128 characters.
  For a value within the raw bound the bounded scan agrees with splitting the whole value: it
  returns the first 64 distinct relevant tokens, and it reports complete coverage exactly when
  there are no more.
\<close>

theorem storedRouteTokens_reference:
  assumes "storedRouteTokens Q rawValue = (tokens, covered)"
  shows "length tokens \<le> 64 \<and> distinct tokens \<and> (\<forall>t \<in> set tokens. length t \<le> 128 \<and> isIpv4HostOrCidr Q t)
    \<and> (if length rawValue \<le> 4096
       then let full = foldl (\<lambda>acc t. add_new t acc) [] (relevantRoutes Q rawValue)
            in tokens = take 64 full \<and> (covered \<longleftrightarrow> length full \<le> 64)
       else \<not> covered)"
proof -
  define b where "b = (length rawValue \<le> 4096)"
  obtain ts stopped where scan: "storedRouteScan Q b [] (take 4096 rawValue) = (ts, stopped)"
    by (cases "storedRouteScan Q b [] (take 4096 rawValue)")
  have eq: "tokens = ts" "covered \<longleftrightarrow> b \<and> \<not> stopped"
    using assms scan by (auto simp: storedRouteTokens_def Let_def maximumRawStoredValueLength_def b_def)
  have bounds: "length ts \<le> 64 \<and> distinct ts \<and> (\<forall>t \<in> set ts. length t \<le> 128 \<and> isIpv4HostOrCidr Q t)"
    by (rule scan_bounds [OF _ _ _ scan]) auto
  show ?thesis
  proof (cases b)
    case True
    then have "storedRouteScan Q True [] rawValue = (ts, stopped)" using scan by (simp add: b_def)
    with scan_reference [of "[]" Q rawValue] True eq bounds show ?thesis by (auto simp: Let_def b_def)
  next
    case False
    with eq bounds show ?thesis by (simp add: b_def)
  qed
qed

lemma ref_host: "quad_parse ''8.8.8.8'' = QHostV4 0x08080808"
  using quad_parse_text [of "0x08080808"] ref_texts(2) by (simp add: routeText_def)

theorem storedRouteTokens_reference_witness:
  "storedRouteTokens qt_ref ''8.8.8.8;x 8.8.8.8'' = ([''8.8.8.8''], True)"
proof -
  have hosts: "isIpv4HostOrCidr qt_ref ''8.8.8.8''" "\<not> isIpv4HostOrCidr qt_ref ''x''"
    by (simp_all add: isIpv4HostOrCidr_def Let_def trimmed_def trim_where_def ascii_space_def ref_host)
      (simp add: quad_parse_def split_on_def quad_part_def is_ascii_digit_def char_le_of_char)
  have "tokens_where (isStoredRouteSeparator qt_ref) ''8.8.8.8;x 8.8.8.8'' = [''8.8.8.8'', ''x'', ''8.8.8.8'']"
    by (simp add: tokens_where_def isStoredRouteSeparator_def ascii_space_def)
  then have rel: "relevantRoutes qt_ref ''8.8.8.8;x 8.8.8.8'' = [''8.8.8.8'', ''8.8.8.8'']"
    using hosts by (simp add: relevantRoutes_def maximumStoredRouteLength_def)
  obtain tokens covered where "storedRouteTokens qt_ref ''8.8.8.8;x 8.8.8.8'' = (tokens, covered)" by fastforce
  from this storedRouteTokens_reference [OF this] rel show ?thesis by (simp add: add_new_def)
qed

section \<open>The chosen rule\<close>

text \<open>
  The evidence one rule contributes: the verdict of the safety test and the arguments of
  \<open>considerMatch\<close>, in the order the inspection produces them.
\<close>

record evidence =
  ev_ok :: bool
  ev_source :: string
  ev_rule :: string
  ev_key :: string
  ev_value :: string
  ev_type :: string
  ev_score :: int
  ev_route :: string

definition keyEvidence ::
  "qt \<Rightarrow> string \<Rightarrow> string \<Rightarrow> qhost \<Rightarrow> DomainMatchPolicy \<Rightarrow> string \<Rightarrow> string \<Rightarrow> evidence list" where
  "keyEvidence Q source host address policy key val =
     (let managed = (source = ''managed''); rawRule = trimmed Q key; d = normalizedDomainRule Q rawRule in
      if isIpv4HostOrCidr Q rawRule \<and> routeMatches Q address rawRule then
        [\<lparr> ev_ok = trustedRoute Q managed rawRule, ev_source = source, ev_rule = privacySafeRule Q rawRule,
           ev_key = key, ev_value = val, ev_type = ''address'',
           ev_score = addressScoreBase + matchPrefix Q address rawRule, ev_route = rawRule \<rparr>]
      else if d \<noteq> [] \<and> host = d \<and> (policy = PolicyOnly \<or> is_v4 address) then
        [\<lparr> ev_ok = (policy = PolicyOnly \<or> trustedRoute Q managed (q_hostText Q address)), ev_source = source,
           ev_rule = d, ev_key = key, ev_value = val, ev_type = ''domain'',
           ev_score = domainScoreBase + int (length d), ev_route = q_hostText Q address \<rparr>]
      else [])"

definition storedEvidence :: "qt \<Rightarrow> string \<Rightarrow> qhost \<Rightarrow> string \<Rightarrow> string \<Rightarrow> string \<Rightarrow> evidence" where
  "storedEvidence Q source address key val route =
     \<lparr> ev_ok = trustedRoute Q (source = ''managed'') route, ev_source = source,
       ev_rule = privacySafeRule Q (trimmed Q key), ev_key = key, ev_value = val,
       ev_type = ''resolvedAddress'', ev_score = resolvedAddressScoreBase + matchPrefix Q address route,
       ev_route = route \<rparr>"

definition ruleEvidence ::
  "qt \<Rightarrow> string \<Rightarrow> string \<Rightarrow> qhost \<Rightarrow> DomainMatchPolicy \<Rightarrow> string \<times> string \<Rightarrow> evidence list" where
  "ruleEvidence Q source host address policy entry =
     (if length (fst entry) > maximumInputLength \<or> trimmed Q (fst entry) = [] then []
      else keyEvidence Q source host address policy (fst entry) (snd entry)
           @ map (storedEvidence Q source address (fst entry) (snd entry))
               (filter (routeMatches Q address) (fst (storedRouteTokens Q (snd entry)))))"

definition weigh :: "RuleMatch \<Rightarrow> evidence \<Rightarrow> RuleMatch" where
  "weigh best e = considerMatch best (ev_source e) (ev_rule e) (ev_key e) (ev_value e) (ev_type e) (ev_score e) []"

lemma inspectKey_accepted:
  "mr_accepted (inspectKey Q source host address policy key val r) =
     foldl weigh (mr_accepted r) (filter ev_ok (keyEvidence Q source host address policy key val))"
  by (auto simp: inspectKey_def keyEvidence_def considerResult_def weigh_def Let_def)

lemma inspectStored_accepted:
  "mr_accepted (foldl (inspectStored Q source address key val) r routes) =
     foldl weigh (mr_accepted r)
       (filter ev_ok (map (storedEvidence Q source address key val) (filter (routeMatches Q address) routes)))"
  by (induction routes arbitrary: r)
    (simp_all add: inspectStored_def considerResult_def storedEvidence_def weigh_def)

lemma inspectRule_accepted:
  "mr_accepted (inspectRule Q source host address policy r entry) =
     foldl weigh (mr_accepted r) (filter ev_ok (ruleEvidence Q source host address policy entry))"
  by (cases entry; cases "storedRouteTokens Q (snd entry)")
    (simp add: inspectRule_def ruleEvidence_def Let_def countInspected_def inspectKey_accepted inspectStored_accepted)

lemma inspectRuleList_accepted:
  "mr_accepted (foldl (inspectRule Q source host address policy) r entries) =
     foldl weigh (mr_accepted r) (filter ev_ok (concat (map (ruleEvidence Q source host address policy) entries)))"
  by (induction entries arbitrary: r) (simp_all add: inspectRule_accepted)

lemma inspectRules_accepted:
  "mr_accepted (inspectRules Q rules source host address policy r) =
     foldl weigh (mr_accepted r) (filter ev_ok (concat (map (ruleEvidence Q source host address policy)
       (take (if source = ''managed'' then maximumManagedRulesPerSource else maximumRulesPerSource) rules))))"
  by (simp add: inspectRules_def Let_def inspectRuleList_accepted)

definition matchOf :: "evidence \<Rightarrow> RuleMatch" where
  "matchOf e = \<lparr> rm_matched = True, rm_source = ev_source e, rm_rule = take 255 (ev_rule e),
     rm_configuredRule = ev_key e, rm_matchedValue = take 2048 (ev_value e), rm_matchType = ev_type e,
     rm_safetyTransform = [], rm_matchedValueTruncated = (length (ev_value e) > 2048),
     rm_score = ev_score e \<rparr>"

text \<open>The first piece of evidence with the highest score.\<close>

definition first_best :: "evidence list \<Rightarrow> nat \<Rightarrow> bool" where
  "first_best es i \<longleftrightarrow> i < length es \<and> (\<forall>j < length es. ev_score (es ! j) \<le> ev_score (es ! i))
     \<and> (\<forall>j < i. ev_score (es ! j) < ev_score (es ! i))"

definition locals_first :: "evidence list \<Rightarrow> bool" where
  "locals_first es \<longleftrightarrow> sorted_wrt (\<lambda>a b. ev_source b = ''local'' \<longrightarrow> ev_source a = ''local'') es"

lemma weigh_cases:
  "weigh b e = (if \<not> rm_matched b \<or> ev_score e > rm_score b
       \<or> (ev_score e = rm_score b \<and> ev_source e = ''local'' \<and> rm_source b \<noteq> ''local'')
     then matchOf e else b)"
  by (simp add: weigh_def considerMatch_def matchOf_def Let_def maximumRuleOutputLength_def maximumMatchedValueLength_def)

lemma foldl_weigh:
  "locals_first es \<Longrightarrow>
   (es = [] \<and> foldl weigh noMatch es = noMatch) \<or> (\<exists>i. first_best es i \<and> foldl weigh noMatch es = matchOf (es ! i))"
proof (induction es rule: rev_induct)
  case (snoc e es)
  have lf: "locals_first es" and el: "ev_source e = ''local'' \<Longrightarrow> \<forall>x \<in> set es. ev_source x = ''local''"
    using snoc.prems by (auto simp: locals_first_def sorted_wrt_append)
  show ?case
  proof (cases "es = []")
    case True
    then show ?thesis by (auto simp: weigh_cases noMatch_def first_best_def)
  next
    case False
    with snoc.IH [OF lf] obtain i where i: "first_best es i" "foldl weigh noMatch es = matchOf (es ! i)" by auto
    have len: "i < length es" using i(1) by (simp add: first_best_def)
    have tie: "\<not> (ev_source e = ''local'' \<and> ev_source (es ! i) \<noteq> ''local'')" using el len by auto
    have step: "foldl weigh noMatch (es @ [e]) = (if ev_score e > ev_score (es ! i) then matchOf e else matchOf (es ! i))"
      using i(2) tie by (auto simp: weigh_cases) (auto simp: matchOf_def)
    show ?thesis
    proof (cases "ev_score e > ev_score (es ! i)")
      case True
      have "ev_score (es ! j) < ev_score e" if "j < length es" for j
        using i(1) that True by (auto simp: first_best_def intro: le_less_trans)
      then have "first_best (es @ [e]) (length es)"
        by (auto simp: first_best_def nth_append less_Suc_eq intro: less_imp_le)
      then show ?thesis using step True by (auto intro!: exI [of _ "length es"])
    next
      case not_better: False
      then have "first_best (es @ [e]) i" using i(1) len by (auto simp: first_best_def nth_append less_Suc_eq)
      then show ?thesis using step not_better len by (auto intro!: exI [of _ i] simp: nth_append)
    qed
  qed
qed simp

definition allEvidence ::
  "qt \<Rightarrow> (string \<times> string) list \<Rightarrow> (string \<times> string) list \<Rightarrow> string \<Rightarrow> qhost \<Rightarrow> DomainMatchPolicy \<Rightarrow> evidence list" where
  "allEvidence Q localRules managedRules host address policy =
     (let normalized = normalizeTargetImpl Q host BareHostOrAddress;
          h = (if nt_error normalized = [] \<and> nt_literalAddress normalized = QHostNull then nt_host normalized else [])
      in concat (map (ruleEvidence Q ''local'' h address policy) (take 512 localRules))
         @ concat (map (ruleEvidence Q ''managed'' h address policy) (take 4096 managedRules)))"

lemma ruleEvidence_source: "e \<in> set (ruleEvidence Q source host address policy entry) \<Longrightarrow> ev_source e = source"
  by (auto simp: ruleEvidence_def keyEvidence_def storedEvidence_def Let_def split: if_splits)

lemma allEvidence_locals_first: "locals_first (filter ev_ok (allEvidence Q l m host address policy))"
proof -
  have same: "sorted_wrt R es" if "\<forall>a \<in> set es. \<forall>b \<in> set es. R a b" for R and es :: "evidence list"
    using that by (induction es) auto
  show ?thesis
    unfolding locals_first_def allEvidence_def Let_def filter_append sorted_wrt_append
    by (intro conjI same) (auto dest!: ruleEvidence_source)
qed

lemma matchRules_accepted:
  "mr_accepted (matchRules Q l m host address policy) =
     foldl weigh noMatch (filter ev_ok (allEvidence Q l m host address policy))"
  by (simp add: matchRules_def allEvidence_def Let_def inspectRules_accepted emptyResult_def
      maximumManagedRulesPerSource_def maximumRulesPerSource_def)

text \<open>
  \<^bold>\<open>C12.\<close> The inspector is deterministic and local-first: the accepted match is the first piece of
  safe evidence with the highest score, where the evidence of the local rules precedes that of
  the managed rules; it reports no match exactly when there is no safe evidence.
\<close>

theorem matchRules_first_best:
  "let es = filter ev_ok (allEvidence Q localRules managedRules host address policy);
       m = mr_accepted (matchRules Q localRules managedRules host address policy)
   in if es = [] then \<not> rm_matched m
      else \<exists>i. first_best es i \<and> m = matchOf (es ! i)"
  using foldl_weigh [OF allEvidence_locals_first, of Q localRules managedRules host address policy]
  by (auto simp: Let_def matchRules_accepted noMatch_def)

section \<open>Safety of a client route\<close>

lemma routeOverlaps_same: "routeOverlapsIpv4Range = ipv4RouteOverlapsRange"
  by (simp add: fun_eq_iff routeOverlapsIpv4Range_def ipv4RouteOverlapsRange_def)

lemma parseIpv4Route_range: "parseIpv4Route Q route = Some (a, p) \<Longrightarrow> p \<le> 32"
  by (auto simp: parseIpv4Route_def Let_def split: if_splits option.splits)

lemma client_ranges: "set specialRanges \<subseteq> insert (0x64400000, 10) (insert (0xa9fe0000, 16) (set clientForbiddenRanges))"
  by (simp add: specialRanges_def clientForbiddenRanges_def)

lemma mask_32: "ipv4Mask 32 = - 1"
  by (simp add: ipv4Mask_eq)


lemma ref_parseIpv4: "parseIpv4Route qt_ref ''8.8.8.8'' = Some (0x08080808, 32)"
  using ref_host
  by (simp add: parseIpv4Route_def trimmed_def trim_where_def ascii_space_def split_on_def)


section \<open>Coverage\<close>

text \<open>A rule is covered when its key is within bounds and its stored value was scanned completely.\<close>

definition ruleCovered :: "qt \<Rightarrow> string \<times> string \<Rightarrow> bool" where
  "ruleCovered Q entry \<longleftrightarrow> length (fst entry) \<le> 2048
     \<and> (trimmed Q (fst entry) = [] \<or> snd (storedRouteTokens Q (snd entry)))"

lemma considerResult_frame [simp]:
  "mr_coverageComplete (considerResult ok src rule key v ty sc rej r) = mr_coverageComplete r"
  "mr_localRulesInspected (considerResult ok src rule key v ty sc rej r) = mr_localRulesInspected r"
  "mr_managedRulesInspected (considerResult ok src rule key v ty sc rej r) = mr_managedRulesInspected r"
  by (simp_all add: considerResult_def)

lemma inspectKey_frame [simp]:
  "mr_coverageComplete (inspectKey Q src host a pol key v r) = mr_coverageComplete r"
  "mr_localRulesInspected (inspectKey Q src host a pol key v r) = mr_localRulesInspected r"
  "mr_managedRulesInspected (inspectKey Q src host a pol key v r) = mr_managedRulesInspected r"
  by (simp_all add: inspectKey_def Let_def)

lemma inspectStored_frame [simp]:
  "mr_coverageComplete (foldl (inspectStored Q src a key v) r routes) = mr_coverageComplete r"
  "mr_localRulesInspected (foldl (inspectStored Q src a key v) r routes) = mr_localRulesInspected r"
  "mr_managedRulesInspected (foldl (inspectStored Q src a key v) r routes) = mr_managedRulesInspected r"
  by (induction routes arbitrary: r) (simp_all add: inspectStored_def)

lemma inspectRule_frame:
  "mr_coverageComplete (inspectRule Q src host a pol r entry) \<longleftrightarrow> mr_coverageComplete r \<and> ruleCovered Q entry"
  "mr_localRulesInspected (inspectRule Q src host a pol r entry) =
     mr_localRulesInspected r + (if src = ''managed'' then 0 else 1)"
  "mr_managedRulesInspected (inspectRule Q src host a pol r entry) =
     mr_managedRulesInspected r + (if src = ''managed'' then 1 else 0)"
  by (cases entry; cases "storedRouteTokens Q (snd entry)";
      auto simp: inspectRule_def Let_def countInspected_def ruleCovered_def maximumInputLength_def)+

lemma inspectRuleList_frame:
  "mr_coverageComplete (foldl (inspectRule Q src host a pol) r es) \<longleftrightarrow>
     mr_coverageComplete r \<and> (\<forall>e \<in> set es. ruleCovered Q e)"
  "mr_localRulesInspected (foldl (inspectRule Q src host a pol) r es) =
     mr_localRulesInspected r + (if src = ''managed'' then 0 else length es)"
  "mr_managedRulesInspected (foldl (inspectRule Q src host a pol) r es) =
     mr_managedRulesInspected r + (if src = ''managed'' then length es else 0)"
  by (induction es arbitrary: r) (auto simp: inspectRule_frame)

text \<open>
  The inspection is bounded and honest about it: it looks at no more than 512 local and 4096
  managed rules, and it reports complete coverage exactly when no rule was left out, every key was
  within bounds and every stored value was scanned to its end.
\<close>

theorem matchRules_coverage:
  "let r = matchRules Q localRules managedRules host address policy
   in mr_localRulesInspected r = min 512 (length localRules)
      \<and> mr_managedRulesInspected r = min 4096 (length managedRules)
      \<and> (mr_coverageComplete r \<longleftrightarrow> length localRules \<le> 512 \<and> length managedRules \<le> 4096
           \<and> list_all (ruleCovered Q) localRules \<and> list_all (ruleCovered Q) managedRules)"
proof -
  have cov: "(\<forall>e \<in> set (take n xs). ruleCovered Q e) \<and> length xs \<le> n \<longleftrightarrow> length xs \<le> n \<and> list_all (ruleCovered Q) xs"
    for n and xs :: "(string \<times> string) list" by (auto simp: list_all_iff)
  show ?thesis
    using cov [of 512 localRules] cov [of 4096 managedRules]
    by (auto simp: matchRules_def Let_def inspectRules_def inspectRuleList_frame emptyResult_def
        maximumManagedRulesPerSource_def maximumRulesPerSource_def list_all_iff)
qed

end
