(* ===== verification/Dns_Convergence.thy ===== *)
theory Dns_Convergence
  imports Qt_Types
begin

text \<open>
  The timing and progress rules of the client-side resolution of managed domains
  (\<open>core/utils/managedDnsConvergence.h\<close>): when a refresh is due, the gate that paces reconnects, and
  the state of one convergence cycle. Instants are milliseconds since the epoch.
\<close>

section \<open>Delays and refresh intervals\<close>

definition int_max :: int where "int_max = 2147483647"

definition msecsTo :: "qdatetime \<Rightarrow> qdatetime \<Rightarrow> int" where
  "msecsTo a b = (case (a, b) of (Some x, Some y) \<Rightarrow> y - x | _ \<Rightarrow> 0)"

definition initialDelayMs :: "qt \<Rightarrow> string \<Rightarrow> qdatetime \<Rightarrow> int \<Rightarrow> int" where
  "initialDelayMs Q retryAfterIso nowUtc defaultDelayMs =
     (let retryAfter = q_fromIso Q retryAfterIso in
      if \<not> dt_valid retryAfter then defaultDelayMs
      else let retryDelayMs = msecsTo nowUtc retryAfter in
           if retryDelayMs \<le> 0 then defaultDelayMs else min retryDelayMs int_max)"

fun pendingLoop :: "qt \<Rightarrow> jobject \<Rightarrow> string list \<Rightarrow> bool \<Rightarrow> string list \<Rightarrow> string list \<Rightarrow> string list" where
  "pendingLoop Q baseline persisted refreshAll pending [] = pending"
| "pendingLoop Q baseline persisted refreshAll pending (domain # domains) =
     (if domain \<in> set pending then pendingLoop Q baseline persisted refreshAll pending domains
      else if refreshAll \<or> domain \<in> set persisted \<or> \<not> obj_contains baseline domain
         \<or> trimmed Q (jstr (obj_value baseline domain)) = []
      then pendingLoop Q baseline persisted refreshAll (pending @ [domain]) domains
      else pendingLoop Q baseline persisted refreshAll pending domains)"

definition pendingDomainsForCycle ::
  "qt \<Rightarrow> string list \<Rightarrow> jobject \<Rightarrow> string list \<Rightarrow> bool \<Rightarrow> string list" where
  "pendingDomainsForCycle Q domains baseline persistedPending refreshAll =
     pendingLoop Q baseline persistedPending refreshAll [] domains"

definition fullSweepDue :: "qt \<Rightarrow> string \<Rightarrow> qdatetime \<Rightarrow> int \<Rightarrow> bool" where
  "fullSweepDue Q lastFullSweepAtIso nowUtc refreshIntervalSeconds =
     (if refreshIntervalSeconds \<le> 0 then True
      else
        let lastFullSweepAt = q_fromIso Q lastFullSweepAtIso in
        if \<not> dt_valid lastFullSweepAt then True
        else if dt_less (dt_addSecs (10 * 60) nowUtc) lastFullSweepAt then True
        else dt_le (dt_addSecs refreshIntervalSeconds lastFullSweepAt) nowUtc)"

definition completeCacheRefreshDue :: "qt \<Rightarrow> string \<Rightarrow> string \<Rightarrow> qdatetime \<Rightarrow> int \<Rightarrow> bool" where
  "completeCacheRefreshDue Q lastFullSweepAtIso resolvedAtIso nowUtc refreshIntervalSeconds =
     fullSweepDue Q
       (if dt_valid (q_fromIso Q lastFullSweepAtIso) then lastFullSweepAtIso else resolvedAtIso)
       nowUtc refreshIntervalSeconds"

section \<open>The reconnect gate\<close>

record ReconnectGate =
  gateServerId :: string
  immediateAvailable :: bool
  gatePending :: bool
  lastReconnectMs :: int

record GateRequest =
  accepted :: bool
  newlyPending :: bool
  delayMs :: int

definition initialGate :: ReconnectGate where
  "initialGate = \<lparr>gateServerId = [], immediateAvailable = False, gatePending = False, lastReconnectMs = -1\<rparr>"

definition beginSession :: "string \<Rightarrow> ReconnectGate \<Rightarrow> ReconnectGate" where
  "beginSession serverId g = \<lparr>gateServerId = serverId, immediateAvailable = serverId \<noteq> [],
     gatePending = False, lastReconnectMs = -1\<rparr>"

definition clearGate :: "ReconnectGate \<Rightarrow> ReconnectGate" where
  "clearGate g = \<lparr>gateServerId = [], immediateAvailable = False, gatePending = False, lastReconnectMs = -1\<rparr>"

definition remainingDelayMs :: "ReconnectGate \<Rightarrow> int \<Rightarrow> int \<Rightarrow> int" where
  "remainingDelayMs g nowMs minimumIntervalMs =
     (if immediateAvailable g \<or> lastReconnectMs g < 0 then 0
      else let elapsedMs = max 0 (nowMs - lastReconnectMs g) in max 0 (minimumIntervalMs - elapsedMs))"

definition requestReconnect :: "ReconnectGate \<Rightarrow> string \<Rightarrow> int \<Rightarrow> int \<Rightarrow> ReconnectGate \<times> GateRequest" where
  "requestReconnect g serverId nowMs minimumIntervalMs =
     (if serverId = [] \<or> serverId \<noteq> gateServerId g \<or> nowMs < 0 \<or> minimumIntervalMs < 0
      then (g, \<lparr>accepted = False, newlyPending = False, delayMs = 0\<rparr>)
      else if gatePending g
      then (g, \<lparr>accepted = True, newlyPending = False, delayMs = remainingDelayMs g nowMs minimumIntervalMs\<rparr>)
      else (g\<lparr>gatePending := True\<rparr>,
            \<lparr>accepted = True, newlyPending = True,
             delayMs = remainingDelayMs (g\<lparr>gatePending := True\<rparr>) nowMs minimumIntervalMs\<rparr>))"

definition takeDue :: "ReconnectGate \<Rightarrow> string \<Rightarrow> int \<Rightarrow> int \<Rightarrow> ReconnectGate \<times> bool" where
  "takeDue g serverId nowMs minimumIntervalMs =
     (if \<not> gatePending g \<or> serverId \<noteq> gateServerId g \<or> 0 < remainingDelayMs g nowMs minimumIntervalMs
      then (g, False) else (g\<lparr>gatePending := False\<rparr>, True))"

definition recordReconnect :: "ReconnectGate \<Rightarrow> string \<Rightarrow> int \<Rightarrow> ReconnectGate" where
  "recordReconnect g serverId nowMs =
     (if serverId \<noteq> gateServerId g \<or> nowMs < 0 then g
      else g\<lparr>immediateAvailable := False, lastReconnectMs := nowMs\<rparr>)"

definition cancelPending :: "ReconnectGate \<Rightarrow> ReconnectGate" where
  "cancelPending g = g\<lparr>gatePending := False\<rparr>"

section \<open>One convergence cycle\<close>

record State =
  active :: bool
  stateServerId :: string
  sourceDigest :: string
  domains :: "string list"
  pending :: "string list"
  cache :: jobject
  completedWaves :: int
  finalized :: bool

definition initialState :: State where
  "initialState = \<lparr>active = False, stateServerId = [], sourceDigest = [], domains = [], pending = [],
     cache = [], completedWaves = 0, finalized = False\<rparr>"

definition beginState :: "string \<Rightarrow> string \<Rightarrow> string list \<Rightarrow> jobject \<Rightarrow> string list \<Rightarrow> State" where
  "beginState serverId digest ds baseline pendingDomains =
     \<lparr>active = True, stateServerId = serverId, sourceDigest = digest, domains = ds,
      pending = pendingDomains, cache = baseline, completedWaves = 0, finalized = False\<rparr>"

definition clearState :: "State \<Rightarrow> State" where
  "clearState s = \<lparr>active = False, stateServerId = [], sourceDigest = [], domains = [], pending = [],
     cache = [], completedWaves = 0, finalized = False\<rparr>"

definition matches :: "State \<Rightarrow> string \<Rightarrow> string \<Rightarrow> bool" where
  "matches s serverId digest \<longleftrightarrow> active s \<and> stateServerId s = serverId \<and> sourceDigest s = digest"

definition completeState :: "State \<Rightarrow> bool" where
  "completeState s \<longleftrightarrow> active s \<and> pending s = []"

definition takePendingWave :: "State \<Rightarrow> State \<times> string list" where
  "takePendingWave s = (s\<lparr>pending := []\<rparr>, pending s)"

definition recordSuccess :: "State \<Rightarrow> string \<Rightarrow> string \<Rightarrow> State \<times> bool" where
  "recordSuccess s domain canonicalAddresses =
     (if \<not> active s \<or> domain \<notin> set (domains s) \<or> canonicalAddresses = [] then (s, False)
      else (s\<lparr>cache := obj_insert domain (JString canonicalAddresses) (cache s)\<rparr>, True))"

definition recordFailure :: "State \<Rightarrow> string \<Rightarrow> State" where
  "recordFailure s domain =
     (if active s \<and> domain \<in> set (domains s) \<and> domain \<notin> set (pending s)
      then s\<lparr>pending := pending s @ [domain]\<rparr> else s)"

definition finishWave :: "State \<Rightarrow> State" where
  "finishWave s = (if active s \<and> \<not> finalized s then s\<lparr>completedWaves := completedWaves s + 1\<rparr> else s)"

definition shouldRetry :: "State \<Rightarrow> int \<Rightarrow> bool" where
  "shouldRetry s maximumRetryWaves \<longleftrightarrow>
     active s \<and> \<not> finalized s \<and> pending s \<noteq> [] \<and> completedWaves s \<le> maximumRetryWaves"

definition tryFinalize :: "State \<Rightarrow> State \<times> bool" where
  "tryFinalize s = (if \<not> active s \<or> finalized s then (s, False) else (s\<lparr>finalized := True\<rparr>, True))"

section \<open>The gate as a machine\<close>

datatype GateEvent =
  BeginSession string | ClearGate | Request string int int | TakeDue string int int
| RecordReconnect string int | CancelPending

fun gateStep :: "ReconnectGate \<Rightarrow> GateEvent \<Rightarrow> ReconnectGate \<times> bool" where
  "gateStep g (BeginSession sid) = (beginSession sid g, False)"
| "gateStep g ClearGate = (clearGate g, False)"
| "gateStep g (Request sid now interval) = (fst (requestReconnect g sid now interval), False)"
| "gateStep g (TakeDue sid now interval) = takeDue g sid now interval"
| "gateStep g (RecordReconnect sid now) = (recordReconnect g sid now, False)"
| "gateStep g CancelPending = (cancelPending g, False)"

fun isRequest :: "GateEvent \<Rightarrow> bool" where
  "isRequest (Request _ _ _) = True" | "isRequest _ = False"

fun startsSession :: "GateEvent \<Rightarrow> bool" where
  "startsSession (BeginSession _) = True" | "startsSession ClearGate = True" | "startsSession _ = False"

fun isRecord :: "GateEvent \<Rightarrow> bool" where
  "isRecord (RecordReconnect _ _) = True" | "isRecord _ = False"

lemmas gate_defs = beginSession_def clearGate_def requestReconnect_def takeDue_def recordReconnect_def
  cancelPending_def

interpretation gate: one_shot_machine gateStep "\<lambda>due. due" gatePending isRequest
proof unfold_locales
  fix g e
  show "snd (gateStep g e) \<Longrightarrow> gatePending g" by (cases e) (auto simp: gate_defs split: if_splits)
  show "snd (gateStep g e) \<Longrightarrow> \<not> gatePending (fst (gateStep g e))" by (cases e) (auto simp: gate_defs split: if_splits)
  show "\<not> gatePending g \<Longrightarrow> \<not> isRequest e \<Longrightarrow> \<not> gatePending (fst (gateStep g e))"
    by (cases e) (auto simp: gate_defs split: if_splits)
qed

text \<open>Within a session, only a recorded reconnect moves the floor.\<close>

lemma floor_kept:
  "(\<forall>e \<in> set es. \<not> startsSession e \<and> \<not> isRecord e) \<Longrightarrow>
   gateServerId (run gateStep g es) = gateServerId g
   \<and> immediateAvailable (run gateStep g es) = immediateAvailable g
   \<and> lastReconnectMs (run gateStep g es) = lastReconnectMs g"
proof (induction es arbitrary: g)
  case (Cons e es)
  have "gateServerId (fst (gateStep g e)) = gateServerId g
    \<and> immediateAvailable (fst (gateStep g e)) = immediateAvailable g
    \<and> lastReconnectMs (fst (gateStep g e)) = lastReconnectMs g"
    using Cons.prems by (cases e) (auto simp: gate_defs split: if_splits)
  with Cons show ?case by simp
qed simp

lemma takeDue_paced:
  assumes "gateServerId g = sid" "0 \<le> t" "\<forall>e \<in> set es. \<not> startsSession e \<and> \<not> isRecord e"
    and "snd (takeDue (run gateStep (recordReconnect g sid t) es) sid' now interval)"
    and "0 < interval"
  shows "sid' = sid \<and> t + interval \<le> now"
  using assms floor_kept [OF assms(3), of "recordReconnect g sid t"]
  by (auto simp: takeDue_def recordReconnect_def remainingDelayMs_def Let_def max_def split: if_splits)

section \<open>Properties\<close>

text \<open>
  C36. Reconnects are paced. After a reconnect recorded at \<open>t\<close>, and until the next one is recorded or
  the session changes, the gate releases a reconnect only for the same server and not before
  \<open>t + interval\<close>; and between two requests it releases at most one.
\<close>
theorem reconnects_are_paced:
  assumes "gateServerId g = sid" and "0 \<le> t"
    and "\<forall>e \<in> set es. \<not> startsSession e \<and> \<not> isRecord e"
    and "0 < interval"
  shows "(snd (takeDue (run gateStep (recordReconnect g sid t) es) sid' now interval)
      \<longrightarrow> sid' = sid \<and> t + interval \<le> now)
    \<and> ((\<forall>e \<in> set es. \<not> isRequest e)
      \<longrightarrow> length (filter (\<lambda>due. due) (outs gateStep (recordReconnect g sid t) es)) \<le> 1)"
  using takeDue_paced [OF assms(1-3) _ assms(4)] gate.at_most_once by blast

theorem reconnects_are_paced_witness:
  "snd (takeDue (run gateStep (recordReconnect (beginSession ''srv'' initialGate) ''srv'' 0)
      [Request ''srv'' 10 300]) ''srv'' 300 300)
   \<and> \<not> snd (takeDue (run gateStep (recordReconnect (beginSession ''srv'' initialGate) ''srv'' 0)
      [Request ''srv'' 10 300]) ''srv'' 299 300)"
  using reconnects_are_paced [of "beginSession ''srv'' initialGate" "''srv''" 0 "[Request ''srv'' 10 300]" 300 "''srv''" 299]
  by (simp add: gate_defs remainingDelayMs_def)

end
