(* ===== verification/Managed_Resolve.thy ===== *)
theory Managed_Resolve
  imports Dns_Convergence Managed_Policy Qt_Reference
begin

text \<open>
  The client-side resolution of managed domains by the connection controller
  (\<open>core/controllers/connectionController.cpp\<close>): the helpers on stored sites, and the cycle of
  schedule, start, lookup, timeout and finish as a machine over the controller's fields. A handler
  runs at one instant; what it reads from the repositories, the clock and the lookup service is the
  record \<open>World\<close>, and what it asks of them is a list of effects.
\<close>

section \<open>Sites and addresses\<close>

definition isServerRoutingRulesSitesValue :: "json \<Rightarrow> bool" where
  "isServerRoutingRulesSitesValue v \<longleftrightarrow> is_object v \<or> is_array v"

definition normalizedSite :: "qt \<Rightarrow> jobject \<Rightarrow> string \<times> json \<Rightarrow> jobject" where
  "normalizedSite Q sites kv =
     (let site = q_toLower Q (trimmed Q (fst kv)) in
      if site \<noteq> [] \<and> is_string (snd kv) then obj_insert site (JString (jstr (snd kv))) sites else sites)"

definition normalizedItem :: "qt \<Rightarrow> jobject \<Rightarrow> json \<Rightarrow> jobject" where
  "normalizedItem Q sites item =
     (if \<not> is_object item then sites
      else
        let siteObject = to_object item; site = q_toLower Q (trimmed Q (siteOfItem siteObject)) in
        if site \<noteq> [] then obj_insert site (JString (jstr (obj_value siteObject ''ip''))) sites else sites)"

definition normalizedServerRoutingRulesSites :: "qt \<Rightarrow> json \<Rightarrow> jobject" where
  "normalizedServerRoutingRulesSites Q v =
     (case v of
        JObject ob \<Rightarrow> foldl (normalizedSite Q) [] ob
      | JArray items \<Rightarrow> foldl (normalizedItem Q) [] items
      | _ \<Rightarrow> [])"

definition serverRoutingRulesExceptSitesValue :: "jobject \<Rightarrow> json" where
  "serverRoutingRulesExceptSitesValue payload =
     (let v = obj_value payload ''serverExcept'';
          v = (if \<not> isServerRoutingRulesSitesValue v
               then obj_value payload ''managedSplitTunnelExceptSites'' else v)
      in if \<not> isServerRoutingRulesSitesValue v
         then obj_value payload ''managedSplitTunnelExceptSourceSites'' else v)"

definition serverRoutingRulesSourceSitesValue :: "jobject \<Rightarrow> json" where
  "serverRoutingRulesSourceSitesValue payload =
     (let v = obj_value payload ''managedSplitTunnelExceptSourceSites'';
          v = (if \<not> isServerRoutingRulesSitesValue v
               then obj_value payload ''managedSplitTunnelExceptSites'' else v)
      in if \<not> isServerRoutingRulesSitesValue v then obj_value payload ''serverExcept'' else v)"

definition serverRoutingRulesExceptSites :: "qt \<Rightarrow> jobject \<Rightarrow> jobject" where
  "serverRoutingRulesExceptSites Q payload =
     (let (sites, valid) = canonicalSourceSites Q (serverRoutingRulesExceptSitesValue payload)
      in if valid then sites else [])"

definition serverRoutingRulesSourceSites :: "qt \<Rightarrow> jobject \<Rightarrow> jobject" where
  "serverRoutingRulesSourceSites Q payload =
     (let (sites, valid) = canonicalSourceSites Q (serverRoutingRulesSourceSitesValue payload)
      in if valid then sites else [])"

definition hasServerRoutingRulesExceptSites :: "jobject \<Rightarrow> bool" where
  "hasServerRoutingRulesExceptSites payload \<longleftrightarrow>
     isServerRoutingRulesSitesValue (obj_value payload ''serverExcept'')
     \<or> isServerRoutingRulesSitesValue (obj_value payload ''managedSplitTunnelExceptSourceSites'')
     \<or> isServerRoutingRulesSitesValue (obj_value payload ''managedSplitTunnelExceptSites'')"

definition isValidServerRoutingRulesSitesValue :: "qt \<Rightarrow> json \<Rightarrow> bool" where
  "isValidServerRoutingRulesSitesValue Q v = snd (canonicalSourceSites Q v)"

definition canonicalManagedRoutePolicyContent :: "jobject \<Rightarrow> bool \<Rightarrow> jobject" where
  "canonicalManagedRoutePolicyContent sourceSites forceEnabled =
     obj_insert ''managedSplitTunnelForceEnabled'' (JBool forceEnabled)
       (obj_insert ''managedSplitTunnelExceptSourceSites'' (JObject sourceSites)
         (obj_insert ''schemaVersion'' (jint 1) []))"

definition splitTunnelStoredIps :: "qt \<Rightarrow> string \<Rightarrow> string list" where
  "splitTunnelStoredIps Q v =
     (let (routes, valid) = validatedManagedRouteTokens Q v in if valid then routes else [])"

definition mergedStoredIps :: "qt \<Rightarrow> string list \<Rightarrow> string" where
  "mergedStoredIps Q vs =
     join '', '' (foldl (\<lambda>ips v. foldl (\<lambda>ips ip. add_new ip ips) ips (splitTunnelStoredIps Q v)) [] vs)"

definition sitesBoundToSource :: "jobject \<Rightarrow> jobject \<Rightarrow> jobject" where
  "sitesBoundToSource sites sourceSites =
     foldl (\<lambda>bounded (k, _). if obj_contains sites k then obj_insert k (obj_value sites k) bounded else bounded)
       [] sourceSites"

definition clientResolvedSitesBoundToSource :: "qt \<Rightarrow> jobject \<Rightarrow> jobject \<Rightarrow> jobject" where
  "clientResolvedSitesBoundToSource Q serverConfig sourceSites =
     (let clientResolved = normalizedServerRoutingRulesSites Q
            (obj_value serverConfig ''managedSplitTunnelClientResolvedExceptSites'');
          (bounded, valid) = canonicalSourceSites Q (JObject (sitesBoundToSource clientResolved sourceSites))
      in if valid then bounded else [])"

definition checkIPv4Format :: "qt \<Rightarrow> string \<Rightarrow> bool" where
  "checkIPv4Format Q ip \<longleftrightarrow> ip \<noteq> [] \<and> count_list ip (CHR ''.'') = 3 \<and> is_v4 (q_parseHost Q ip)"

definition checkIpSubnetFormat :: "qt \<Rightarrow> string \<Rightarrow> bool" where
  "checkIpSubnetFormat Q ip =
     (if CHR ''/'' \<notin> set ip then checkIPv4Format Q ip
      else
        let parts = split_on (CHR ''/'') ip in
        if length parts \<noteq> 2 then False
        else (case q_toInt Q (parts ! 1) of
                None \<Rightarrow> False
              | Some subnet \<Rightarrow> 0 \<le> subnet \<and> subnet \<le> 32 \<and> checkIPv4Format Q (parts ! 0)))"

text \<open>\<open>domainPattern\<close> is the exact match of the domain expression by the regular-expression engine.\<close>

definition isManagedResolveDomain :: "qt \<Rightarrow> (string \<Rightarrow> bool) \<Rightarrow> string \<Rightarrow> bool" where
  "isManagedResolveDomain Q domainPattern site \<longleftrightarrow> \<not> checkIpSubnetFormat Q site \<and> domainPattern site"

definition managedResolveDomains :: "qt \<Rightarrow> (string \<Rightarrow> bool) \<Rightarrow> jobject \<Rightarrow> string list" where
  "managedResolveDomains Q domainPattern sourceSites =
     foldl (\<lambda>ds (k, _). let site = q_toLower Q (trimmed Q k) in
                        if isManagedResolveDomain Q domainPattern site then add_new site ds else ds)
       [] sourceSites"

definition persistedManagedResolvePendingDomains :: "qt \<Rightarrow> jobject \<Rightarrow> string list \<Rightarrow> string list" where
  "persistedManagedResolvePendingDomains Q serverConfig ds =
     (case obj_value serverConfig ''managedSplitTunnelClientResolvePendingSites'' of
        JArray items \<Rightarrow>
          foldl (\<lambda>pend item. let domain = q_toLower Q (trimmed Q (jstr item)) in
                             if domain \<in> set ds then add_new domain pend else pend) [] items
      | _ \<Rightarrow> [])"

definition resolveIntervalSeconds :: int where "resolveIntervalSeconds = 24 * 60 * 60"
definition resolveInitialDelayMs :: int where "resolveInitialDelayMs = 2000"
definition resolveJitterMs :: int where "resolveJitterMs = 30 * 1000"
definition resolveRetryBaseMs :: int where "resolveRetryBaseMs = 15 * 1000"
definition resolveRetryMaxMs :: int where "resolveRetryMaxMs = 5 * 60 * 1000"
definition resolveRetryJitterMs :: int where "resolveRetryJitterMs = 5 * 1000"
definition resolveMaxBackoffExponent :: int where "resolveMaxBackoffExponent = 5"
definition resolveLookupTimeoutMs :: int where "resolveLookupTimeoutMs = 8 * 1000"
definition resolveMaxRetryWaves :: int where "resolveMaxRetryWaves = 5"
definition resolveCycleDeadlineMs :: int where "resolveCycleDeadlineMs = 10 * 60 * 1000"

definition shouldRunClientManagedResolve ::
  "qt \<Rightarrow> (string \<Rightarrow> bool) \<Rightarrow> jobject \<Rightarrow> jobject \<Rightarrow> qdatetime \<Rightarrow> bool" where
  "shouldRunClientManagedResolve Q domainPattern serverConfig sourceSites nowUtc =
     (let ds = managedResolveDomains Q domainPattern sourceSites in
      if ds = [] then False
      else
        let resolved = clientResolvedSitesBoundToSource Q serverConfig sourceSites in
        if list_ex (\<lambda>d. \<not> obj_contains resolved d) ds then True
        else if \<not> dt_valid (q_fromIso Q (jstr (obj_value serverConfig ''managedSplitTunnelClientResolvedAt'')))
        then True
        else completeCacheRefreshDue Q
               (jstr (obj_value serverConfig ''managedSplitTunnelClientResolveLastFullSweepAt''))
               (jstr (obj_value serverConfig ''managedSplitTunnelClientResolvedAt''))
               nowUtc resolveIntervalSeconds)"

fun ipv4AddressLoop :: "qt \<Rightarrow> string list \<Rightarrow> qhost list \<Rightarrow> string list" where
  "ipv4AddressLoop Q ips [] = ips"
| "ipv4AddressLoop Q ips (addr # addrs) =
     (let route = q_hostText Q addr in
      if is_v4 addr \<and> isAllowedManagedIpv4Route Q route \<and> route \<notin> set ips
      then let ips = ips @ [route] in
           if maximumRoutesPerSite \<le> length ips then ips else ipv4AddressLoop Q ips addrs
      else ipv4AddressLoop Q ips addrs)"

text \<open>The answer of a host lookup: an error, or the addresses.\<close>

type_synonym lookup = "qhost list option"

definition hostInfoIpv4Addresses :: "qt \<Rightarrow> lookup \<Rightarrow> string list" where
  "hostInfoIpv4Addresses Q hostInfo = (case hostInfo of None \<Rightarrow> [] | Some addrs \<Rightarrow> ipv4AddressLoop Q [] addrs)"

section \<open>The controller's fields and surroundings\<close>

text \<open>What the controller compares before and after a cycle.\<close>

record RouteView =
  viewMode :: RouteMode
  viewIps :: "string list"
  viewPolicyRevision :: string
  viewContentHash :: string

record World =
  connected :: bool
  servers :: "(string \<times> jobject) list"
  currentServerId :: string
  now :: int
  jitter :: int
  newLookupId :: int
  isoDate :: "int \<Rightarrow> string"
  domainPattern :: "string \<Rightarrow> bool"
  localSplitEnabled :: bool
  localRouteMode :: RouteMode
  confirmedView :: "RouteView option"
  effectiveView :: "jobject \<Rightarrow> bool \<Rightarrow> RouteMode \<Rightarrow> RouteView"

record Snapshot =
  oldLocalSplitEnabled :: bool
  oldLocalRouteMode :: RouteMode
  oldStateConfirmed :: bool
  oldView :: RouteView

record Resolver =
  generation :: int
  resolveTimer :: "int option"
  lookupTimer :: "int option"
  lookupId :: int
  inProgress :: bool
  resolveServerId :: string
  queue :: "string list"
  currentDomain :: string
  convergence :: State
  snapshot :: Snapshot
  snapshotCaptured :: bool
  isFullSweep :: bool
  deadline :: int
  retryCount :: int

datatype ResolveEffect =
  AbortLookup int
| LookupHost string
| EditServerJson nat jobject
| RulesChanged nat
| RequestReconciliation string string

type_synonym handled = "Resolver \<times> ResolveEffect list"

fun index_of_id :: "string \<Rightarrow> (string \<times> jobject) list \<Rightarrow> nat option" where
  "index_of_id sid [] = None"
| "index_of_id sid (s # ss) = (if fst s = sid then Some 0 else map_option Suc (index_of_id sid ss))"

definition serverConfigOf :: "World \<Rightarrow> string \<Rightarrow> (nat \<times> jobject) option" where
  "serverConfigOf w sid = map_option (\<lambda>i. (i, snd (servers w ! i))) (index_of_id sid (servers w))"

definition isCurrentConnectionServerId :: "World \<Rightarrow> string \<Rightarrow> bool" where
  "isCurrentConnectionServerId w sid \<longleftrightarrow> sid \<noteq> [] \<and> currentServerId w = sid"

definition isCurrentConnectionServerIndex :: "World \<Rightarrow> int \<Rightarrow> bool" where
  "isCurrentConnectionServerIndex w i \<longleftrightarrow>
     0 \<le> i \<and> nat i < length (servers w) \<and> isCurrentConnectionServerId w (fst (servers w ! nat i))"

definition hasExpired :: "World \<Rightarrow> Resolver \<Rightarrow> bool" where
  "hasExpired w r \<longleftrightarrow> deadline r \<le> now w"

definition remainingTime :: "World \<Rightarrow> Resolver \<Rightarrow> int" where
  "remainingTime w r = max 0 (deadline r - now w)"

section \<open>Handlers\<close>

definition cancelClientManagedSitesResolve :: "Resolver \<Rightarrow> handled" where
  "cancelClientManagedSitesResolve r =
     (r\<lparr>generation := generation r + 1, resolveTimer := None, lookupTimer := None, lookupId := -1,
        inProgress := False, resolveServerId := [], queue := [], currentDomain := [],
        convergence := clearState (convergence r), snapshotCaptured := False, isFullSweep := False\<rparr>,
      if 0 \<le> lookupId r then [AbortLookup (lookupId r)] else [])"

definition resumePartialCycle :: "qt \<Rightarrow> jobject \<Rightarrow> string \<Rightarrow> bool \<Rightarrow> bool" where
  "resumePartialCycle Q serverConfig digest refreshAll \<longleftrightarrow>
     is_array (obj_value serverConfig ''managedSplitTunnelClientResolvePendingSites'')
     \<and> jstr (obj_value serverConfig ''managedSplitTunnelClientResolvePendingSourceDigest'') = digest
     \<and> \<not> refreshAll
     \<and> \<not> dt_valid (q_fromIso Q (jstr (obj_value serverConfig ''managedSplitTunnelClientResolvedAt'')))"

definition beginCycle :: "qt \<Rightarrow> World \<Rightarrow> string \<Rightarrow> jobject \<Rightarrow> jobject \<Rightarrow> string \<Rightarrow> Resolver \<Rightarrow> Resolver" where
  "beginCycle Q w serverId serverConfig sourceSites digest r =
     (let ds = managedResolveDomains Q (domainPattern w) sourceSites;
          baseline = clientResolvedSitesBoundToSource Q serverConfig sourceSites;
          refreshAll = fullSweepDue Q
            (jstr (obj_value serverConfig ''managedSplitTunnelClientResolveLastFullSweepAt''))
            (Some (now w)) resolveIntervalSeconds;
          resume = resumePartialCycle Q serverConfig digest refreshAll;
          persisted = persistedManagedResolvePendingDomains Q serverConfig ds;
          pend = pendingDomainsForCycle Q ds baseline persisted (\<not> resume);
          delay = initialDelayMs Q
            (if resume then jstr (obj_value serverConfig ''managedSplitTunnelClientResolveRetryAfter'') else [])
            (Some (now w)) (resolveInitialDelayMs + jitter w)
      in r\<lparr>isFullSweep := \<not> resume, convergence := beginState serverId digest ds baseline pend,
           deadline := now w + resolveCycleDeadlineMs, resolveServerId := serverId,
           resolveTimer := Some delay\<rparr>)"

definition scheduleClientManagedSitesResolve :: "qt \<Rightarrow> World \<Rightarrow> int \<Rightarrow> Resolver \<Rightarrow> handled" where
  "scheduleClientManagedSitesResolve Q w serverIndex r =
     (if \<not> connected w \<or> serverIndex < 0 \<or> int (length (servers w)) \<le> serverIndex
         \<or> \<not> isCurrentConnectionServerIndex w serverIndex
      then (r, [])
      else
        let serverConfig = snd (servers w ! nat serverIndex);
            sourceSites = serverRoutingRulesSourceSites Q serverConfig in
        if \<not> shouldRunClientManagedResolve Q (domainPattern w) serverConfig sourceSites (Some (now w))
        then cancelClientManagedSitesResolve r
        else
          let serverId = fst (servers w ! nat serverIndex);
              digest = derivedRevision Q sourceSites in
          if matches (convergence r) serverId digest then (r, [])
          else
            let (r, effects) = cancelClientManagedSitesResolve r
            in (beginCycle Q w serverId serverConfig sourceSites digest r, effects))"

definition scheduleClientManagedSitesResolveRetry :: "World \<Rightarrow> int \<Rightarrow> Resolver \<Rightarrow> Resolver" where
  "scheduleClientManagedSitesResolveRetry w serverIndex r =
     (if \<not> connected w \<or> \<not> isCurrentConnectionServerIndex w serverIndex then r
      else
        let exponent = min (retryCount r) resolveMaxBackoffExponent;
            exponentialDelayMs = resolveRetryBaseMs * 2 ^ nat exponent;
            boundedDelayMs = min exponentialDelayMs resolveRetryMaxMs;
            delay = min (boundedDelayMs + jitter w) resolveRetryMaxMs;
            remaining = remainingTime w r;
            delay = (if 0 \<le> remaining then min delay (min remaining int_max) else delay)
        in r\<lparr>retryCount := min (retryCount r + 1) resolveMaxBackoffExponent, resolveTimer := Some delay\<rparr>)"

text \<open>The markers of the configuration after a finished cycle, and whether one of them changed.\<close>

type_synonym edit = "jobject \<times> bool"

definition removeKey :: "string \<Rightarrow> edit \<Rightarrow> edit" where
  "removeKey k e = (if obj_contains (fst e) k then (obj_remove k (fst e), True) else e)"

definition setText :: "string \<Rightarrow> string \<Rightarrow> edit \<Rightarrow> edit" where
  "setText k v e =
     (if jstr (obj_value (fst e) k) \<noteq> v then (obj_insert k (JString v) (fst e), True) else e)"

definition storeCache :: "jobject \<Rightarrow> edit \<Rightarrow> edit" where
  "storeCache resolvedCache e =
     (let k = ''managedSplitTunnelClientResolvedExceptSites'' in
      if to_object (obj_value (fst e) k) \<noteq> resolvedCache
      then (if resolvedCache = [] then obj_remove k (fst e)
            else obj_insert k (JObject resolvedCache) (fst e), True)
      else e)"

definition storePending :: "string list \<Rightarrow> edit \<Rightarrow> edit" where
  "storePending pend e =
     (let k = ''managedSplitTunnelClientResolvePendingSites'' in
      if to_array (obj_value (fst e) k) \<noteq> map JString pend
      then (obj_insert k (JArray (map JString pend)) (fst e), True) else e)"

definition finishedConfig ::
  "World \<Rightarrow> jobject \<Rightarrow> string list \<Rightarrow> bool \<Rightarrow> string \<Rightarrow> jobject \<Rightarrow> edit" where
  "finishedConfig w resolvedCache pend fullSweep digest serverConfig =
     (let e = storeCache resolvedCache (serverConfig, False) in
      if pend = [] then
        let e = setText ''managedSplitTunnelClientResolvedAt'' (isoDate w (now w)) e;
            e = removeKey ''managedSplitTunnelClientResolveRetryAfter'' e;
            e = removeKey ''managedSplitTunnelClientResolvePendingSites'' e;
            e = removeKey ''managedSplitTunnelClientResolvePendingSourceDigest'' e
        in if fullSweep then removeKey ''managedSplitTunnelClientResolveLastFullSweepAt'' e else e
      else
        let e = removeKey ''managedSplitTunnelClientResolvedAt'' e;
            e = setText ''managedSplitTunnelClientResolveRetryAfter''
                  (isoDate w (now w + resolveRetryMaxMs div 1000 * 1000)) e;
            e = storePending pend e;
            e = setText ''managedSplitTunnelClientResolvePendingSourceDigest'' digest e
        in if fullSweep
           then setText ''managedSplitTunnelClientResolveLastFullSweepAt'' (isoDate w (now w)) e else e)"

definition reconcileAfterResolve :: "World \<Rightarrow> jobject \<Rightarrow> string \<Rightarrow> Snapshot \<Rightarrow> ResolveEffect list" where
  "reconcileAfterResolve w serverConfig serverId old =
     (let new = effectiveView w serverConfig (localSplitEnabled w) (localRouteMode w);
          newIps = (if viewMode new = VpnAllExceptSites then viewIps new else []);
          localSettingsChanged =
            (localSplitEnabled w \<noteq> oldLocalSplitEnabled old \<or> localRouteMode w \<noteq> oldLocalRouteMode old);
          managedRuntimeChanged =
            (\<not> oldStateConfirmed old \<or> newIps \<noteq> viewIps (oldView old)
             \<or> viewPolicyRevision new \<noteq> viewPolicyRevision (oldView old)
             \<or> viewContentHash new \<noteq> viewContentHash (oldView old)) in
      if oldStateConfirmed old \<and> localSettingsChanged \<and> \<not> managedRuntimeChanged then []
      else if \<not> oldStateConfirmed old \<or> viewMode new \<noteq> viewMode (oldView old)
      then [RequestReconciliation serverId ''client-side managed site resolve changed route mode'']
      else if newIps \<noteq> viewIps (oldView old)
      then [RequestReconciliation serverId ''client-resolved managed route delta'']
      else [])"

definition stagedCache :: "State \<Rightarrow> jobject" where
  "stagedCache s =
     foldl (\<lambda>c d. if \<not> obj_contains c d then obj_insert d (JString []) c else c) (cache s) (pending s)"

definition finalizeCycle ::
  "qt \<Rightarrow> World \<Rightarrow> string \<Rightarrow> nat \<Rightarrow> jobject \<Rightarrow> jobject \<Rightarrow> string \<Rightarrow> Resolver \<Rightarrow> handled" where
  "finalizeCycle Q w serverId serverIndex serverConfig sourceSites digest r =
     (let (resolvedCache, valid) =
        canonicalSourceSites Q (JObject (sitesBoundToSource (stagedCache (convergence r)) sourceSites)) in
      if \<not> valid then cancelClientManagedSitesResolve r
      else
        let (config, changed) =
              finishedConfig w resolvedCache (pending (convergence r)) (isFullSweep r) digest serverConfig;
            closed = r\<lparr>retryCount := 0, convergence := clearState (convergence r), resolveServerId := [],
                     snapshotCaptured := False, isFullSweep := False\<rparr>
        in (closed, (if changed then [EditServerJson serverIndex config, RulesChanged serverIndex] else [])
                  @ reconcileAfterResolve w config serverId (snapshot r)))"

definition finishClientManagedSitesResolve :: "qt \<Rightarrow> World \<Rightarrow> Resolver \<Rightarrow> handled" where
  "finishClientManagedSitesResolve Q w r =
     (let serverId = resolveServerId r;
          r = r\<lparr>inProgress := False, queue := [], lookupTimer := None, lookupId := -1, currentDomain := []\<rparr> in
      if \<not> connected w then (r, [])
      else (case serverConfigOf w serverId of
        None \<Rightarrow> (r, [])
      | Some (serverIndex, serverConfig) \<Rightarrow>
          if \<not> isCurrentConnectionServerId w serverId then cancelClientManagedSitesResolve r
          else
            let sourceSites = serverRoutingRulesSourceSites Q serverConfig;
                digest = derivedRevision Q sourceSites in
            if \<not> matches (convergence r) serverId digest
            then scheduleClientManagedSitesResolve Q w (int serverIndex) r
            else
              let r = r\<lparr>convergence := finishWave (convergence r)\<rparr> in
              if \<not> completeState (convergence r) \<and> \<not> hasExpired w r
                 \<and> shouldRetry (convergence r) resolveMaxRetryWaves
              then (scheduleClientManagedSitesResolveRetry w (int serverIndex) r, [])
              else
                let (s, first) = tryFinalize (convergence r); r = r\<lparr>convergence := s\<rparr> in
                if \<not> first then (r, [])
                else finalizeCycle Q w serverId serverIndex serverConfig sourceSites digest r))"

text \<open>A lookup that timed out counts as a failure of its domain.\<close>

definition lookupTimedOut :: "Resolver \<Rightarrow> handled" where
  "lookupTimedOut r =
     (r\<lparr>lookupId := -1, currentDomain := [], convergence := recordFailure (convergence r) (currentDomain r)\<rparr>,
      if 0 \<le> lookupId r then [AbortLookup (lookupId r)] else [])"

definition failQueue :: "Resolver \<Rightarrow> Resolver" where
  "failQueue r = r\<lparr>convergence := foldl recordFailure (convergence r) (queue r), queue := []\<rparr>"

definition lookupTimeoutMs :: "World \<Rightarrow> Resolver \<Rightarrow> int" where
  "lookupTimeoutMs w r =
     (let remaining = remainingTime w r in
      if remaining < 0 then resolveLookupTimeoutMs
      else min resolveLookupTimeoutMs (min remaining int_max))"

function resolveNextClientManagedSite :: "qt \<Rightarrow> World \<Rightarrow> Resolver \<Rightarrow> handled" where
  "resolveNextClientManagedSite Q w r =
     (if \<not> connected w \<or> \<not> inProgress r then (r\<lparr>inProgress := False, queue := []\<rparr>, [])
      else (case queue r of
        [] \<Rightarrow> finishClientManagedSitesResolve Q w r
      | domain # rest \<Rightarrow>
          if hasExpired w r then finishClientManagedSitesResolve Q w (failQueue r)
          else
            let r = r\<lparr>queue := rest, currentDomain := domain, lookupId := newLookupId w\<rparr> in
            if lookupTimeoutMs w r \<le> 0 then
              (if domain = [] then (r, [LookupHost domain])
               else let (r, aborted) = lookupTimedOut r;
                        (r, effects) = resolveNextClientManagedSite Q w r
                    in (r, LookupHost domain # aborted @ effects))
            else (r\<lparr>lookupTimer := Some (lookupTimeoutMs w r)\<rparr>, [LookupHost domain])))"
  by pat_completeness auto
termination
  by (relation "measure (\<lambda>(Q, w, r). length (queue r))") (auto simp: lookupTimedOut_def)

declare resolveNextClientManagedSite.simps [simp del]

definition onClientManagedSiteResolveTimeout :: "qt \<Rightarrow> World \<Rightarrow> Resolver \<Rightarrow> handled" where
  "onClientManagedSiteResolveTimeout Q w r =
     (if \<not> inProgress r \<or> currentDomain r = [] then (r, [])
      else let (r, aborted) = lookupTimedOut r; (r, effects) = resolveNextClientManagedSite Q w r
           in (r, aborted @ effects))"

definition captureSnapshot :: "World \<Rightarrow> Resolver \<Rightarrow> Resolver" where
  "captureSnapshot w r =
     (if snapshotCaptured r then r
      else r\<lparr>snapshot :=
               \<lparr>oldLocalSplitEnabled = localSplitEnabled w, oldLocalRouteMode = localRouteMode w,
                oldStateConfirmed = confirmedView w \<noteq> None,
                oldView = (case confirmedView w of Some v \<Rightarrow> v
                           | None \<Rightarrow> \<lparr>viewMode = VpnAllSites, viewIps = [], viewPolicyRevision = [],
                                      viewContentHash = []\<rparr>)\<rparr>,
             snapshotCaptured := True\<rparr>)"

definition startClientManagedSitesResolve :: "qt \<Rightarrow> World \<Rightarrow> Resolver \<Rightarrow> handled" where
  "startClientManagedSitesResolve Q w r =
     (if \<not> connected w \<or> inProgress r then (r, [])
      else (case serverConfigOf w (resolveServerId r) of
        None \<Rightarrow> (r, [])
      | Some (serverIndex, serverConfig) \<Rightarrow>
          if \<not> isCurrentConnectionServerId w (resolveServerId r) then cancelClientManagedSitesResolve r
          else
            let digest = derivedRevision Q (serverRoutingRulesSourceSites Q serverConfig) in
            if \<not> matches (convergence r) (resolveServerId r) digest
            then scheduleClientManagedSitesResolve Q w (int serverIndex) r
            else
              let (s, wave) = takePendingWave (convergence r);
                  r = r\<lparr>convergence := s, queue := wave\<rparr> in
              if wave = [] then finishClientManagedSitesResolve Q w r
              else if hasExpired w r then finishClientManagedSitesResolve Q w (failQueue r)
              else resolveNextClientManagedSite Q w
                     ((captureSnapshot w (r\<lparr>generation := generation r + 1\<rparr>))\<lparr>inProgress := True\<rparr>)))"

text \<open>The outcome of a lookup that produced addresses, recorded in the cycle.\<close>

definition recordAddresses :: "qt \<Rightarrow> string \<Rightarrow> string list \<Rightarrow> State \<Rightarrow> State" where
  "recordAddresses Q domain resolvedIps s =
     (let mergedIps = mergedStoredIps Q [join '', '' resolvedIps] in
      if mergedIps = [] then recordFailure s domain
      else
        let (candidateCache, candidateValid) =
              canonicalSourceSites Q (JObject (obj_insert domain (JString mergedIps) (cache s)));
            (s', recorded) = recordSuccess s domain (jstr (obj_value candidateCache domain))
        in if candidateValid \<and> recorded then s' else recordFailure s domain)"

definition recordLookup :: "qt \<Rightarrow> string \<Rightarrow> lookup \<Rightarrow> State \<Rightarrow> State" where
  "recordLookup Q domain hostInfo s =
     (let resolvedIps = hostInfoIpv4Addresses Q hostInfo in
      if hostInfo = None \<or> resolvedIps = [] then recordFailure s domain
      else recordAddresses Q domain resolvedIps s)"

definition lookupFinished :: "qt \<Rightarrow> World \<Rightarrow> string \<Rightarrow> string \<Rightarrow> int \<Rightarrow> lookup \<Rightarrow> Resolver \<Rightarrow> handled" where
  "lookupFinished Q w serverId domain resolveGeneration hostInfo r =
     (if resolveGeneration \<noteq> generation r then (r, [])
      else if \<not> connected w \<or> \<not> inProgress r then (r, [])
      else if serverId \<noteq> resolveServerId r \<or> \<not> isCurrentConnectionServerId w serverId
      then cancelClientManagedSitesResolve r
      else if domain \<noteq> currentDomain r then (r, [])
      else resolveNextClientManagedSite Q w
             (r\<lparr>lookupTimer := None, lookupId := -1, currentDomain := [],
                convergence := recordLookup Q domain hostInfo (convergence r)\<rparr>))"

section \<open>The machine\<close>

datatype ResolveEvent =
  Schedule int
| ResolveTimerFired
| LookupTimerFired
| LookupAnswer string string int lookup
| CancelResolve
| SessionChanged

definition resolveStep :: "qt \<Rightarrow> Resolver \<Rightarrow> World \<times> ResolveEvent \<Rightarrow> handled" where
  "resolveStep Q r we =
     (let w = fst we in
      case snd we of
        Schedule i \<Rightarrow> scheduleClientManagedSitesResolve Q w i r
      | ResolveTimerFired \<Rightarrow> startClientManagedSitesResolve Q w (r\<lparr>resolveTimer := None\<rparr>)
      | LookupTimerFired \<Rightarrow> onClientManagedSiteResolveTimeout Q w (r\<lparr>lookupTimer := None\<rparr>)
      | LookupAnswer sid domain g hostInfo \<Rightarrow> lookupFinished Q w sid domain g hostInfo r
      | CancelResolve \<Rightarrow> cancelClientManagedSitesResolve r
      | SessionChanged \<Rightarrow> cancelClientManagedSitesResolve (r\<lparr>retryCount := 0\<rparr>))"

section \<open>Invariant of the cycle\<close>

definition stateOk :: "State \<Rightarrow> bool" where
  "stateOk s \<longleftrightarrow>
     (active s \<longrightarrow> 0 \<le> completedWaves s \<and> completedWaves s \<le> resolveMaxRetryWaves \<and> \<not> finalized s)
     \<and> distinct (pending s) \<and> set (pending s) \<subseteq> set (domains s)"

definition resolverInv :: "Resolver \<Rightarrow> bool" where
  "resolverInv r \<longleftrightarrow>
     stateOk (convergence r) \<and> 0 \<le> retryCount r \<and> retryCount r \<le> resolveMaxBackoffExponent
     \<and> (\<not> inProgress r \<longrightarrow> queue r = [])"

lemma pendingLoop_ok:
  "distinct pend \<Longrightarrow> set pend \<subseteq> set ds0 \<Longrightarrow> set ds \<subseteq> set ds0 \<Longrightarrow>
   distinct (pendingLoop Q b p a pend ds) \<and> set (pendingLoop Q b p a pend ds) \<subseteq> set ds0"
  by (induction Q b p a pend ds rule: pendingLoop.induct) auto

lemma stateOk_begin:
  "stateOk (beginState sid digest ds b (pendingDomainsForCycle Q ds b p a))"
  using pendingLoop_ok [of "[]" ds ds Q b p a]
  by (simp add: stateOk_def beginState_def pendingDomainsForCycle_def resolveMaxRetryWaves_def)

lemma stateOk_clear [simp]: "stateOk (clearState s)"
  by (simp add: stateOk_def clearState_def)

lemma stateOk_failure [simp]: "stateOk s \<Longrightarrow> stateOk (recordFailure s d)"
  by (simp add: stateOk_def recordFailure_def)

lemma stateOk_failures [simp]: "stateOk s \<Longrightarrow> stateOk (foldl recordFailure s ds)"
  by (induction ds arbitrary: s) simp_all

lemma stateOk_success [simp]: "stateOk s \<Longrightarrow> stateOk (fst (recordSuccess s d a))"
  by (simp add: stateOk_def recordSuccess_def)

lemma stateOk_lookup [simp]: "stateOk s \<Longrightarrow> stateOk (recordLookup Q d h s)"
  unfolding recordLookup_def recordAddresses_def Let_def
  by (simp add: case_prod_beta)

lemma cancel_inv: "resolverInv r \<Longrightarrow> resolverInv (fst (cancelClientManagedSitesResolve r))"
  by (simp add: resolverInv_def cancelClientManagedSitesResolve_def)

lemma schedule_inv: "resolverInv r \<Longrightarrow> resolverInv (fst (scheduleClientManagedSitesResolve Q w i r))"
  unfolding scheduleClientManagedSitesResolve_def
  by (simp add: Let_def cancel_inv split: prod.splits)
    (simp add: resolverInv_def beginCycle_def stateOk_begin Let_def cancelClientManagedSitesResolve_def)

lemma retry_inv:
  "resolverInv r \<Longrightarrow> resolverInv (scheduleClientManagedSitesResolveRetry w i r)"
  by (simp add: resolverInv_def scheduleClientManagedSitesResolveRetry_def resolveMaxBackoffExponent_def Let_def)

lemma finalize_cleared:
  "\<not> active (convergence (fst (finalizeCycle Q w sid i cfg sites digest r)))"
  by (simp add: finalizeCycle_def cancelClientManagedSitesResolve_def Let_def clearState_def split: prod.splits)

lemma finalize_inv:
  assumes "0 \<le> retryCount r \<and> retryCount r \<le> resolveMaxBackoffExponent" "queue r = []"
  shows "resolverInv (fst (finalizeCycle Q w sid i cfg sites digest r))"
  using assms
  by (simp add: finalizeCycle_def cancelClientManagedSitesResolve_def resolverInv_def Let_def
      resolveMaxBackoffExponent_def split: prod.splits)

lemma finish_inv:
  assumes "resolverInv r"
  shows "resolverInv (fst (finishClientManagedSitesResolve Q w r))"
proof -
  define r1 where "r1 = r\<lparr>inProgress := False, queue := [], lookupTimer := None, lookupId := -1, currentDomain := []\<rparr>"
  have i1: "resolverInv r1" using assms by (simp add: r1_def resolverInv_def)
  define r2 where "r2 = r1\<lparr>convergence := finishWave (convergence r1)\<rparr>"
  have retry: "resolverInv r2" if "shouldRetry (convergence r2) resolveMaxRetryWaves"
    using that i1 by (auto simp: r2_def resolverInv_def stateOk_def finishWave_def shouldRetry_def)
  have last: "resolverInv (fst (finalizeCycle Q w sid i cfg sites digest (r2\<lparr>convergence := s\<rparr>)))" for sid i cfg sites digest s
    using i1 by (intro finalize_inv) (simp_all add: r1_def r2_def resolverInv_def)
  have "\<not> finalized (convergence r2)" if "active (convergence r2)"
    using that i1 by (auto simp: r2_def resolverInv_def stateOk_def finishWave_def split: if_splits)
  moreover have "active (convergence r2) = active (convergence r1)" by (simp add: r2_def finishWave_def)
  ultimately show ?thesis
    unfolding finishClientManagedSitesResolve_def r1_def [symmetric] Let_def r2_def [symmetric]
    using i1 
    by (auto simp: cancel_inv schedule_inv retry_inv retry last tryFinalize_def matches_def
        split: option.splits if_splits prod.splits)
qed

lemma timedOut_inv: "resolverInv r \<Longrightarrow> resolverInv (fst (lookupTimedOut r))"
  by (simp add: resolverInv_def lookupTimedOut_def)

lemma failQueue_inv: "resolverInv r \<Longrightarrow> resolverInv (failQueue r)"
  by (simp add: resolverInv_def failQueue_def)

lemma next_inv: "resolverInv r \<Longrightarrow> resolverInv (fst (resolveNextClientManagedSite Q w r))"
proof (induction Q w r rule: resolveNextClientManagedSite.induct)
  case (1 Q w r)
  show ?case
  proof (cases "\<not> connected w \<or> \<not> inProgress r")
    case True
    with 1(2) show ?thesis
      by (subst resolveNextClientManagedSite.simps) (simp add: resolverInv_def)
  next
    case going: False
    show ?thesis
    proof (cases "queue r")
      case Nil
      with going 1(2) show ?thesis
        by (subst resolveNextClientManagedSite.simps) (simp add: finish_inv)
    next
      case (Cons d rest)
      define r1 where "r1 = r\<lparr>queue := rest, currentDomain := d, lookupId := newLookupId w\<rparr>"
      have i1: "resolverInv r1" using 1(2) going by (simp add: resolverInv_def r1_def)
      have ih: "resolverInv (fst (resolveNextClientManagedSite Q w (fst (lookupTimedOut r1))))"
        if "\<not> hasExpired w r" "lookupTimeoutMs w r1 \<le> 0" "d \<noteq> []"
        using 1(1) [OF going Cons that(1) r1_def that(2,3) refl, of "fst (lookupTimedOut r1)" "snd (lookupTimedOut r1)"]
          timedOut_inv [OF i1] by simp
      have "resolverInv (r1\<lparr>lookupTimer := Some t\<rparr>)" for t using i1 by (simp add: resolverInv_def)
      with going Cons ih i1 1(2) show ?thesis
        by (subst resolveNextClientManagedSite.simps)
          (simp add: finish_inv failQueue_inv r1_def [symmetric] Let_def case_prod_beta)
    qed
  qed
qed

lemma start_inv: "resolverInv r \<Longrightarrow> resolverInv (fst (startClientManagedSitesResolve Q w r))"
proof -
  assume i: "resolverInv r"
  define r1 where "r1 = r\<lparr>convergence := (convergence r)\<lparr>pending := []\<rparr>, queue := pending (convergence r)\<rparr>"
  have go: "resolverInv ((captureSnapshot w (r1\<lparr>generation := generation r1 + 1\<rparr>))\<lparr>inProgress := True\<rparr>)"
    using i by (simp add: captureSnapshot_def r1_def resolverInv_def stateOk_def)
  have f: "resolverInv (failQueue r1)"
    "resolverInv (r\<lparr>convergence := (convergence r)\<lparr>pending := []\<rparr>, queue := []\<rparr>)"
    using i stateOk_failures [of "(convergence r)\<lparr>pending := []\<rparr>"]
    by (simp_all add: failQueue_def r1_def resolverInv_def stateOk_def)
  show ?thesis
    unfolding startClientManagedSitesResolve_def takePendingWave_def
    using i go f
    by (simp add: cancel_inv schedule_inv finish_inv next_inv Let_def r1_def [symmetric] split: option.splits prod.splits)
qed

lemma timeout_inv: "resolverInv r \<Longrightarrow> resolverInv (fst (onClientManagedSiteResolveTimeout Q w r))"
  by (simp add: onClientManagedSiteResolveTimeout_def case_prod_beta next_inv timedOut_inv)

lemma lookup_inv: "resolverInv r \<Longrightarrow> resolverInv (fst (lookupFinished Q w sid d g h r))"
proof -
  assume "resolverInv r"
  then have "resolverInv (r\<lparr>lookupTimer := None, lookupId := -1, currentDomain := [],
      convergence := recordLookup Q d h (convergence r)\<rparr>)"
    by (simp add: resolverInv_def)
  with \<open>resolverInv r\<close> show ?thesis by (auto simp: lookupFinished_def cancel_inv next_inv)
qed

interpretation resolver: invariant_machine "resolveStep Q" resolverInv for Q
proof unfold_locales
  fix r and we :: "World \<times> ResolveEvent"
  assume i: "resolverInv r"
  obtain w e where [simp]: "we = (w, e)" by fastforce
  have "resolverInv (r\<lparr>resolveTimer := None\<rparr>)" "resolverInv (r\<lparr>lookupTimer := None\<rparr>)" "resolverInv (r\<lparr>retryCount := 0\<rparr>)"
    using i by (simp_all add: resolverInv_def resolveMaxBackoffExponent_def)
  with i show "resolverInv (fst (resolveStep Q r we))"
    by (cases e) (simp_all add: resolveStep_def schedule_inv start_inv timeout_inv lookup_inv cancel_inv)
qed

section \<open>Generations\<close>

lemma cancel_gen [simp]: "generation (fst (cancelClientManagedSitesResolve r)) = generation r + 1"
  by (simp add: cancelClientManagedSitesResolve_def)

lemma schedule_gen: "generation r \<le> generation (fst (scheduleClientManagedSitesResolve Q w i r))"
  by (auto simp: scheduleClientManagedSitesResolve_def beginCycle_def Let_def case_prod_beta)

lemma finalize_gen: "generation r \<le> generation (fst (finalizeCycle Q w sid i cfg sites digest r))"
  by (simp add: finalizeCycle_def Let_def case_prod_beta)

lemma finish_gen: "generation r \<le> generation (fst (finishClientManagedSitesResolve Q w r))"
proof -
  define r1 where "r1 = r\<lparr>inProgress := False, queue := [], lookupTimer := None, lookupId := -1, currentDomain := []\<rparr>"
  have g: "generation r = generation r1" by (simp add: r1_def)
  have retry: "generation (scheduleClientManagedSitesResolveRetry w i r') = generation r'" for i r'
    by (simp add: scheduleClientManagedSitesResolveRetry_def Let_def)
  have "generation r1 \<le> generation (fst (finalizeCycle Q w sid i cfg sites digest (r1\<lparr>convergence := s\<rparr>)))"
    for sid i cfg sites digest s
    using finalize_gen [of "r1\<lparr>convergence := s\<rparr>" Q w sid i cfg sites digest] by simp
  then show ?thesis
    unfolding finishClientManagedSitesResolve_def r1_def [symmetric] Let_def g
    by (simp add: schedule_gen retry case_prod_beta split: option.splits)
qed

lemma next_gen: "generation r \<le> generation (fst (resolveNextClientManagedSite Q w r))"
proof (induction Q w r rule: resolveNextClientManagedSite.induct)
  case (1 Q w r)
  show ?case
  proof (cases "\<not> connected w \<or> \<not> inProgress r \<or> queue r = []")
    case True
    then show ?thesis
      by (subst resolveNextClientManagedSite.simps) (auto simp: finish_gen)
  next
    case False
    then obtain d rest where q: "queue r = d # rest" by (cases "queue r") auto
    define r1 where "r1 = r\<lparr>queue := rest, currentDomain := d, lookupId := newLookupId w\<rparr>"
    have "generation r \<le> generation (fst (resolveNextClientManagedSite Q w (fst (lookupTimedOut r1))))"
      if "\<not> hasExpired w r" "lookupTimeoutMs w r1 \<le> 0" "d \<noteq> []"
      using 1 [OF _ q that(1) r1_def that(2,3) refl, of "fst (lookupTimedOut r1)" "snd (lookupTimedOut r1)"] False
      by (simp add: lookupTimedOut_def r1_def)
    moreover have "generation r \<le> generation (fst (finishClientManagedSitesResolve Q w (failQueue r)))"
      using finish_gen [of "failQueue r" Q w] by (simp add: failQueue_def)
    moreover have "generation r1 = generation r" by (simp add: r1_def)
    ultimately show ?thesis using False q
      by (subst resolveNextClientManagedSite.simps)
        (simp add: r1_def [symmetric] Let_def case_prod_beta)
  qed
qed

lemma start_gen: "generation r \<le> generation (fst (startClientManagedSitesResolve Q w r))"
proof -
  define r1 where "r1 = r\<lparr>convergence := (convergence r)\<lparr>pending := []\<rparr>, queue := pending (convergence r)\<rparr>"
  define r2 where "r2 = (captureSnapshot w (r1\<lparr>generation := generation r1 + 1\<rparr>))\<lparr>inProgress := True\<rparr>"
  have "generation r \<le> generation r2" by (simp add: r2_def r1_def captureSnapshot_def)
  then have "generation r \<le> generation (fst (resolveNextClientManagedSite Q w r2))"
    using next_gen [of r2 Q w] by simp
  moreover have "generation r \<le> generation (fst (finishClientManagedSitesResolve Q w (failQueue r1)))"
    "generation r \<le> generation (fst (finishClientManagedSitesResolve Q w (r\<lparr>convergence := (convergence r)\<lparr>pending := []\<rparr>, queue := []\<rparr>)))"
    using finish_gen [of "failQueue r1" Q w]
      finish_gen [of "r\<lparr>convergence := (convergence r)\<lparr>pending := []\<rparr>, queue := []\<rparr>" Q w]
    by (simp_all add: failQueue_def r1_def)
  ultimately show ?thesis
    unfolding startClientManagedSitesResolve_def takePendingWave_def
    by (simp add: schedule_gen Let_def r1_def [symmetric] r2_def [symmetric] split: option.splits prod.splits)
qed

lemma step_gen: "generation r \<le> generation (fst (resolveStep Q r we))"
proof (cases "snd we")
  case ResolveTimerFired
  then show ?thesis using start_gen [of "r\<lparr>resolveTimer := None\<rparr>" Q "fst we"] by (simp add: resolveStep_def Let_def)
next
  case LookupTimerFired
  have "generation r = generation (fst (lookupTimedOut (r\<lparr>lookupTimer := None\<rparr>)))" by (simp add: lookupTimedOut_def)
  with LookupTimerFired show ?thesis
    using next_gen [of "fst (lookupTimedOut (r\<lparr>lookupTimer := None\<rparr>))" Q "fst we"]
    by (simp add: resolveStep_def Let_def onClientManagedSiteResolveTimeout_def case_prod_beta)
next
  case (LookupAnswer sid d g h)
  then show ?thesis
    using next_gen [of "r\<lparr>lookupTimer := None, lookupId := -1, currentDomain := [],
      convergence := recordLookup Q d h (convergence r)\<rparr>" Q "fst we"]
    by (auto simp: resolveStep_def Let_def lookupFinished_def)
qed (simp_all add: resolveStep_def Let_def schedule_gen)

interpretation generations: monotone_machine "resolveStep Q" "\<lambda>r. True" generation for Q
  by unfold_locales (simp_all add: step_gen)

lemma stale_answer_ignored:
  assumes "snd we \<in> {CancelResolve, SessionChanged}" and "generation r = g"
  shows "resolveStep Q (run (resolveStep Q) r (es @ we # es')) (w, LookupAnswer sid d g h)
    = (run (resolveStep Q) r (es @ we # es'), [])"
proof -
  define r1 where "r1 = run (resolveStep Q) r es"
  define r2 where "r2 = fst (resolveStep Q r1 we)"
  have "g \<le> generation r1" using generations.level_run [of r Q es] assms(2) by (simp add: r1_def)
  moreover have "generation r2 = generation r1 + 1"
    using assms(1) by (auto simp: r2_def resolveStep_def Let_def)
  moreover have "generation r2 \<le> generation (run (resolveStep Q) r2 es')"
    using generations.level_run [of r2 Q es'] by simp
  moreover have "run (resolveStep Q) r (es @ we # es') = run (resolveStep Q) r2 es'"
    by (simp add: r1_def r2_def)
  ultimately show ?thesis by (simp add: resolveStep_def lookupFinished_def)
qed

section \<open>Progress of a cycle\<close>

lemma index_of_id_sound: "index_of_id sid ss = Some i \<Longrightarrow> i < length ss \<and> fst (ss ! i) = sid"
  by (induction ss arbitrary: i) (auto split: if_splits)

lemma serverConfigOf_index:
  "serverConfigOf w sid = Some (i, cfg) \<Longrightarrow> isCurrentConnectionServerId w sid
   \<Longrightarrow> isCurrentConnectionServerIndex w (int i)"
  by (auto simp: serverConfigOf_def isCurrentConnectionServerIndex_def dest: index_of_id_sound)

lemma retry_delay:
  assumes "0 \<le> retryCount r" "0 \<le> jitter w" "connected w" "isCurrentConnectionServerIndex w i"
  shows "\<exists>d. resolveTimer (scheduleClientManagedSitesResolveRetry w i r) = Some d \<and> 0 \<le> d \<and> d \<le> resolveRetryMaxMs"
proof -
  have "(0::int) \<le> resolveRetryBaseMs * 2 ^ nat (min (retryCount r) resolveMaxBackoffExponent)"
    by (simp add: resolveRetryBaseMs_def)
  then show ?thesis
    using assms by (auto simp: scheduleClientManagedSitesResolveRetry_def Let_def remainingTime_def
        resolveRetryMaxMs_def int_max_def min_le_iff_disj)
qed

lemma finish_dichotomy:
  assumes inv: "resolverInv r" and up: "connected w" and jitter: "0 \<le> jitter w"
    and cfg: "serverConfigOf w (resolveServerId r) = Some (i, cfg)"
    and cur: "isCurrentConnectionServerId w (resolveServerId r)"
    and m: "matches (convergence r) (resolveServerId r) (derivedRevision Q (serverRoutingRulesSourceSites Q cfg))"
  defines "r' \<equiv> fst (finishClientManagedSitesResolve Q w r)"
  shows "if pending (convergence r) = [] \<or> hasExpired w r \<or> completedWaves (convergence r) = resolveMaxRetryWaves
    then \<not> active (convergence r')
    else active (convergence r') \<and> completedWaves (convergence r') = completedWaves (convergence r) + 1
      \<and> pending (convergence r') = pending (convergence r) \<and> cache (convergence r') = cache (convergence r)
      \<and> (\<exists>d. resolveTimer r' = Some d \<and> 0 \<le> d \<and> d \<le> resolveRetryMaxMs)"
proof -
  define r2 where "r2 = r\<lparr>inProgress := False, queue := [], lookupTimer := None, lookupId := -1, currentDomain := [],
    convergence := finishWave (convergence r)\<rparr>"
  have act: "active (convergence r)" "\<not> finalized (convergence r)"
    "completedWaves (convergence r) \<le> resolveMaxRetryWaves"
    using m inv by (auto simp: matches_def resolverInv_def stateOk_def)
  then have s2: "convergence r2 = (convergence r)\<lparr>completedWaves := completedWaves (convergence r) + 1\<rparr>"
    by (simp add: r2_def finishWave_def)
  let ?again = "pending (convergence r) \<noteq> [] \<and> \<not> hasExpired w r
    \<and> completedWaves (convergence r) \<noteq> resolveMaxRetryWaves"
  have exp: "hasExpired w r2 = hasExpired w r" by (simp add: hasExpired_def r2_def)
  have cond: "(\<not> completeState (convergence r2) \<and> \<not> hasExpired w r2 \<and> shouldRetry (convergence r2) resolveMaxRetryWaves)
      \<longleftrightarrow> ?again"
    using act by (auto simp: s2 exp completeState_def shouldRetry_def)
  have r': "r' = (if ?again then scheduleClientManagedSitesResolveRetry w (int i) r2
      else fst (finalizeCycle Q w (resolveServerId r) i cfg (serverRoutingRulesSourceSites Q cfg)
        (derivedRevision Q (serverRoutingRulesSourceSites Q cfg))
        (r2\<lparr>convergence := (convergence r2)\<lparr>finalized := True\<rparr>\<rparr>)))"
    unfolding r'_def finishClientManagedSitesResolve_def Let_def
    using up cfg cur m cond act by (simp add: r2_def [symmetric] tryFinalize_def s2)
  show ?thesis
  proof (cases ?again)
    case True
    then have "r' = scheduleClientManagedSitesResolveRetry w (int i) r2" using r' by simp
    moreover have "convergence (scheduleClientManagedSitesResolveRetry w (int i) r2) = convergence r2"
      by (simp add: scheduleClientManagedSitesResolveRetry_def Let_def)
    moreover have "\<exists>d. resolveTimer (scheduleClientManagedSitesResolveRetry w (int i) r2) = Some d \<and> 0 \<le> d \<and> d \<le> resolveRetryMaxMs"
      using inv jitter up serverConfigOf_index [OF cfg cur] by (intro retry_delay) (simp_all add: r2_def resolverInv_def)
    ultimately show ?thesis using True act by (simp add: s2)
  next
    case False
    then show ?thesis using r' by (auto simp: finalize_cleared)
  qed
qed

section \<open>What a cycle persists\<close>

definition resolvedSitesOf :: "jobject \<Rightarrow> jobject" where
  "resolvedSitesOf cfg = to_object (obj_value cfg ''managedSplitTunnelClientResolvedExceptSites'')"

definition routesSafe :: "qt \<Rightarrow> jobject \<Rightarrow> bool" where
  "routesSafe Q sites \<longleftrightarrow> sitesCost Q sites \<le> maximumTotalRouteCount \<and> (\<forall>(k, v) \<in> set sites. siteOk Q k v)"

lemma other_keys_kept:
  "k \<noteq> ''managedSplitTunnelClientResolvedExceptSites'' \<Longrightarrow> resolvedSitesOf (fst (removeKey k e)) = resolvedSitesOf (fst e)"
  "k \<noteq> ''managedSplitTunnelClientResolvedExceptSites'' \<Longrightarrow> resolvedSitesOf (fst (setText k v e)) = resolvedSitesOf (fst e)"
  "resolvedSitesOf (fst (storePending pend e)) = resolvedSitesOf (fst e)"
  by (auto simp: resolvedSitesOf_def removeKey_def setText_def storePending_def Let_def)

lemma finishedConfig_cache: "resolvedSitesOf (fst (finishedConfig w c pend full digest cfg)) = c"
proof -
  have "resolvedSitesOf (fst (storeCache c (cfg, False))) = c"
    by (auto simp: resolvedSitesOf_def storeCache_def Let_def)
  then show ?thesis
    by (simp add: finishedConfig_def Let_def other_keys_kept)
qed

definition persisted :: "ResolveEffect list \<Rightarrow> jobject set" where
  "persisted effects = {cfg. \<exists>i. EditServerJson i cfg \<in> set effects}"

lemma persisted_simps [simp]:
  "persisted [] = {}" "persisted (xs @ ys) = persisted xs \<union> persisted ys"
  "persisted (LookupHost d # xs) = persisted xs" "persisted (AbortLookup l # xs) = persisted xs"
  "persisted (RulesChanged j # xs) = persisted xs" "persisted (RequestReconciliation a b # xs) = persisted xs"
  "persisted (EditServerJson j cfg # xs) = insert cfg (persisted xs)"
  by (auto simp: persisted_def)

lemma quiet_handlers [simp]:
  "persisted (snd (cancelClientManagedSitesResolve r)) = {}"
  "persisted (snd (scheduleClientManagedSitesResolve Q w i r)) = {}"
  "persisted (snd (lookupTimedOut r)) = {}"
  "persisted (reconcileAfterResolve w cfg sid old) = {}"
  by (simp_all add: cancelClientManagedSitesResolve_def scheduleClientManagedSitesResolve_def lookupTimedOut_def
      reconcileAfterResolve_def Let_def)

lemma finalize_persists:
  assumes "qt_policy_ok Q" "cfg' \<in> persisted (snd (finalizeCycle Q w sid i cfg sites digest r))"
  shows "routesSafe Q (resolvedSitesOf cfg')"
proof -
  let ?v = "JObject (sitesBoundToSource (stagedCache (convergence r)) sites)"
  obtain c valid where c: "canonicalSourceSites Q ?v = (c, valid)" by fastforce
  have "cfg' = fst (finishedConfig w c (pending (convergence r)) (isFullSweep r) digest cfg)"
    using assms(2) unfolding finalizeCycle_def c
    by (auto simp: Let_def case_prod_beta split: if_splits)
  then show ?thesis
    using canonicalSourceSites_inv [OF assms(1) c] by (simp add: finishedConfig_cache routesSafe_def)
qed

lemma finish_persists:
  assumes "qt_policy_ok Q" "cfg' \<in> persisted (snd (finishClientManagedSitesResolve Q w r))"
  shows "routesSafe Q (resolvedSitesOf cfg')"
  using assms(2) unfolding finishClientManagedSitesResolve_def Let_def
  by (auto simp: case_prod_beta split: option.splits if_splits dest: finalize_persists [OF assms(1)])

lemma next_persists:
  assumes ok: "qt_policy_ok Q"
  shows "cfg' \<in> persisted (snd (resolveNextClientManagedSite Q w r)) \<Longrightarrow> routesSafe Q (resolvedSitesOf cfg')"
  using ok
proof (induction Q w r rule: resolveNextClientManagedSite.induct)
  case (1 Q w r)
  show ?case
  proof (cases "\<not> connected w \<or> \<not> inProgress r \<or> queue r = []")
    case True
    then show ?thesis
      using 1(2,3) finish_persists by (subst (asm) resolveNextClientManagedSite.simps) (auto split: if_splits)
  next
    case False
    then obtain d rest where q: "queue r = d # rest" by (cases "queue r") auto
    define r1 where "r1 = r\<lparr>queue := rest, currentDomain := d, lookupId := newLookupId w\<rparr>"
    have "routesSafe Q (resolvedSitesOf cfg')"
      if "\<not> hasExpired w r" "lookupTimeoutMs w r1 \<le> 0" "d \<noteq> []"
        "cfg' \<in> persisted (snd (resolveNextClientManagedSite Q w (fst (lookupTimedOut r1))))"
      using 1(1) [OF _ q that(1) r1_def that(2,3) refl _ that(4) 1(3), of "snd (lookupTimedOut r1)"] False by simp
    then show ?thesis
      using False q 1(2,3) finish_persists
      by (subst (asm) resolveNextClientManagedSite.simps)
        (auto simp: r1_def [symmetric] Let_def case_prod_beta split: if_splits)
  qed
qed

lemma step_persists:
  assumes ok: "qt_policy_ok Q" and "cfg' \<in> persisted (snd (resolveStep Q r we))"
  shows "routesSafe Q (resolvedSitesOf cfg')"
  using assms(2) finish_persists [OF ok] next_persists [OF ok]
  by (auto simp: resolveStep_def Let_def startClientManagedSitesResolve_def onClientManagedSiteResolveTimeout_def
      lookupFinished_def case_prod_beta split: ResolveEvent.splits option.splits if_splits)

section \<open>Properties\<close>

definition initialResolver :: Resolver where
  "initialResolver = \<lparr>generation = 0, resolveTimer = None, lookupTimer = None, lookupId = -1, inProgress = False,
     resolveServerId = [], queue = [], currentDomain = [], convergence = initialState,
     snapshot = \<lparr>oldLocalSplitEnabled = False, oldLocalRouteMode = VpnAllSites, oldStateConfirmed = False,
       oldView = \<lparr>viewMode = VpnAllSites, viewIps = [], viewPolicyRevision = [], viewContentHash = []\<rparr>\<rparr>,
     snapshotCaptured = False, isFullSweep = False, deadline = 0, retryCount = 0\<rparr>"

lemma initialResolver_inv: "resolverInv initialResolver"
  by (simp add: initialResolver_def initialState_def resolverInv_def stateOk_def resolveMaxBackoffExponent_def)

text \<open>
  C13. A resolution cycle makes progress and ends. Every state the handlers reach from the initial one,
  under any events and surroundings, satisfies the invariant of the cycle; and a wave that finishes for
  the current server and source closes the cycle when nothing is pending, the deadline has passed or
  five retries were made, and otherwise keeps the pending domains and the answers, counts the wave and
  arms a retry within the maximal delay.
\<close>
theorem resolve_cycle_progress:
  assumes "resolverInv r" and "connected w" and "0 \<le> jitter w"
    and "serverConfigOf w (resolveServerId r) = Some (i, cfg)"
    and "isCurrentConnectionServerId w (resolveServerId r)"
    and "matches (convergence r) (resolveServerId r) (derivedRevision Q (serverRoutingRulesSourceSites Q cfg))"
  shows "resolverInv (run (resolveStep Q) initialResolver es) \<and>
    (let r' = fst (finishClientManagedSitesResolve Q w r) in
     if pending (convergence r) = [] \<or> hasExpired w r \<or> completedWaves (convergence r) = resolveMaxRetryWaves
     then \<not> active (convergence r')
     else active (convergence r') \<and> completedWaves (convergence r') = completedWaves (convergence r) + 1
       \<and> pending (convergence r') = pending (convergence r) \<and> cache (convergence r') = cache (convergence r)
       \<and> (\<exists>d. resolveTimer r' = Some d \<and> 0 \<le> d \<and> d \<le> resolveRetryMaxMs))"
  unfolding Let_def
  using finish_dichotomy [OF assms] resolver.inv_run [OF initialResolver_inv, of Q es] by simp

definition refWorld :: World where
  "refWorld = \<lparr>connected = True, servers = [(''srv'', [])], currentServerId = ''srv'', now = 1000, jitter = 7,
     newLookupId = 1, isoDate = (\<lambda>t. ''2026-01-01T00:00:00Z''), domainPattern = (\<lambda>d. True), localSplitEnabled = False,
     localRouteMode = VpnAllSites, confirmedView = None,
     effectiveView = (\<lambda>c b m. \<lparr>viewMode = m, viewIps = [], viewPolicyRevision = [], viewContentHash = []\<rparr>)\<rparr>"

definition refResolver :: "string list \<Rightarrow> Resolver" where
  "refResolver pend = initialResolver\<lparr>resolveServerId := ''srv'', deadline := 5000,
     convergence := beginState ''srv'' (derivedRevision qt_ref []) [''a.example''] [] pend\<rparr>"

lemma refWorld_facts:
  "connected refWorld" "jitter refWorld = 7" "serverConfigOf refWorld ''srv'' = Some (0, [])"
  "isCurrentConnectionServerId refWorld ''srv''" "serverRoutingRulesSourceSites Q [] = []"
  by (simp_all add: refWorld_def serverConfigOf_def isCurrentConnectionServerId_def serverRoutingRulesSourceSites_def
      serverRoutingRulesSourceSitesValue_def isServerRoutingRulesSitesValue_def canonicalSourceSites_def Let_def)

lemma refResolver_facts:
  "resolverInv (refResolver [''a.example''])" "resolveServerId (refResolver pend) = ''srv''"
  "matches (convergence (refResolver pend)) ''srv'' (derivedRevision qt_ref [])"
  "\<not> hasExpired refWorld (refResolver pend)" "pending (convergence (refResolver pend)) = pend"
  "completedWaves (convergence (refResolver pend)) = 0"
  using initialResolver_inv
  by (simp_all add: refResolver_def refWorld_def hasExpired_def matches_def beginState_def resolverInv_def stateOk_def
      resolveMaxRetryWaves_def initialResolver_def)

theorem resolve_cycle_progress_witness:
  "completedWaves (convergence (fst (finishClientManagedSitesResolve qt_ref refWorld (refResolver [''a.example''])))) = 1"
  using resolve_cycle_progress [of "refResolver [''a.example'']" refWorld 0 "[]" qt_ref "[]"]
  by (simp add: refWorld_facts refResolver_facts resolveMaxRetryWaves_def Let_def)



text \<open>
  C35. Whatever a resolution persists is safe: the resolved sites of every server configuration that
  a handler stores are within the total route budget, and every entry is an allowed site whose value
  is a list of canonical routes outside the forbidden ranges.
\<close>
theorem persisted_sites_safe:
  assumes "qt_policy_ok Q" and "EditServerJson i cfg \<in> set (snd (resolveStep Q r we))"
  shows "sitesCost Q (resolvedSitesOf cfg) \<le> maximumTotalRouteCount
    \<and> (\<forall>(k, v) \<in> set (resolvedSitesOf cfg). siteOk Q k v)"
  using step_persists [OF assms(1), of cfg r we] assms(2) by (auto simp: persisted_def routesSafe_def)

definition refStored :: jobject where
  "refStored = fst (finishedConfig refWorld [] [] False (derivedRevision qt_ref []) [])"

lemma refStored_effect:
  "EditServerJson 0 refStored \<in> set (snd (resolveStep qt_ref (refResolver []) (refWorld, ResolveTimerFired)))"
proof -
  have e: "finishedConfig refWorld [] [] False (derivedRevision qt_ref []) [] = (refStored, True)"
    by (simp add: refStored_def finishedConfig_def storeCache_def setText_def removeKey_def Let_def refWorld_def)
  have "canonicalSourceSites qt_ref (JObject []) = ([], True)" by (simp add: canonicalSourceSites_def)
  with e show ?thesis
    using refWorld_facts refResolver_facts(2,3,4) [of "[]"]
    by (simp add: resolveStep_def startClientManagedSitesResolve_def finishClientManagedSitesResolve_def Let_def
        takePendingWave_def refResolver_def initialResolver_def beginState_def matches_def finishWave_def
        completeState_def shouldRetry_def tryFinalize_def finalizeCycle_def stagedCache_def sitesBoundToSource_def)
qed

theorem persisted_sites_safe_witness:
  "sitesCost qt_ref (resolvedSitesOf refStored) \<le> maximumTotalRouteCount"
  using persisted_sites_safe [OF qt_ref_policy refStored_effect] by simp

end
