(* ===== verification/Exclusion_Transaction.thy ===== *)
theory Exclusion_Transaction
  imports Base
begin

text \<open>
  The replacement of the excluded routes of a running tunnel
  (\<open>daemon/exclusionpolicytransaction.h\<close>). The callbacks of the platform (firewall commit, route
  insertion and removal) are arguments that act on a system state \<open>'w\<close> and report success; what
  the transaction relies on is stated as \<open>callbacks_ok\<close>.
\<close>

section \<open>The transaction\<close>

datatype Result = Unsupported | Updated | RolledBack | Uncertain | Rejected

type_synonym 'w routeCall = "'w \<Rightarrow> string \<Rightarrow> bool \<times> 'w"
type_synonym 'w firewallCall = "'w \<Rightarrow> string list \<Rightarrow> bool \<times> 'w"

definition commonRoutes :: "string list \<Rightarrow> string list \<Rightarrow> string list" where
  "commonRoutes before after = sorted_list_of_set (set before \<inter> set after)"

definition missingRoutes :: "string list \<Rightarrow> string list \<Rightarrow> string list" where
  "missingRoutes from to = sorted_list_of_set (set from - set to)"

text \<open>
  A forward loop stops at the first failure and remembers every route it attempted; an undo loop
  calls every route and remembers whether all succeeded.
\<close>

fun attemptAll :: "'w routeCall \<Rightarrow> 'w \<Rightarrow> string list \<Rightarrow> bool \<times> 'w \<times> string list" where
  "attemptAll f w [] = (True, w, [])"
| "attemptAll f w (r # rs) =
     (let (ok, w) = f w r in
      if \<not> ok then (False, w, [r])
      else let (ok, w, attempted) = attemptAll f w rs in (ok, w, r # attempted))"

fun undoAll :: "'w routeCall \<Rightarrow> bool \<times> 'w \<Rightarrow> string list \<Rightarrow> bool \<times> 'w" where
  "undoAll f (restored, w) [] = (restored, w)"
| "undoAll f (restored, w) (r # rs) =
     (let (ok, w) = f w r in undoAll f (ok \<and> restored, w) rs)"

definition rollbackFenced ::
  "'w firewallCall \<Rightarrow> 'w routeCall \<Rightarrow> 'w routeCall \<Rightarrow> string list \<Rightarrow> string list \<Rightarrow> string list \<Rightarrow> string list
   \<Rightarrow> 'w \<Rightarrow> Result \<times> 'w" where
  "rollbackFenced firewall add remove before common attemptedAdds attemptedRemovals w =
     (let (ok, w) = firewall w common in
      if \<not> ok then (Uncertain, w)
      else
        let (restored, w) = undoAll remove (True, w) attemptedAdds;
            (restored, w) = undoAll add (restored, w) attemptedRemovals in
        if \<not> restored then (Uncertain, w)
        else let (ok, w) = firewall w before in (if ok then RolledBack else Uncertain, w))"

definition replace ::
  "'w firewallCall \<Rightarrow> 'w routeCall \<Rightarrow> 'w routeCall \<Rightarrow> string list \<Rightarrow> string list \<Rightarrow> 'w \<Rightarrow> Result \<times> 'w" where
  "replace firewall add remove before after w =
     (let common = commonRoutes before after;
          added = missingRoutes after before;
          removed = missingRoutes before after in
      if added = [] \<and> removed = [] then (Updated, w)
      else
        let (ok, w) = firewall w common in
        if \<not> ok then (Uncertain, w)
        else
          let (ok, w, attemptedRemovals) = attemptAll remove w removed in
          if \<not> ok then rollbackFenced firewall add remove before common [] attemptedRemovals w
          else
            let (ok, w, attemptedAdds) = attemptAll add w added in
            if \<not> ok then rollbackFenced firewall add remove before common attemptedAdds attemptedRemovals w
            else
              let (ok, w) = firewall w after in
              if \<not> ok then rollbackFenced firewall add remove before common attemptedAdds attemptedRemovals w
              else (Updated, w))"

definition rollbackRoutes ::
  "'w routeCall \<Rightarrow> 'w routeCall \<Rightarrow> string list \<Rightarrow> string list \<Rightarrow> 'w \<Rightarrow> Result \<times> 'w" where
  "rollbackRoutes add remove attemptedAdds attemptedRemovals w =
     (let (restored, w) = undoAll add (True, w) attemptedRemovals;
          (restored, w) = undoAll remove (restored, w) attemptedAdds
      in (if restored then RolledBack else Uncertain, w))"

definition replaceRoutes ::
  "'w routeCall \<Rightarrow> 'w routeCall \<Rightarrow> string list \<Rightarrow> string list \<Rightarrow> 'w \<Rightarrow> Result \<times> 'w" where
  "replaceRoutes add remove before after w =
     (let added = missingRoutes after before;
          removed = missingRoutes before after in
      if added = [] \<and> removed = [] then (Updated, w)
      else
        let (ok, w, attemptedAdds) = attemptAll add w added in
        if \<not> ok then rollbackRoutes add remove attemptedAdds [] w
        else
          let (ok, w, attemptedRemovals) = attemptAll remove w removed in
          if \<not> ok then rollbackRoutes add remove attemptedAdds attemptedRemovals w
          else (Updated, w))"

section \<open>What the callbacks promise\<close>

text \<open>
  \<open>routes\<close> is the set of installed bypass routes and \<open>fence\<close> the set of bypasses the firewall
  permits. A call that succeeds has its effect; a route call that fails touches at most its own
  route, and a failed firewall commit leaves one of the two policies.
\<close>

definition add_ok :: "('w \<Rightarrow> string set) \<Rightarrow> ('w \<Rightarrow> string set) \<Rightarrow> 'w routeCall \<Rightarrow> bool" where
  "add_ok routes fence add \<longleftrightarrow>
     (\<forall>w r ok w'. add w r = (ok, w') \<longrightarrow> fence w' = fence w
        \<and> (if ok then routes w' = insert r (routes w) else routes w' - {r} = routes w - {r}))"

definition remove_ok :: "('w \<Rightarrow> string set) \<Rightarrow> ('w \<Rightarrow> string set) \<Rightarrow> 'w routeCall \<Rightarrow> bool" where
  "remove_ok routes fence remove \<longleftrightarrow>
     (\<forall>w r ok w'. remove w r = (ok, w') \<longrightarrow> fence w' = fence w
        \<and> (if ok then routes w' = routes w - {r} else routes w' - {r} = routes w - {r}))"

definition firewall_ok :: "('w \<Rightarrow> string set) \<Rightarrow> ('w \<Rightarrow> string set) \<Rightarrow> 'w firewallCall \<Rightarrow> bool" where
  "firewall_ok routes fence firewall \<longleftrightarrow>
     (\<forall>w l ok w'. firewall w l = (ok, w') \<longrightarrow> routes w' = routes w
        \<and> (if ok then fence w' = set l else fence w' \<in> {fence w, set l}))"

definition callbacks_ok ::
  "('w \<Rightarrow> string set) \<Rightarrow> ('w \<Rightarrow> string set) \<Rightarrow> 'w firewallCall \<Rightarrow> 'w routeCall \<Rightarrow> 'w routeCall \<Rightarrow> bool" where
  "callbacks_ok routes fence firewall add remove \<longleftrightarrow>
     firewall_ok routes fence firewall \<and> add_ok routes fence add \<and> remove_ok routes fence remove"

section \<open>The loops\<close>

lemma set_missing [simp]: "set (missingRoutes a b) = set a - set b"
  by (simp add: missingRoutes_def)

lemma set_common [simp]: "set (commonRoutes a b) = set a \<inter> set b"
  by (simp add: commonRoutes_def)

lemma missing_Nil_iff [simp]: "missingRoutes a b = [] \<longleftrightarrow> set a \<subseteq> set b"
  using set_missing [of a b] by (metis Diff_eq_empty_iff set_empty2 set_empty)

text \<open>Any callback of the two kinds keeps the fence and every route but its own.\<close>

definition touches_own :: "('w \<Rightarrow> string set) \<Rightarrow> ('w \<Rightarrow> string set) \<Rightarrow> 'w routeCall \<Rightarrow> bool" where
  "touches_own routes fence f \<longleftrightarrow>
     (\<forall>w r ok w'. f w r = (ok, w') \<longrightarrow> fence w' = fence w \<and> routes w' - {r} = routes w - {r})"

lemma add_touches [intro]: "add_ok routes fence f \<Longrightarrow> touches_own routes fence f"
  unfolding add_ok_def touches_own_def
  by (intro allI impI, elim allE, erule (1) impE) (simp split: if_splits)

lemma remove_touches [intro]: "remove_ok routes fence f \<Longrightarrow> touches_own routes fence f"
  unfolding remove_ok_def touches_own_def
  by (intro allI impI, elim allE, erule (1) impE) (simp split: if_splits)

lemma attempt_frame:
  assumes "touches_own routes fence f" "attemptAll f w rs = (ok, w', tried)"
  shows "fence w' = fence w \<and> set tried \<subseteq> set rs \<and> (ok \<longrightarrow> tried = rs)
    \<and> routes w' - set tried = routes w - set tried"
  using assms(2)
proof (induction rs arbitrary: w ok w' tried)
  case (Cons r rs)
  obtain ok1 w1 where f: "f w r = (ok1, w1)" by fastforce
  have one: "fence w1 = fence w" "routes w1 - {r} = routes w - {r}"
    using assms(1) f unfolding touches_own_def by blast+
  show ?case
  proof (cases ok1)
    case False
    with Cons.prems f one show ?thesis by auto
  next
    case True
    with Cons.prems f obtain tried' where t: "tried = r # tried'" "attemptAll f w1 rs = (ok, w', tried')"
      by (auto split: prod.splits)
    have "routes w' - set tried' = routes w1 - set tried'" "fence w' = fence w1"
      "set tried' \<subseteq> set rs" "ok \<longrightarrow> tried' = rs"
      using Cons.IH [OF t(2)] by auto
    moreover have "routes w' - set tried = routes w - set tried"
      using one(2) calculation(1) t(1) by auto
    ultimately show ?thesis using one(1) t(1) by auto
  qed
qed simp

lemma attempt_added:
  "add_ok routes fence f \<Longrightarrow> attemptAll f w rs = (True, w', tried) \<Longrightarrow> routes w' = routes w \<union> set rs"
proof (induction rs arbitrary: w tried)
  case (Cons r rs)
  obtain w1 tried' where f: "f w r = (True, w1)" "attemptAll f w1 rs = (True, w', tried')"
    using Cons.prems(2) by (auto split: prod.splits if_splits)
  then have "routes w1 = insert r (routes w)" using Cons.prems(1) unfolding add_ok_def by force
  with Cons.IH [OF Cons.prems(1) f(2)] show ?case by simp
qed simp

lemma attempt_removed:
  "remove_ok routes fence f \<Longrightarrow> attemptAll f w rs = (True, w', tried) \<Longrightarrow> routes w' = routes w - set rs"
proof (induction rs arbitrary: w tried)
  case (Cons r rs)
  obtain w1 tried' where f: "f w r = (True, w1)" "attemptAll f w1 rs = (True, w', tried')"
    using Cons.prems(2) by (auto split: prod.splits if_splits)
  then have "routes w1 = routes w - {r}" using Cons.prems(1) unfolding remove_ok_def by force
  with Cons.IH [OF Cons.prems(1) f(2)] show ?case by auto
qed simp

lemma undo_frame:
  "touches_own routes fence f \<Longrightarrow> undoAll f (b, w) rs = (ok, w') \<Longrightarrow> fence w' = fence w \<and> (ok \<longrightarrow> b)"
proof (induction rs arbitrary: b w)
  case (Cons r rs)
  obtain ok1 w1 where f: "f w r = (ok1, w1)" by fastforce
  then have "undoAll f (ok1 \<and> b, w1) rs = (ok, w')" "fence w1 = fence w"
    using Cons.prems unfolding touches_own_def by auto
  with Cons.IH [OF Cons.prems(1)] show ?case by metis
qed simp

lemma undo_added:
  "add_ok routes fence f \<Longrightarrow> undoAll f (b, w) rs = (True, w') \<Longrightarrow> routes w' = routes w \<union> set rs"
proof (induction rs arbitrary: b w)
  case (Cons r rs)
  obtain ok1 w1 where f: "f w r = (ok1, w1)" by fastforce
  have u: "undoAll f (ok1 \<and> b, w1) rs = (True, w')" using Cons.prems(2) f by simp
  then have ok1 using undo_frame [OF add_touches [OF Cons.prems(1)] u] by simp
  then have "routes w1 = insert r (routes w)" using Cons.prems(1) f unfolding add_ok_def by force
  with Cons.IH [OF Cons.prems(1) u] show ?case by simp
qed simp

lemma undo_removed:
  "remove_ok routes fence f \<Longrightarrow> undoAll f (b, w) rs = (True, w') \<Longrightarrow> routes w' = routes w - set rs"
proof (induction rs arbitrary: b w)
  case (Cons r rs)
  obtain ok1 w1 where f: "f w r = (ok1, w1)" by fastforce
  have u: "undoAll f (ok1 \<and> b, w1) rs = (True, w')" using Cons.prems(2) f by simp
  then have ok1 using undo_frame [OF remove_touches [OF Cons.prems(1)] u] by simp
  then have "routes w1 = routes w - {r}" using Cons.prems(1) f unfolding remove_ok_def by force
  with Cons.IH [OF Cons.prems(1) u] show ?case by auto
qed simp

section \<open>Outcomes\<close>

definition replacedRoutes :: "string list \<Rightarrow> string list \<Rightarrow> string set \<Rightarrow> string set" where
  "replacedRoutes before after R = (R - (set before - set after)) \<union> (set after - set before)"

text \<open>
  The states a transaction may stop in: the fence is closed to the bypasses both policies share,
  or it permits exactly the policy whose routes are installed.
\<close>

definition consistent ::
  "string list \<Rightarrow> string list \<Rightarrow> string set \<Rightarrow> string set \<Rightarrow> string set \<Rightarrow> bool" where
  "consistent before after R0 F R \<longleftrightarrow>
     F = set before \<inter> set after \<or> F = set before \<and> R = R0 \<or> F = set after \<and> R = replacedRoutes before after R0"

lemma firewall_commit:
  assumes "firewall_ok routes fence firewall" "firewall w l = (ok, w')"
  shows "routes w' = routes w" "ok \<Longrightarrow> fence w' = set l" "fence w' = fence w \<or> fence w' = set l"
  using assms unfolding firewall_ok_def by (metis insertE singletonD)+

lemma callbacks_parts:
  assumes "callbacks_ok routes fence firewall add remove"
  shows "firewall_ok routes fence firewall" "add_ok routes fence add" "remove_ok routes fence remove"
    "touches_own routes fence add" "touches_own routes fence remove"
  using assms unfolding callbacks_ok_def by blast+

lemma rollback_outcome:
  assumes ok: "callbacks_ok routes fence firewall add remove"
    and adds: "set adds \<inter> R0 = {}" and removals: "set removals \<subseteq> R0"
    and frame: "routes w - (set adds \<union> set removals) = R0 - (set adds \<union> set removals)"
    and start: "fence w = set before \<inter> set after \<or> fence w = set after \<and> routes w = replacedRoutes before after R0"
    and run: "rollbackFenced firewall add remove before (commonRoutes before after) adds removals w = (res, w')"
  shows "consistent before after R0 (fence w') (routes w') \<and>
    (res = RolledBack \<and> fence w' = set before \<and> routes w' = R0 \<or> res = Uncertain)"
proof -
  note cb = callbacks_parts [OF ok]
  obtain b1 w1 where f1: "firewall w (commonRoutes before after) = (b1, w1)" by fastforce
  obtain b2 w2 where u2: "undoAll remove (True, w1) adds = (b2, w2)" by fastforce
  obtain b3 w3 where u3: "undoAll add (b2, w2) removals = (b3, w3)" by fastforce
  obtain b4 w4 where f4: "firewall w3 before = (b4, w4)" by fastforce
  have c1: "routes w1 = routes w" "fence w1 = fence w \<or> fence w1 = set before \<inter> set after"
    "b1 \<Longrightarrow> fence w1 = set before \<inter> set after"
    using firewall_commit [OF cb(1) f1] by auto
  show ?thesis
  proof (cases "b1 \<and> b3")
    case False
    then have "res = Uncertain" "w' = w1 \<and> \<not> b1 \<or> w' = w3 \<and> b1"
      using run f1 u2 u3 unfolding rollbackFenced_def by (auto simp: Let_def split: if_splits)
    moreover have "b1 \<Longrightarrow> fence w3 = set before \<inter> set after"
      using undo_frame [OF cb(4) u3] undo_frame [OF cb(5) u2] cb c1(3) by auto
    ultimately show ?thesis using start c1 unfolding consistent_def by auto
  next
    case True
    have t: "b2" "fence w3 = set before \<inter> set after"
      using undo_frame [OF cb(4) u3] undo_frame [OF cb(5) u2] cb c1(3) True by auto
    have "routes w3 = (routes w - set adds) \<union> set removals"
      using undo_added [of routes fence add b2 w2 removals w3] undo_removed [of routes fence remove True w1 adds w2]
        cb u2 u3 t True c1 by simp
    then have r3: "routes w3 = R0" using frame adds removals by blast
    have "w' = w4" "res = (if b4 then RolledBack else Uncertain)"
      using run f1 u2 u3 f4 True unfolding rollbackFenced_def by (auto simp: Let_def)
    then show ?thesis using firewall_commit [OF cb(1) f4] r3 t unfolding consistent_def by auto
  qed
qed

lemma replaceFenced_outcome:
  assumes ok: "callbacks_ok routes fence firewall add remove"
    and before: "set before \<subseteq> routes w" "fence w = set before"
    and fresh: "routes w \<inter> (set after - set before) = {}"
    and run: "replace firewall add remove before after w = (res, w')"
  shows "consistent before after (routes w) (fence w') (routes w') \<and>
    (res = Updated \<and> fence w' = set after \<and> routes w' = replacedRoutes before after (routes w)
     \<or> res = RolledBack \<and> fence w' = set before \<and> routes w' = routes w \<or> res = Uncertain)"
proof (cases "set before = set after")
  case True
  then show ?thesis using run before unfolding replace_def consistent_def replacedRoutes_def by auto
next
  case False
  note cb = callbacks_parts [OF ok]
  obtain b1 w1 where f1: "firewall w (commonRoutes before after) = (b1, w1)" by fastforce
  obtain b2 w2 rm where a2: "attemptAll remove w1 (missingRoutes before after) = (b2, w2, rm)"
    using prod_cases3 by blast
  obtain b3 w3 ad where a3: "attemptAll add w2 (missingRoutes after before) = (b3, w3, ad)"
    using prod_cases3 by blast
  obtain b4 w4 where f4: "firewall w3 after = (b4, w4)" by fastforce
  note body = run [unfolded replace_def Let_def] f1 a2 a3 f4
  have c1: "routes w1 = routes w" "fence w1 = fence w \<or> fence w1 = set before \<inter> set after"
    "b1 \<Longrightarrow> fence w1 = set before \<inter> set after"
    using firewall_commit [OF cb(1) f1] by auto
  have c2: "fence w2 = fence w1" "set rm \<subseteq> set before - set after" "routes w2 - set rm = routes w - set rm"
    using attempt_frame [OF cb(5) a2] cb c1(1) by auto
  have c3: "fence w3 = fence w2" "set ad \<subseteq> set after - set before" "routes w3 - set ad = routes w2 - set ad"
    using attempt_frame [OF cb(4) a3] cb by auto
  have c4: "routes w4 = routes w3" "b4 \<Longrightarrow> fence w4 = set after" "fence w4 = fence w3 \<or> fence w4 = set after"
    using firewall_commit [OF cb(1) f4] by auto
  have all_done: "routes w3 = replacedRoutes before after (routes w)" if b2 b3
    using attempt_removed [of routes fence remove w1] attempt_added [of routes fence add w2] a2 a3 that cb c1(1)
    unfolding replacedRoutes_def by auto
  have frame: "routes w3 - (set ad \<union> set rm) = routes w - (set ad \<union> set rm)"
    using c2(3) c3(3) by blast
  have empty: "set ad \<inter> routes w = {}" "set rm \<subseteq> routes w" using c2(2) c3(2) fresh before(1) by auto
  consider "\<not> b1" | "b1" "\<not> b2" | "b1" "b2" "\<not> b3" | "b1" "b2" "b3" "\<not> b4" | "b1" "b2" "b3" "b4" by blast
  then show ?thesis
  proof cases
    case 1
    then have "res = Uncertain" "w' = w1" using body False by (auto split: if_splits)
    then show ?thesis using c1 before(2) unfolding consistent_def by auto
  next
    case 2
    then have "rollbackFenced firewall add remove before (commonRoutes before after) [] rm w2 = (res, w')"
      using body False by (auto split: if_splits)
    from rollback_outcome [OF ok _ empty(2) _ _ this] show ?thesis using c1 c2 2 by auto
  next
    case 3
    then have "rollbackFenced firewall add remove before (commonRoutes before after) ad rm w3 = (res, w')"
      using body False by (auto split: if_splits)
    from rollback_outcome [OF ok empty frame _ this] show ?thesis using c1 c2 c3 3 by auto
  next
    case 4
    then have "rollbackFenced firewall add remove before (commonRoutes before after) ad rm w4 = (res, w')"
      using body False by (auto split: if_splits)
    from rollback_outcome [OF ok empty _ _ this] show ?thesis using frame c1 c2 c3 c4 all_done 4 by auto
  next
    case 5
    then have "res = Updated" "w' = w4" using body False by (auto split: if_splits)
    then show ?thesis using c4 all_done 5 unfolding consistent_def by auto
  qed
qed

lemma attempt_kept:
  assumes "touches_own routes fence f" "\<And>w r. Inv w \<Longrightarrow> fence w = C \<Longrightarrow> Inv (snd (f w r))"
    "Inv w" "fence w = C" "attemptAll f w rs = (ok, w', tried)"
  shows "Inv w' \<and> fence w' = C"
  using assms(3-)
proof (induction rs arbitrary: w ok tried)
  case (Cons r rs)
  obtain ok1 w1 where f: "f w r = (ok1, w1)" by fastforce
  have "Inv w1" "fence w1 = C"
    using assms(1) assms(2) [of w r] Cons.prems f unfolding touches_own_def by auto
  with Cons f show ?case by (auto split: prod.splits if_splits)
qed simp

lemma undo_kept:
  assumes "touches_own routes fence f" "\<And>w r. Inv w \<Longrightarrow> fence w = C \<Longrightarrow> Inv (snd (f w r))"
    "Inv w" "fence w = C" "undoAll f (b, w) rs = (ok, w')"
  shows "Inv w' \<and> fence w' = C"
  using assms(3-)
proof (induction rs arbitrary: b w)
  case (Cons r rs)
  obtain ok1 w1 where f: "f w r = (ok1, w1)" by fastforce
  have "Inv w1" "fence w1 = C"
    using assms(1) assms(2) [of w r] Cons.prems f unfolding touches_own_def by auto
  with Cons f show ?case by auto
qed simp

lemma rollback_kept:
  assumes ok: "callbacks_ok routes fence firewall add remove" and inv: "Inv w"
    and fw: "\<And>w l. Inv w \<Longrightarrow> Inv (snd (firewall w l))"
    and ad: "\<And>w r. Inv w \<Longrightarrow> fence w = set common \<Longrightarrow> Inv (snd (add w r))"
    and rm: "\<And>w r. Inv w \<Longrightarrow> fence w = set common \<Longrightarrow> Inv (snd (remove w r))"
    and run: "rollbackFenced firewall add remove before common adds removals w = (res, w')"
  shows "Inv w'"
proof -
  note cb = callbacks_parts [OF ok]
  obtain b1 w1 where f1: "firewall w common = (b1, w1)" by fastforce
  obtain b2 w2 where u2: "undoAll remove (True, w1) adds = (b2, w2)" by fastforce
  obtain b3 w3 where u3: "undoAll add (b2, w2) removals = (b3, w3)" by fastforce
  obtain b4 w4 where f4: "firewall w3 before = (b4, w4)" by fastforce
  have i1: "Inv w1" using fw [OF inv, of common] f1 by simp
  have i3: "Inv w3" if b1
  proof -
    have "Inv w2 \<and> fence w2 = set common"
      using undo_kept [where Inv = Inv, OF cb(5) rm i1 _ u2] firewall_commit(2) [OF cb(1) f1 that] by simp
    then show ?thesis using undo_kept [where Inv = Inv, OF cb(4) ad _ _ u3] by simp
  qed
  have "b1 \<Longrightarrow> Inv w4" using fw [OF i3, of before] f4 by simp
  with i1 i3 run show ?thesis unfolding rollbackFenced_def by (simp add: Let_def f1 u2 u3 f4 split: if_splits)
qed

lemma replaceFenced_kept:
  assumes ok: "callbacks_ok routes fence firewall add remove" and inv: "Inv w"
    and fw: "\<And>w l. Inv w \<Longrightarrow> Inv (snd (firewall w l))"
    and ad: "\<And>w r. Inv w \<Longrightarrow> fence w = set before \<inter> set after \<Longrightarrow> Inv (snd (add w r))"
    and rm: "\<And>w r. Inv w \<Longrightarrow> fence w = set before \<inter> set after \<Longrightarrow> Inv (snd (remove w r))"
    and run: "replace firewall add remove before after w = (res, w')"
  shows "Inv w'"
proof -
  note cb = callbacks_parts [OF ok]
  let ?c = "commonRoutes before after"
  obtain b1 w1 where f1: "firewall w ?c = (b1, w1)" by fastforce
  obtain b2 w2 tr where a2: "attemptAll remove w1 (missingRoutes before after) = (b2, w2, tr)"
    using prod_cases3 by blast
  obtain b3 w3 ta where a3: "attemptAll add w2 (missingRoutes after before) = (b3, w3, ta)"
    using prod_cases3 by blast
  obtain b4 w4 where f4: "firewall w3 after = (b4, w4)" by fastforce
  have undone: "Inv w'" if "Inv v" "rollbackFenced firewall add remove before ?c adds removals v = (res, w')"
    for v adds removals
    using rollback_kept [where Inv = Inv, OF ok that(1) _ _ _ that(2)] fw ad rm by simp
  have i1: "Inv w1" using fw [OF inv, of ?c] f1 by simp
  have i2: "Inv w2 \<and> fence w2 = set before \<inter> set after" if b1
    using attempt_kept [where Inv = Inv, OF cb(5) rm i1 _ a2] firewall_commit(2) [OF cb(1) f1 that] by simp
  have i3: "Inv w3" if b1
    using attempt_kept [where Inv = Inv, OF cb(4) ad _ _ a3] i2 [OF that] by simp
  have i4: "b1 \<Longrightarrow> Inv w4" using fw [OF i3, of after] f4 by simp
  show ?thesis
    using run inv i1 i2 i3 i4 unfolding replace_def
    by (auto simp add: Let_def f1 a2 a3 f4 split: if_splits dest: undone [rotated])
qed

lemma rollbackRoutes_outcome:
  assumes ok: "add_ok routes fence add" "remove_ok routes fence remove"
    and adds: "set adds \<inter> R0 = {}" and removals: "set removals \<subseteq> R0"
    and frame: "routes w - (set adds \<union> set removals) = R0 - (set adds \<union> set removals)"
    and run: "rollbackRoutes add remove adds removals w = (res, w')"
  shows "res = RolledBack \<and> routes w' = R0 \<or> res = Uncertain"
proof -
  obtain b2 w2 where u2: "undoAll add (True, w) removals = (b2, w2)" by fastforce
  obtain b3 w3 where u3: "undoAll remove (b2, w2) adds = (b3, w3)" by fastforce
  have "routes w3 = R0" if b3
  proof -
    have b2 using undo_frame [OF remove_touches [OF ok(2)] u3] that by simp
    then have "undoAll add (True, w) removals = (True, w2)" "undoAll remove (b2, w2) adds = (True, w3)"
      using u2 u3 that by auto
    then have "routes w3 = (routes w \<union> set removals) - set adds"
      using undo_added [OF ok(1), of True w removals w2] undo_removed [OF ok(2), of b2 w2 adds w3] by simp
    then show ?thesis using frame adds removals by blast
  qed
  then show ?thesis using run unfolding rollbackRoutes_def by (cases b3) (auto simp: u2 u3)
qed

lemma replaceRoutes_outcome:
  assumes ok: "add_ok routes fence add" "remove_ok routes fence remove"
    and before: "set before \<subseteq> routes w" and fresh: "routes w \<inter> (set after - set before) = {}"
    and run: "replaceRoutes add remove before after w = (res, w')"
  shows "res = Updated \<and> routes w' = replacedRoutes before after (routes w)
     \<or> res = RolledBack \<and> routes w' = routes w \<or> res = Uncertain"
proof (cases "set before = set after")
  case True
  then show ?thesis using run unfolding replaceRoutes_def replacedRoutes_def by auto
next
  case False
  note touches = add_touches [OF ok(1)] remove_touches [OF ok(2)]
  obtain b2 w2 ta where a2: "attemptAll add w (missingRoutes after before) = (b2, w2, ta)"
    using prod_cases3 by blast
  obtain b3 w3 tr where a3: "attemptAll remove w2 (missingRoutes before after) = (b3, w3, tr)"
    using prod_cases3 by blast
  have c2: "set ta \<subseteq> set after - set before" "routes w2 - set ta = routes w - set ta"
    using attempt_frame [OF touches(1) a2] by auto
  have c3: "set tr \<subseteq> set before - set after" "routes w3 - set tr = routes w2 - set tr"
    using attempt_frame [OF touches(2) a3] by auto
  have "routes w3 = replacedRoutes before after (routes w)" if b2 b3
    using attempt_added [OF ok(1), of w _ w2 ta] attempt_removed [OF ok(2), of w2 _ w3 tr] a2 a3 that
    unfolding replacedRoutes_def by auto
  moreover have "rollbackRoutes add remove ta [] w2 = (res, w') \<Longrightarrow> ?thesis"
    using rollbackRoutes_outcome [OF ok, of ta "routes w" "[]" w2] c2 fresh by auto
  moreover have "rollbackRoutes add remove ta tr w3 = (res, w') \<Longrightarrow> ?thesis"
    using rollbackRoutes_outcome [OF ok, of ta "routes w" tr w3] c2 c3 fresh before by blast
  ultimately show ?thesis using run False unfolding replaceRoutes_def Let_def by (auto simp: a2 a3 split: if_splits)
qed

lemma attempt_succeeds: "(\<And>w r. fst (f w r)) \<Longrightarrow> fst (attemptAll f w rs)"
proof (induction rs arbitrary: w)
  case (Cons r rs)
  have "fst (f w r)" "fst (attemptAll f (snd (f w r)) rs)" using Cons by auto
  then show ?case by (simp add: Let_def case_prod_beta)
qed simp

lemma replaceFenced_all_succeed:
  assumes "\<And>w l. fst (firewall w l)" "\<And>w r. fst (add w r)" "\<And>w r. fst (remove w r)"
  shows "fst (replace firewall add remove before after w) = Updated"
proof -
  obtain w1 where f1: "firewall w (commonRoutes before after) = (True, w1)"
    using assms(1) by (metis prod.collapse)
  obtain w2 tr where a2: "attemptAll remove w1 (missingRoutes before after) = (True, w2, tr)"
    using attempt_succeeds [of remove w1] assms(3) by (metis prod.collapse)
  obtain w3 ta where a3: "attemptAll add w2 (missingRoutes after before) = (True, w3, ta)"
    using attempt_succeeds [of add w2] assms(2) by (metis prod.collapse)
  obtain w4 where "firewall w3 after = (True, w4)" using assms(1) by (metis prod.collapse)
  then show ?thesis unfolding replace_def by (simp add: Let_def f1 a2 a3)
qed

lemma replaceRoutes_all_succeed:
  assumes "\<And>w r. fst (add w r)" "\<And>w r. fst (remove w r)"
  shows "fst (replaceRoutes add remove before after w) = Updated"
proof -
  obtain w2 ta where a2: "attemptAll add w (missingRoutes after before) = (True, w2, ta)"
    using attempt_succeeds [of add w] assms(1) by (metis prod.collapse)
  obtain w3 tr where a3: "attemptAll remove w2 (missingRoutes before after) = (True, w3, tr)"
    using attempt_succeeds [of remove w2] assms(2) by (metis prod.collapse)
  show ?thesis unfolding replaceRoutes_def by (simp add: Let_def a2 a3)
qed

section \<open>A host for the witnesses\<close>

text \<open>
  A host with its installed routes, its fence and the outcomes of its next calls; once the script
  is used up every call succeeds. A call that fails changes nothing.
\<close>

type_synonym host = "string set \<times> string set \<times> bool list"

definition hostCall :: "(string set \<times> string set \<Rightarrow> string set \<times> string set) \<Rightarrow> host \<Rightarrow> bool \<times> host" where
  "hostCall effect h =
     (case h of (R, F, outcomes) \<Rightarrow>
        if outcomes = [] \<or> hd outcomes then (True, (fst (effect (R, F)), snd (effect (R, F)), tl outcomes))
        else (False, (R, F, tl outcomes)))"

definition hostAdd :: "host routeCall" where
  "hostAdd h r = hostCall (\<lambda>(R, F). (insert r R, F)) h"

definition hostRemove :: "host routeCall" where
  "hostRemove h r = hostCall (\<lambda>(R, F). (R - {r}, F)) h"

definition hostFirewall :: "host firewallCall" where
  "hostFirewall h l = hostCall (\<lambda>(R, F). (R, set l)) h"

definition hostRoutes :: "host \<Rightarrow> string set" where "hostRoutes = fst"
definition hostFence :: "host \<Rightarrow> string set" where "hostFence = fst \<circ> snd"

lemmas host_defs = hostAdd_def hostRemove_def hostFirewall_def hostRoutes_def hostFence_def hostCall_def

lemma host_callbacks_ok: "callbacks_ok hostRoutes hostFence hostFirewall hostAdd hostRemove"
  unfolding callbacks_ok_def firewall_ok_def add_ok_def remove_ok_def
  by (auto simp: host_defs split: if_splits)

section \<open>Properties\<close>


lemma singleton_diff [simp]: "missingRoutes [a] [b] = (if a = b then [] else [a])"
  "commonRoutes [a] [b] = (if a = b then [a] else [])"
  by (auto simp: missingRoutes_def commonRoutes_def)

lemma host_run:
  "replace hostFirewall hostAdd hostRemove [''a''] [''b''] ({''a''}, {''a''}, [True, True, False])
   = (RolledBack, ({''a''}, {''a''}, []))"
  by (simp add: replace_def rollbackFenced_def host_defs)


text \<open>
  C33. Routes change only behind the closed fence: any property that firewall commits preserve, and
  that route calls preserve when made while the firewall permits exactly the common bypasses, holds
  after the transaction, whatever fails. With a recording host this says that no route call happens
  while a bypass of only one of the policies is permitted.
\<close>
theorem replaceFenced_routes_behind_fence:
  assumes "callbacks_ok routes fence firewall add remove" and "Inv w"
    and "\<And>w l. Inv w \<Longrightarrow> Inv (snd (firewall w l))"
    and "\<And>w r. Inv w \<Longrightarrow> fence w = set before \<inter> set after \<Longrightarrow> Inv (snd (add w r))"
    and "\<And>w r. Inv w \<Longrightarrow> fence w = set before \<inter> set after \<Longrightarrow> Inv (snd (remove w r))"
    and "replace firewall add remove before after w = (res, w')"
  shows "Inv w'"
  using replaceFenced_kept [where Inv = Inv, OF assms] .

text \<open>The host with an alarm that rings on a route call made while some bypass is permitted.\<close>

definition alarmed :: "host routeCall \<Rightarrow> (host \<times> bool) routeCall" where
  "alarmed f w r = (let (ok, h) = f (fst w) r in (ok, (h, snd w \<or> hostFence (fst w) \<noteq> {})))"

definition quietFirewall :: "(host \<times> bool) firewallCall" where
  "quietFirewall w l = (let (ok, h) = hostFirewall (fst w) l in (ok, (h, snd w)))"

lemma alarmed_callbacks_ok:
  "callbacks_ok (hostRoutes \<circ> fst) (hostFence \<circ> fst) quietFirewall (alarmed hostAdd) (alarmed hostRemove)"
  unfolding callbacks_ok_def firewall_ok_def add_ok_def remove_ok_def
  by (auto simp: alarmed_def quietFirewall_def host_defs split: if_splits)

lemma alarmed_run:
  "replace quietFirewall (alarmed hostAdd) (alarmed hostRemove) [''a''] [''b'']
     (({''a''}, {''a''}, [True, True, False]), False) = (RolledBack, (({''a''}, {''a''}, []), False))"
  by (simp add: replace_def rollbackFenced_def alarmed_def quietFirewall_def host_defs)

theorem replaceFenced_routes_behind_fence_witness:
  "\<not> snd (snd (replace quietFirewall (alarmed hostAdd) (alarmed hostRemove) [''a''] [''b'']
     (({''a''}, {''a''}, [True, True, False]), False)))"
  using replaceFenced_routes_behind_fence [where Inv = "\<lambda>w. \<not> snd w", OF alarmed_callbacks_ok _ _ _ _ alarmed_run]
  by (simp add: alarmed_run alarmed_def quietFirewall_def case_prod_beta)

text \<open>
  The replacement without a fence: ended \<open>Updated\<close>, the new routes are installed; ended
  \<open>RolledBack\<close>, the old ones are; the third outcome is \<open>Uncertain\<close>, and the transaction never
  reports \<open>Rejected\<close> or \<open>Unsupported\<close>.
\<close>
theorem replaceRoutes_atomic:
  assumes "add_ok routes fence add" "remove_ok routes fence remove"
    and "set before \<subseteq> routes w" and "routes w \<inter> (set after - set before) = {}"
    and "replaceRoutes add remove before after w = (res, w')"
  shows "res = Updated \<and> routes w' = replacedRoutes before after (routes w)
     \<or> res = RolledBack \<and> routes w' = routes w \<or> res = Uncertain"
  using replaceRoutes_outcome [OF assms] .

lemmas host_parts = callbacks_parts(2) [OF host_callbacks_ok] callbacks_parts(3) [OF host_callbacks_ok]

lemma host_run_routes:
  "replaceRoutes hostAdd hostRemove [''a''] [''b''] ({''a''}, {}, [True, False]) = (RolledBack, ({''a''}, {}, []))"
  by (simp add: replaceRoutes_def rollbackRoutes_def host_defs) auto

theorem replaceRoutes_atomic_witness:
  "hostRoutes (snd (replaceRoutes hostAdd hostRemove [''a''] [''b''] ({''a''}, {}, [True, False]))) = {''a''}"
  using replaceRoutes_atomic [OF host_parts _ _ host_run_routes]
  by (simp add: host_run_routes) (simp add: host_defs)



end
