(* ===== verification/Remote_Log_Health.thy ===== *)
theory Remote_Log_Health
  imports Base
begin

text \<open>
  The privacy decisions of the remote log uploader (\<open>core/utils/remoteLogBatchHealth.h\<close>,
  \<open>remoteLogReceipt.h\<close>): the secrets to redact, the transition that keeps payloads redacted after
  the secrets of a source changed, and when a batch counts as healthy. Offsets are only compared,
  so \<open>qint64\<close> values are integers.
\<close>

section \<open>Secrets and persistence\<close>

definition MaximumRemoteLogSanitizerExplicitSecrets :: nat where
  "MaximumRemoteLogSanitizerExplicitSecrets = 64"

record RemoteLogSanitizerSecretSet =
  secretValues :: "string list"
  secretsForceRedacted :: bool

datatype RemoteLogPersistenceStatus = Healthy | ReadError | FormatError | WriteError | SyncError

definition remoteLogPersistenceMustFailClosed :: "RemoteLogPersistenceStatus \<Rightarrow> bool" where
  "remoteLogPersistenceMustFailClosed status \<longleftrightarrow> status \<noteq> Healthy"

definition remoteLogRecoveryCheckpointCanRetry :: "int \<Rightarrow> int \<Rightarrow> bool" where
  "remoteLogRecoveryCheckpointCanRetry attempts maximumAttempts \<longleftrightarrow> 0 \<le> attempts \<and> attempts < maximumAttempts"

datatype RemoteLogRetryMarkerCapacityDecision = Store | GlobalFailClosed

definition remoteLogRetryMarkerCapacityDecision ::
  "int \<Rightarrow> int \<Rightarrow> bool \<Rightarrow> bool \<Rightarrow> RemoteLogPersistenceStatus \<Rightarrow> RemoteLogRetryMarkerCapacityDecision" where
  "remoteLogRetryMarkerCapacityDecision markerCount maximumMarkers markerAlreadyPresent globalTombstone
     persistenceStatus =
     (if globalTombstone \<or> remoteLogPersistenceMustFailClosed persistenceStatus
         \<or> (\<not> markerAlreadyPresent \<and> maximumMarkers \<le> markerCount)
      then GlobalFailClosed else Store)"

text \<open>The loop over the current secrets; an overflow clears the list and redacts the payload.\<close>

fun secretUnionLoop :: "string list \<Rightarrow> string list \<Rightarrow> RemoteLogSanitizerSecretSet" where
  "secretUnionLoop vals [] = \<lparr>secretValues = vals, secretsForceRedacted = False\<rparr>"
| "secretUnionLoop vals (v # current) =
     (if v = [] \<or> v \<in> set vals then secretUnionLoop vals current
      else if MaximumRemoteLogSanitizerExplicitSecrets \<le> length vals
      then \<lparr>secretValues = [], secretsForceRedacted = True\<rparr>
      else secretUnionLoop (vals @ [v]) current)"

definition remoteLogSanitizerSecretUnion ::
  "RemoteLogSanitizerSecretSet \<Rightarrow> string list \<Rightarrow> RemoteLogSanitizerSecretSet" where
  "remoteLogSanitizerSecretUnion inherited current =
     (if secretsForceRedacted inherited then inherited
      else secretUnionLoop (secretValues inherited) current)"

section \<open>The secret transition\<close>

record TransitionState =
  present :: bool
  awaitingStableSource :: bool
  highWaterOffset :: int

definition noTransition :: TransitionState where
  "noTransition = \<lparr>present = False, awaitingStableSource = False, highWaterOffset = 0\<rparr>"

record TransitionEvidence =
  markerValid :: bool
  sourceIdentityMatches :: bool
  cursorMatchesSource :: bool
  markerCursorMatches :: bool
  markerCursorIsAhead :: bool
  lastAcceptedSecretSetMatches :: bool
  markerSecretSetMatches :: bool
  sourceEpochRebindSafe :: bool
  sourceSize :: int
  acceptedCursorOffset :: int

record TransitionResult =
  resultState :: TransitionState
  forceRedacted :: bool
  updateMarkerSecretSet :: bool
  persistMarker :: bool
  clearMarker :: bool
  globalFailClosed :: bool

definition transitionResult :: "TransitionState \<Rightarrow> TransitionResult" where
  "transitionResult s = \<lparr>resultState = s, forceRedacted = False, updateMarkerSecretSet = False,
     persistMarker = False, clearMarker = False, globalFailClosed = False\<rparr>"

definition failClosed :: "TransitionResult \<Rightarrow> TransitionResult" where
  "failClosed r = r\<lparr>forceRedacted := True, globalFailClosed := True\<rparr>"

text \<open>The tail of the scan, once the high-water mark and the secret set have been compared.\<close>

definition advanceAwaiting :: "TransitionResult \<Rightarrow> TransitionEvidence \<Rightarrow> TransitionResult" where
  "advanceAwaiting result evidence =
     (let state = resultState result in
      if \<not> awaitingStableSource state then result\<lparr>forceRedacted := True\<rparr>
      else if \<not> markerCursorMatches evidence then
        (if markerCursorIsAhead evidence \<and> acceptedCursorOffset evidence < highWaterOffset state
         then result\<lparr>resultState := state\<lparr>awaitingStableSource := False\<rparr>, persistMarker := True,
                     forceRedacted := True\<rparr>
         else failClosed result)
      else if lastAcceptedSecretSetMatches evidence
         \<and> sourceSize evidence = acceptedCursorOffset evidence
         \<and> acceptedCursorOffset evidence = highWaterOffset state
      then result\<lparr>resultState := noTransition, clearMarker := True\<rparr>
      else if acceptedCursorOffset evidence < highWaterOffset state
      then result\<lparr>resultState := state\<lparr>awaitingStableSource := False\<rparr>, persistMarker := True,
                  forceRedacted := True\<rparr>
      else if \<not> lastAcceptedSecretSetMatches evidence then failClosed result
      else result\<lparr>forceRedacted := True\<rparr>)"

definition advancePresent :: "TransitionState \<Rightarrow> TransitionEvidence \<Rightarrow> TransitionResult" where
  "advancePresent state evidence =
     (let result = transitionResult state;
          result =
            (if highWaterOffset state < sourceSize evidence
             then result\<lparr>resultState := state\<lparr>highWaterOffset := sourceSize evidence,
                                            awaitingStableSource := False\<rparr>, persistMarker := True\<rparr>
             else result);
          result =
            (if \<not> markerSecretSetMatches evidence
             then result\<lparr>resultState := (resultState result)\<lparr>awaitingStableSource := False\<rparr>,
                         updateMarkerSecretSet := True, persistMarker := True\<rparr>
             else result)
      in advanceAwaiting result evidence)"

definition evidenceBroken :: "TransitionState \<Rightarrow> TransitionEvidence \<Rightarrow> bool" where
  "evidenceBroken state evidence \<longleftrightarrow>
     \<not> markerValid evidence \<or> sourceSize evidence < 0 \<or> acceptedCursorOffset evidence < 0
     \<or> sourceSize evidence < acceptedCursorOffset evidence
     \<or> (present state
        \<and> (\<not> sourceIdentityMatches evidence \<or> \<not> cursorMatchesSource evidence
           \<or> highWaterOffset state < 0 \<or> sourceSize evidence < highWaterOffset state
           \<or> highWaterOffset state < acceptedCursorOffset evidence))"

definition remoteLogAdvanceSecretTransition ::
  "TransitionState \<Rightarrow> TransitionEvidence \<Rightarrow> TransitionResult" where
  "remoteLogAdvanceSecretTransition state evidence =
     (let result = transitionResult state in
      if present state \<and> awaitingStableSource state \<and> sourceEpochRebindSafe evidence
      then failClosed result
      else if present state \<and> \<not> awaitingStableSource state \<and> sourceEpochRebindSafe evidence
         \<and> markerValid evidence \<and> 0 \<le> sourceSize evidence \<and> 0 \<le> acceptedCursorOffset evidence
         \<and> acceptedCursorOffset evidence \<le> sourceSize evidence
      then result\<lparr>resultState := state\<lparr>highWaterOffset := sourceSize evidence, awaitingStableSource := False\<rparr>,
                  updateMarkerSecretSet := True, persistMarker := True, forceRedacted := True\<rparr>
      else if evidenceBroken state evidence then failClosed result
      else if \<not> present state then
        (if lastAcceptedSecretSetMatches evidence then result
         else result\<lparr>resultState := \<lparr>present = True, awaitingStableSource = False,
                                    highWaterOffset = sourceSize evidence\<rparr>,
                     updateMarkerSecretSet := True, persistMarker := True, forceRedacted := True\<rparr>)
      else advancePresent state evidence)"

definition remoteLogArmStableSourceAfterAck ::
  "TransitionState \<Rightarrow> bool \<Rightarrow> bool \<Rightarrow> bool \<Rightarrow> int \<Rightarrow> int \<Rightarrow> TransitionResult" where
  "remoteLogArmStableSourceAfterAck state valid identityMatches secretSetMatches capturedSize accepted =
     (let result = transitionResult state in
      if \<not> present state then result
      else if \<not> valid \<or> \<not> identityMatches \<or> \<not> secretSetMatches
         \<or> capturedSize < highWaterOffset state \<or> accepted < 0 \<or> capturedSize < accepted
      then failClosed result
      else result\<lparr>resultState := state\<lparr>highWaterOffset := capturedSize, awaitingStableSource := True\<rparr>,
                  forceRedacted := True, persistMarker := True\<rparr>)"

definition remoteLogAcceptedTransitionCanClose ::
  "bool \<Rightarrow> bool \<Rightarrow> bool \<Rightarrow> bool \<Rightarrow> bool \<Rightarrow> int \<Rightarrow> int \<Rightarrow> int \<Rightarrow> bool" where
  "remoteLogAcceptedTransitionCanClose valid identityMatches cursorMatches markerCursor secretSetMatches
     capturedSize accepted highWater \<longleftrightarrow>
     valid \<and> identityMatches \<and> cursorMatches \<and> markerCursor \<and> secretSetMatches
     \<and> 0 \<le> highWater \<and> capturedSize = accepted \<and> accepted = highWater"

section \<open>Records, receipts and health\<close>

definition remoteLogByteIsRecordDelimiter :: "char \<Rightarrow> bool" where
  "remoteLogByteIsRecordDelimiter c \<longleftrightarrow> c = char_of (10::nat) \<or> c = char_of (13::nat)"

definition remoteLogCapturedReadIsExact :: "int \<Rightarrow> int \<Rightarrow> bool" where
  "remoteLogCapturedReadIsExact requestedBytes actualBytes \<longleftrightarrow> 0 \<le> requestedBytes \<and> actualBytes = requestedBytes"

definition remoteLogCapturedTailIsPartial :: "int \<Rightarrow> bool \<Rightarrow> bool" where
  "remoteLogCapturedTailIsPartial byteCount endsWithRecordDelimiter \<longleftrightarrow>
     0 < byteCount \<and> \<not> endsWithRecordDelimiter"

definition remoteLogBatchCanBecomeHealthy ::
  "bool \<Rightarrow> bool \<Rightarrow> bool \<Rightarrow> bool \<Rightarrow> bool \<Rightarrow> bool \<Rightarrow> bool \<Rightarrow> bool" where
  "remoteLogBatchCanBecomeHealthy batchHadFailure allExpectedSourcesReadable hasPendingSourceScan
     rerunRequested privacyFailClosed privacyQuarantined wholeRedactionUsed \<longleftrightarrow>
     \<not> batchHadFailure \<and> allExpectedSourcesReadable \<and> \<not> hasPendingSourceScan \<and> \<not> rerunRequested
     \<and> \<not> privacyFailClosed \<and> \<not> privacyQuarantined \<and> \<not> wholeRedactionUsed"

definition remoteLogBatchReceiptAccepted :: "string \<Rightarrow> string \<Rightarrow> string \<Rightarrow> bool" where
  "remoteLogBatchReceiptAccepted acceptedHeader receivedBatchId expectedBatchId \<longleftrightarrow>
     acceptedHeader = ''1'' \<and> expectedBatchId \<noteq> [] \<and> receivedBatchId = expectedBatchId"

section \<open>The transition as a machine\<close>

text \<open>A scan of the source, or the receipt of the batch that carried the redacted range.\<close>

datatype TransitionEvent =
  Scan TransitionEvidence
| Ack bool bool bool int int

fun transitionStep :: "TransitionState \<Rightarrow> TransitionEvent \<Rightarrow> TransitionState \<times> TransitionResult" where
  "transitionStep s (Scan ev) =
     (let r = remoteLogAdvanceSecretTransition s ev in (resultState r, r))"
| "transitionStep s (Ack valid identityMatches secretSetMatches captured accepted) =
     (let r = remoteLogArmStableSourceAfterAck s valid identityMatches secretSetMatches captured accepted
      in (resultState r, r))"

fun isAck :: "TransitionEvent \<Rightarrow> bool" where
  "isAck (Scan _) = False"
| "isAck (Ack _ _ _ _ _) = True"

definition armedMarker :: "TransitionState \<Rightarrow> bool" where
  "armedMarker s \<longleftrightarrow> present s \<and> awaitingStableSource s"

lemma awaiting_open:
  "\<not> forceRedacted r \<Longrightarrow> \<not> clearMarker r
   \<Longrightarrow> \<not> forceRedacted (advanceAwaiting r ev) \<longleftrightarrow> clearMarker (advanceAwaiting r ev)"
  unfolding advanceAwaiting_def failClosed_def Let_def by simp

lemma awaiting_keeps:
  "\<not> clearMarker r \<Longrightarrow> \<not> clearMarker (advanceAwaiting r ev)
   \<Longrightarrow> present (resultState (advanceAwaiting r ev)) = present (resultState r)"
  "\<not> awaitingStableSource (resultState r) \<Longrightarrow> \<not> awaitingStableSource (resultState (advanceAwaiting r ev))"
  "\<not> clearMarker r \<Longrightarrow> clearMarker (advanceAwaiting r ev) \<Longrightarrow> resultState (advanceAwaiting r ev) = noTransition"
  unfolding advanceAwaiting_def failClosed_def Let_def by (auto split: if_splits)

lemma present_open:
  "\<not> forceRedacted (advancePresent s ev) \<longleftrightarrow> clearMarker (advancePresent s ev)"
  unfolding advancePresent_def Let_def by (intro awaiting_open) (simp_all add: transitionResult_def)

lemma present_keeps:
  "\<not> clearMarker (advancePresent s ev) \<Longrightarrow> present (resultState (advancePresent s ev)) = present s"
  "\<not> awaitingStableSource s \<Longrightarrow> \<not> awaitingStableSource (resultState (advancePresent s ev))"
  "clearMarker (advancePresent s ev) \<Longrightarrow> resultState (advancePresent s ev) = noTransition"
  unfolding advancePresent_def Let_def
  by (simp_all add: transitionResult_def awaiting_keeps split: if_splits)

lemma awaiting_clear_iff:
  "\<not> clearMarker r \<Longrightarrow> clearMarker (advanceAwaiting r ev) \<longleftrightarrow>
     awaitingStableSource (resultState r) \<and> markerCursorMatches ev \<and> lastAcceptedSecretSetMatches ev
     \<and> sourceSize ev = acceptedCursorOffset ev \<and> acceptedCursorOffset ev = highWaterOffset (resultState r)"
  unfolding advanceAwaiting_def failClosed_def Let_def by auto

lemma present_clear_iff:
  "clearMarker (advancePresent s ev) \<longleftrightarrow>
     awaitingStableSource s \<and> sourceSize ev \<le> highWaterOffset s \<and> markerSecretSetMatches ev
     \<and> markerCursorMatches ev \<and> lastAcceptedSecretSetMatches ev
     \<and> sourceSize ev = acceptedCursorOffset ev \<and> acceptedCursorOffset ev = highWaterOffset s"
  unfolding advancePresent_def Let_def
  by (cases "highWaterOffset s < sourceSize ev"; cases "markerSecretSetMatches ev")
    (simp_all add: transitionResult_def awaiting_clear_iff)

lemmas advance_top = remoteLogAdvanceSecretTransition_def failClosed_def transitionResult_def Let_def

lemma advance_clear_iff:
  "clearMarker (remoteLogAdvanceSecretTransition s ev) \<longleftrightarrow>
     armedMarker s \<and> \<not> sourceEpochRebindSafe ev \<and> markerSecretSetMatches ev
     \<and> remoteLogAcceptedTransitionCanClose (markerValid ev) (sourceIdentityMatches ev) (cursorMatchesSource ev)
         (markerCursorMatches ev) (lastAcceptedSecretSetMatches ev) (sourceSize ev) (acceptedCursorOffset ev)
         (highWaterOffset s)"
  by (auto simp: advance_top present_clear_iff remoteLogAcceptedTransitionCanClose_def armedMarker_def
      evidenceBroken_def)

lemma advance_open_iff:
  "\<not> forceRedacted (remoteLogAdvanceSecretTransition s ev) \<longleftrightarrow>
     clearMarker (remoteLogAdvanceSecretTransition s ev)
     \<or> \<not> present s \<and> lastAcceptedSecretSetMatches ev \<and> \<not> evidenceBroken s ev"
  using present_open [of s ev] by (simp add: advance_top)

lemma advance_disarmed:
  "\<not> armedMarker s \<Longrightarrow> \<not> armedMarker (resultState (remoteLogAdvanceSecretTransition s ev))"
  unfolding armedMarker_def using present_keeps [of s ev] by (auto simp: advance_top)

lemma advance_present:
  "present s \<Longrightarrow> \<not> clearMarker (remoteLogAdvanceSecretTransition s ev)
   \<Longrightarrow> present (resultState (remoteLogAdvanceSecretTransition s ev))"
  using present_keeps [of s ev] by (simp add: advance_top split: if_splits)

lemma clear_resets:
  "clearMarker (remoteLogAdvanceSecretTransition s ev)
   \<Longrightarrow> resultState (remoteLogAdvanceSecretTransition s ev) = noTransition"
  using present_keeps(3) [of s ev] by (auto simp: advance_top split: if_splits)

lemma ack_never_clears: "\<not> clearMarker (remoteLogArmStableSourceAfterAck s a b c d e)"
  by (simp add: remoteLogArmStableSourceAfterAck_def transitionResult_def failClosed_def Let_def)

interpretation marker: one_shot_machine transitionStep clearMarker armedMarker isAck
proof unfold_locales
  fix s e
  show "clearMarker (snd (transitionStep s e)) \<Longrightarrow> armedMarker s"
    by (cases e) (auto simp: Let_def advance_clear_iff ack_never_clears)
  show "clearMarker (snd (transitionStep s e)) \<Longrightarrow> \<not> armedMarker (fst (transitionStep s e))"
    by (cases e) (auto simp: Let_def clear_resets ack_never_clears armedMarker_def noTransition_def)
  show "\<not> armedMarker s \<Longrightarrow> \<not> isAck e \<Longrightarrow> \<not> armedMarker (fst (transitionStep s e))"
    by (cases e) (auto simp: Let_def advance_disarmed)
qed

lemma scans_redacted:
  "present s \<Longrightarrow> \<not> armedMarker s \<Longrightarrow> (\<forall>e \<in> set es. \<not> isAck e)
   \<Longrightarrow> (\<forall>r \<in> set (outs transitionStep s es). forceRedacted r) \<and> present (run transitionStep s es)"
proof (induction es arbitrary: s)
  case (Cons e es)
  obtain ev where e: "e = Scan ev" using Cons.prems(3) by (cases e) auto
  have n: "\<not> clearMarker (remoteLogAdvanceSecretTransition s ev)" using Cons.prems(2) by (simp add: advance_clear_iff)
  have "present (fst (transitionStep s e))" "\<not> armedMarker (fst (transitionStep s e))"
    "forceRedacted (snd (transitionStep s e))"
    using n Cons.prems(1,2) advance_open_iff [of s ev] by (auto simp: e Let_def advance_present advance_disarmed)
  with Cons.IH [of "fst (transitionStep s e)"] Cons.prems(3) show ?case by simp
qed simp

lemma secretUnionLoop_spec:
  "length vals \<le> 64 \<Longrightarrow>
   secretsForceRedacted (secretUnionLoop vals current)
   \<or> set (secretValues (secretUnionLoop vals current)) = set vals \<union> {v \<in> set current. v \<noteq> []}
     \<and> length (secretValues (secretUnionLoop vals current)) \<le> 64"
  by (induction vals current rule: secretUnionLoop.induct)
    (auto simp: MaximumRemoteLogSanitizerExplicitSecrets_def)

section \<open>Properties\<close>

text \<open>
  C22. A scan leaves the payload unredacted in exactly two situations: no transition is under way and
  the accepted secret set still matches on sound evidence, or the marker is cleared; and the marker
  is cleared exactly when a receipt has armed it, the source is not a new epoch, its secret set
  matches, and the closing predicate of the accepted transition holds.
\<close>
theorem transition_opens_iff:
  "(\<not> forceRedacted (remoteLogAdvanceSecretTransition s ev) \<longleftrightarrow>
     clearMarker (remoteLogAdvanceSecretTransition s ev)
     \<or> \<not> present s \<and> lastAcceptedSecretSetMatches ev \<and> \<not> evidenceBroken s ev)
   \<and> (clearMarker (remoteLogAdvanceSecretTransition s ev) \<longleftrightarrow>
     armedMarker s \<and> \<not> sourceEpochRebindSafe ev \<and> markerSecretSetMatches ev
     \<and> remoteLogAcceptedTransitionCanClose (markerValid ev) (sourceIdentityMatches ev) (cursorMatchesSource ev)
         (markerCursorMatches ev) (lastAcceptedSecretSetMatches ev) (sourceSize ev) (acceptedCursorOffset ev)
         (highWaterOffset s))"
  using advance_open_iff advance_clear_iff by blast

text \<open>
  A transition needs a receipt: from a marker that no receipt has armed, every scan of any
  sequence of scans is redacted and the marker stays; and between two receipts the marker is
  cleared at most once, whatever the scans report.
\<close>
theorem transition_needs_receipt:
  assumes "\<forall>e \<in> set es. \<not> isAck e"
  shows "length (filter clearMarker (outs transitionStep s es)) \<le> 1
    \<and> (present s \<and> \<not> armedMarker s
       \<longrightarrow> (\<forall>r \<in> set (outs transitionStep s es). forceRedacted r) \<and> present (run transitionStep s es))"
  using assms marker.at_most_once scans_redacted by blast

definition cleanEvidence :: TransitionEvidence where
  "cleanEvidence = \<lparr>markerValid = True, sourceIdentityMatches = True, cursorMatchesSource = True,
     markerCursorMatches = True, markerCursorIsAhead = False, lastAcceptedSecretSetMatches = True,
     markerSecretSetMatches = True, sourceEpochRebindSafe = False, sourceSize = 10, acceptedCursorOffset = 10\<rparr>"

theorem transition_needs_receipt_witness:
  "(let s = \<lparr>present = True, awaitingStableSource = False, highWaterOffset = 10\<rparr> in
    (\<forall>r \<in> set (outs transitionStep s [Scan cleanEvidence, Scan cleanEvidence]). forceRedacted r)
    \<and> present (run transitionStep s [Scan cleanEvidence, Scan cleanEvidence]))"
  using transition_needs_receipt [of "[Scan cleanEvidence, Scan cleanEvidence]"
      "\<lparr>present = True, awaitingStableSource = False, highWaterOffset = 10\<rparr>"]
  by (simp add: armedMarker_def del: outs.simps run.simps)

text \<open>
  The bounded secret union never forgets a secret: the result redacts the whole payload, or it
  holds at most 64 values that include every inherited one and every non-empty current one.
\<close>
theorem secretUnion_keeps:
  assumes "length (secretValues inherited) \<le> MaximumRemoteLogSanitizerExplicitSecrets"
  shows "secretsForceRedacted (remoteLogSanitizerSecretUnion inherited current)
    \<or> set (secretValues (remoteLogSanitizerSecretUnion inherited current))
        = set (secretValues inherited) \<union> {v \<in> set current. v \<noteq> []}
      \<and> length (secretValues (remoteLogSanitizerSecretUnion inherited current))
        \<le> MaximumRemoteLogSanitizerExplicitSecrets"
  using assms secretUnionLoop_spec [of "secretValues inherited" current]
  unfolding remoteLogSanitizerSecretUnion_def MaximumRemoteLogSanitizerExplicitSecrets_def by auto

theorem secretUnion_keeps_witness:
  "set (secretValues (remoteLogSanitizerSecretUnion
     \<lparr>secretValues = [''a''], secretsForceRedacted = False\<rparr> [[], ''b'', ''a''])) = {''a'', ''b''}"
  using secretUnion_keeps [of "\<lparr>secretValues = [''a''], secretsForceRedacted = False\<rparr>" "[[], ''b'', ''a'']"]
  by (simp add: remoteLogSanitizerSecretUnion_def MaximumRemoteLogSanitizerExplicitSecrets_def)

end
