(* ===== verification/Update_Policy.thy ===== *)
theory Update_Policy
  imports Qt_Reference
begin

text \<open>
  The decisions of the self-hosted update channel (\<open>core/utils/selfhostedUpdatePolicy.h\<close>): exact
  versions, canonical timestamps and digests, rollout cohorts, generation bindings, rollback leases
  and platform keys. The version, date, path and identifier services of Qt are the fields of
  \<open>updateServices\<close>.
\<close>

section \<open>Services\<close>

text \<open>
  \<open>u_version\<close> is \<open>QVersionNumber::fromString\<close> with its suffix index and \<open>u_less\<close> the order of
  version numbers; \<open>u_stamp\<close> parses a date and says whether it is in UTC, \<open>u_stampText\<close> prints it.
\<close>

record updateServices =
  u_version :: "string \<Rightarrow> int list \<times> nat"
  u_less :: "int list \<Rightarrow> int list \<Rightarrow> bool"
  u_stamp :: "string \<Rightarrow> (int \<times> bool) option"
  u_stampText :: "int \<Rightarrow> string"
  u_uuid :: "string \<Rightarrow> string option"
  u_fromNative :: "string \<Rightarrow> string"
  u_absolutePath :: "string \<Rightarrow> string"
  u_isAbsolute :: "string \<Rightarrow> bool"
  u_cleanPath :: "string \<Rightarrow> string"
  u_fileName :: "string \<Rightarrow> string"
  u_relativePath :: "string \<Rightarrow> string \<Rightarrow> string"

section \<open>Results\<close>

definition CohortBucketCount :: int where "CohortBucketCount = 10000"
definition MaximumCohortIdentityLength :: nat where "MaximumCohortIdentityLength = 512"

datatype ManifestResult = InvalidManifest | StaleManifest | NoUpdate | UpdateAvailable

definition shouldTryNextManifest :: "ManifestResult \<Rightarrow> bool" where
  "shouldTryNextManifest result \<longleftrightarrow> result = InvalidManifest \<or> result = StaleManifest"

datatype GenerationBindingDisposition =
  InvalidCandidate | Stale | MissingPayloadBinding | ConflictingPayload | AcceptExisting | AcceptAdvance

datatype PlatformFamily = Windows | MacOS | IOS | Android | Linux | UnsupportedPlatform

datatype ReleasePolicyDisposition =
  NoDisposition | Eligible | Paused | Expired | VersionIneligible | CohortIneligible

datatype RollbackLeaseDisposition = InvalidLease | Acquire | Wait | Recover | Exhausted

fun releasePolicyDispositionName :: "ReleasePolicyDisposition \<Rightarrow> string" where
  "releasePolicyDispositionName Eligible = ''eligible''"
| "releasePolicyDispositionName Paused = ''paused''"
| "releasePolicyDispositionName Expired = ''expired''"
| "releasePolicyDispositionName VersionIneligible = ''version_ineligible''"
| "releasePolicyDispositionName CohortIneligible = ''cohort_ineligible''"
| "releasePolicyDispositionName NoDisposition = ''none''"

section \<open>Versions, timestamps and identifiers\<close>

definition exactPart :: "string \<Rightarrow> bool" where
  "exactPart part \<longleftrightarrow>
     part \<noteq> [] \<and> \<not> (1 < length part \<and> hd part = CHR ''0'') \<and> list_all is_ascii_digit part"

definition parseExactVersion :: "qt \<Rightarrow> updateServices \<Rightarrow> string \<Rightarrow> int list option" where
  "parseExactVersion Q U s =
     (if s = [] \<or> s \<noteq> trimmed Q s then None
      else
        let parts = split_on (CHR ''.'') s in
        if length parts \<noteq> 4 \<or> \<not> list_all exactPart parts then None
        else
          let (version, suffixIndex) = u_version U s in
          if version = [] \<or> suffixIndex \<noteq> length s \<or> length version \<noteq> 4 then None else Some version)"

definition stampSeparators :: "(nat \<times> char) list" where
  "stampSeparators = [(4, CHR ''-''), (7, CHR ''-''), (10, CHR ''T''), (13, CHR '':''), (16, CHR '':''), (19, CHR ''Z'')]"

definition parseCanonicalUtcTimestamp :: "updateServices \<Rightarrow> string \<Rightarrow> qdatetime" where
  "parseCanonicalUtcTimestamp U timestamp =
     (if length timestamp \<noteq> 20 \<or> list_ex (\<lambda>(i, c). timestamp ! i \<noteq> c) stampSeparators then None
      else if list_ex (\<lambda>i. i \<notin> fst ` set stampSeparators \<and> \<not> is_ascii_digit (timestamp ! i)) [0..<20] then None
      else (case u_stamp U timestamp of
              None \<Rightarrow> None
            | Some (t, utc) \<Rightarrow> if \<not> utc \<or> u_stampText U t \<noteq> timestamp then None else Some t))"

definition isCanonicalReleaseChannel :: "string \<Rightarrow> bool" where
  "isCanonicalReleaseChannel s \<longleftrightarrow> s = ''stable'' \<or> s = ''canary'' \<or> s = ''emergency''"

definition is_alnum :: "char \<Rightarrow> bool" where
  "is_alnum c \<longleftrightarrow> (CHR ''A'' \<le> c \<and> c \<le> CHR ''Z'') \<or> (CHR ''a'' \<le> c \<and> c \<le> CHR ''z'') \<or> is_ascii_digit c"

definition isCanonicalCohortSaltId :: "string \<Rightarrow> bool" where
  "isCanonicalCohortSaltId s =
     (if s = [] \<or> 64 < length s then False
      else \<not> list_ex (\<lambda>i. let c = s ! i; separator = (c = CHR ''.'' \<or> c = CHR ''_'' \<or> c = CHR ''-'')
                          in \<not> is_alnum c \<and> (i = 0 \<or> \<not> separator)) [0..<length s])"

definition bucketStep :: "int \<Rightarrow> char \<Rightarrow> int" where
  "bucketStep bucket b = (bucket * 256 + of_char b) mod CohortBucketCount"

definition cohortInput :: "qt \<Rightarrow> string \<Rightarrow> string \<Rightarrow> string" where
  "cohortInput Q saltId identity =
     ''amnezia-update-cohort-v1'' @ [char_of (0::nat)] @ q_toUtf8 Q saltId @ [char_of (0::nat)] @ q_toUtf8 Q identity"

definition cohortBucket :: "qt \<Rightarrow> string \<Rightarrow> string \<Rightarrow> int" where
  "cohortBucket Q installationIdentity cohortSaltId =
     (if \<not> isCanonicalCohortSaltId cohortSaltId \<or> MaximumCohortIdentityLength < length installationIdentity then -1
      else
        let normalizedIdentity = q_toLower Q (trimmed Q installationIdentity) in
        if normalizedIdentity = [] then -1
        else foldl bucketStep 0 (take 8 (q_sha256 Q (cohortInput Q cohortSaltId normalizedIdentity))))"

definition normalizeSha256 :: "qt \<Rightarrow> string \<Rightarrow> string" where
  "normalizeSha256 Q s = filter (\<lambda>c. c \<noteq> CHR '':'') (q_toLower Q (trimmed Q s))"

definition isCanonicalSha256 :: "string \<Rightarrow> bool" where
  "isCanonicalSha256 s \<longleftrightarrow> length s = 64 \<and> list_all is_lower_hex s"

definition normalizedPrivateInstallerStagingPath ::
  "qt \<Rightarrow> updateServices \<Rightarrow> string \<Rightarrow> string \<Rightarrow> string \<Rightarrow> string \<Rightarrow> string option" where
  "normalizedPrivateInstallerStagingPath Q U storedPath tempRoot directoryPrefix installerFileName =
     (let native = u_fromNative U storedPath in
      if list_ex (\<lambda>c. (of_char c :: nat) \<le> 31 \<or> (of_char c :: nat) = 127) native then None
      else
        let clean = u_cleanPath U (u_absolutePath U native);
            cleanTempRoot = u_cleanPath U (u_absolutePath U tempRoot) in
        if native = [] \<or> \<not> u_isAbsolute U native \<or> native \<noteq> clean \<or> cleanTempRoot = []
           \<or> u_fileName U native \<noteq> installerFileName then None
        else
          let parts = split_on (CHR ''/'') (u_relativePath U cleanTempRoot clean) in
          if length parts \<noteq> 2 \<or> parts ! 1 \<noteq> installerFileName then None
          else if \<not> starts_with directoryPrefix (parts ! 0) then None
          else
            let directoryId = q_toLower Q (drop (length directoryPrefix) (parts ! 0)) in
            (case u_uuid U directoryId of
               None \<Rightarrow> None
             | Some text \<Rightarrow> if q_toLower Q text \<noteq> directoryId then None else Some clean))"

section \<open>Bindings, leases and platforms\<close>

definition rollbackPolicyBindingMatches :: "qt \<Rightarrow> int \<Rightarrow> string \<Rightarrow> int \<Rightarrow> string \<Rightarrow> bool" where
  "rollbackPolicyBindingMatches Q receiptGeneration receiptPayloadSha256 acceptedGeneration acceptedPayloadSha256 \<longleftrightarrow>
     (let receiptDigest = normalizeSha256 Q receiptPayloadSha256;
          acceptedDigest = normalizeSha256 Q acceptedPayloadSha256
      in 0 < receiptGeneration \<and> receiptGeneration = acceptedGeneration
         \<and> isCanonicalSha256 receiptDigest \<and> receiptDigest = acceptedDigest)"

definition automaticRollbackRunningVersionAllowed :: "string \<Rightarrow> string \<Rightarrow> string \<Rightarrow> bool" where
  "automaticRollbackRunningVersionAllowed runningVersion targetVersion rollbackVersion \<longleftrightarrow>
     runningVersion \<noteq> [] \<and> runningVersion = targetVersion \<and> runningVersion \<noteq> rollbackVersion"

definition boundedAuthorizationExpiry :: "qdatetime \<Rightarrow> int \<Rightarrow> qdatetime \<Rightarrow> qdatetime" where
  "boundedAuthorizationExpiry now handoffTtlMs policyExpiresAt =
     (if \<not> dt_valid now \<or> handoffTtlMs \<le> 0 then None
      else
        let ttlExpiry = dt_addMSecs handoffTtlMs now in
        if \<not> dt_valid policyExpiresAt then ttlExpiry
        else if dt_le policyExpiresAt now then None
        else if dt_less policyExpiresAt ttlExpiry then policyExpiresAt else ttlExpiry)"

definition evaluateRollbackLease :: "qdatetime \<Rightarrow> qdatetime \<Rightarrow> int \<Rightarrow> int \<Rightarrow> RollbackLeaseDisposition" where
  "evaluateRollbackLease now leaseExpiresAt recoveryCount maximumRecoveries =
     (if \<not> dt_valid now \<or> recoveryCount < 0 \<or> maximumRecoveries < 0 \<or> maximumRecoveries < recoveryCount
      then InvalidLease
      else if \<not> dt_valid leaseExpiresAt then (if recoveryCount = 0 then Acquire else InvalidLease)
      else if dt_less now leaseExpiresAt then Wait
      else if recoveryCount < maximumRecoveries then Recover else Exhausted)"

definition evaluateGenerationBinding ::
  "qt \<Rightarrow> int \<Rightarrow> string \<Rightarrow> int \<Rightarrow> int \<Rightarrow> string \<Rightarrow> GenerationBindingDisposition" where
  "evaluateGenerationBinding Q candidateGeneration candidatePayloadSha256 highestObservedGeneration
     persistedGeneration persistedPayloadSha256 =
     (let normalizedCandidate = normalizeSha256 Q candidatePayloadSha256 in
      if candidateGeneration \<le> 0 \<or> \<not> isCanonicalSha256 normalizedCandidate then InvalidCandidate
      else
        let generationFloor = max highestObservedGeneration persistedGeneration in
        if candidateGeneration < generationFloor then Stale
        else if generationFloor < candidateGeneration then AcceptAdvance
        else if persistedGeneration \<noteq> candidateGeneration \<or> persistedPayloadSha256 = [] then MissingPayloadBinding
        else if persistedPayloadSha256 \<noteq> normalizedCandidate then ConflictingPayload
        else AcceptExisting)"

definition platformKeys :: "PlatformFamily \<Rightarrow> string \<Rightarrow> string list" where
  "platformKeys platform arch =
     (let isArm64 = has_infix ''arm64'' arch \<or> has_infix ''aarch64'' arch;
          isArm = isArm64 \<or> has_infix ''arm'' arch in
      case platform of
        Windows \<Rightarrow> [if isArm then ''windows-arm64'' else ''windows-x64'', ''windows-x64'', ''windows'']
      | MacOS \<Rightarrow> [if isArm64 then ''macos-arm64'' else ''macos-x64'', ''macos-x64'', ''macos'']
      | IOS \<Rightarrow> [''ios'']
      | Android \<Rightarrow>
          (if isArm64 then [''android-arm64-v8a'']
           else if isArm then [''android-armeabi-v7a'']
           else if has_infix ''x86_64'' arch \<or> has_infix ''amd64'' arch then [''android-x86_64'']
           else if has_infix ''x86'' arch then [''android-x86''] else []) @ [''android'']
      | Linux \<Rightarrow>
          (if isArm64 then [''linux-arm64''] else if \<not> isArm then [''linux-x64''] else []) @ [''linux'']
      | UnsupportedPlatform \<Rightarrow> [])"

definition platformCandidates :: "qt \<Rightarrow> PlatformFamily \<Rightarrow> string \<Rightarrow> string list" where
  "platformCandidates Q platform cpuArchitecture =
     foldl (\<lambda>keys k. add_new k keys) [] (platformKeys platform (q_toLower Q (trimmed Q cpuArchitecture)))"

definition platformArchitecture :: "qt \<Rightarrow> PlatformFamily \<Rightarrow> string \<Rightarrow> string \<Rightarrow> string" where
  "platformArchitecture Q platform runtimeArchitecture buildArchitecture =
     (if platform = Android \<and> trimmed Q buildArchitecture \<noteq> [] then buildArchitecture else runtimeArchitecture)"

section \<open>Canonical versions\<close>

lemma decimal_undecimal:
  "s \<noteq> [] \<Longrightarrow> list_all is_ascii_digit s \<Longrightarrow> \<not> (1 < length s \<and> hd s = CHR ''0'') \<Longrightarrow> decimal (undecimal s) = s"
proof (induction s rule: rev_induct)
  case (snoc c xs)
  have c: "is_ascii_digit c" using snoc.prems by simp
  then have d: "digit_char (digit_value c) = c" "digit_value c < 10"
    by (auto simp: digit_value_def digit_char_def is_ascii_digit_iff)
  show ?case
  proof (cases "xs = []")
    case True
    with d show ?thesis by (subst decimal.simps) (simp add: undecimal_def)
  next
    case False
    then have ih: "decimal (undecimal xs) = xs" and h: "hd xs \<noteq> CHR ''0''"
      using snoc by (auto simp: hd_append)
    have "undecimal xs \<noteq> 0"
    proof
      assume "undecimal xs = 0"
      with ih have "xs = decimal 0" by simp
      with h show False by (simp add: decimal.simps text_simps)
    qed
    then show ?thesis using d ih by (subst decimal.simps) (simp add: undecimal_snoc)
  qed
qed simp

definition versions_ok :: "updateServices \<Rightarrow> bool" where
  "versions_ok U \<longleftrightarrow>
     (\<forall>parts. (\<forall>p \<in> set parts. p \<noteq> [] \<and> list_all is_ascii_digit p) \<longrightarrow>
        snd (u_version U (join ''.'' parts)) = length (join ''.'' parts) \<longrightarrow>
        fst (u_version U (join ''.'' parts)) = map (\<lambda>p. int (undecimal p)) parts)"

definition versionText :: "int list \<Rightarrow> string" where
  "versionText v = join ''.'' (map (\<lambda>n. decimal (nat n)) v)"

lemma join_split_on: "join [c] (split_on c s) = s"
proof (induction s)
  case (Cons x s)
  have "split_where (\<lambda>y. y = c) s \<noteq> []" by simp
  then obtain p ps where "split_where (\<lambda>y. y = c) s = p # ps" by (cases "split_where (\<lambda>y. y = c) s") auto
  with Cons show ?case by (cases ps) (auto simp: split_on_def)
qed (simp add: split_on_def)

lemma parseExactVersion_text:
  assumes "versions_ok U" "parseExactVersion Q U s = Some v"
  shows "s = versionText v \<and> length v = 4"
proof -
  let ?parts = "split_on (CHR ''.'') s"
  have parts: "list_all exactPart ?parts" "snd (u_version U s) = length s" "fst (u_version U s) = v" "length v = 4"
    using assms(2) unfolding parseExactVersion_def by (auto simp: Let_def split: if_splits prod.splits)
  have s: "join ''.'' ?parts = s" by (rule join_split_on)
  have "\<forall>p \<in> set ?parts. p \<noteq> [] \<and> list_all is_ascii_digit p"
    using parts(1) by (auto simp: list_all_iff exactPart_def)
  then have v: "v = map (\<lambda>p. int (undecimal p)) ?parts"
    using assms(1) parts(2,3) s unfolding versions_ok_def by metis
  have "map (\<lambda>n. decimal (nat n)) v = ?parts"
    using parts(1) unfolding v by (auto simp: list_all_iff exactPart_def intro!: map_idI decimal_undecimal)
  then show ?thesis using s parts(4) by (simp add: versionText_def)
qed

section \<open>Cohorts\<close>

definition bigEndian :: "string \<Rightarrow> int" where
  "bigEndian bs = foldl (\<lambda>v b. v * 256 + of_char b) 0 bs"

lemma foldl_bucket:
  "foldl bucketStep (a mod CohortBucketCount) bs = foldl (\<lambda>v b. v * 256 + of_char b) a bs mod CohortBucketCount"
proof (induction bs arbitrary: a)
  case (Cons b bs)
  have "bucketStep (a mod CohortBucketCount) b = (a * 256 + of_char b) mod CohortBucketCount"
    unfolding bucketStep_def by (metis mod_add_left_eq mod_mult_left_eq)
  with Cons [of "a * 256 + of_char b"] show ?case by simp
qed simp

lemma bucket_bigEndian: "foldl bucketStep 0 bs = bigEndian bs mod CohortBucketCount"
  using foldl_bucket [of 0 bs] by (simp add: bigEndian_def CohortBucketCount_def)

lemma bucketStep_range: "0 \<le> bucketStep a b \<and> bucketStep a b < CohortBucketCount"
  by (simp add: bucketStep_def CohortBucketCount_def)

lemma bucket_intermediate:
  assumes "0 \<le> a" "a < CohortBucketCount"
  shows "a * 256 + of_char b < (2::int) ^ 31"
proof -
  have "(of_char b :: int) < 256" by (metis of_char_mod_256 pos_mod_bound zero_less_numeral)
  then show ?thesis using assms by (simp add: CohortBucketCount_def)
qed

lemma mod_ge: "(-1::int) \<le> x mod 10000"
  using pos_mod_sign [of 10000 x] by linarith

section \<open>Properties\<close>

text \<open>
  An exact version has one spelling: what the parser accepts is the canonical dotted decimal text
  of the version it returns, so two accepted texts of the same version are equal.
\<close>
theorem parseExactVersion_canonical:
  assumes "versions_ok U" and "parseExactVersion Q U s = Some v" and "parseExactVersion Q U t = Some v"
  shows "s = versionText v \<and> s = t \<and> length v = 4"
  using parseExactVersion_text [OF assms(1,2)] parseExactVersion_text [OF assms(1,3)] by simp

definition refServices :: updateServices where
  "refServices = \<lparr>u_version = (\<lambda>s. (if s = [] then [] else map (\<lambda>p. int (undecimal p)) (split_on (CHR ''.'') s), length s)),
     u_less = (<), u_stamp = (\<lambda>s. None), u_stampText = (\<lambda>t. []), u_uuid = Some, u_fromNative = id,
     u_absolutePath = id, u_isAbsolute = (\<lambda>p. True), u_cleanPath = id, u_fileName = id,
     u_relativePath = (\<lambda>r p. p)\<rparr>"

lemma refServices_versions: "versions_ok refServices"
proof -
  have "fst (u_version refServices (join ''.'' parts)) = map (\<lambda>p. int (undecimal p)) parts"
    if "\<forall>p \<in> set parts. p \<noteq> [] \<and> list_all is_ascii_digit p" for parts
  proof (cases "parts = []")
    case False
    have "\<forall>p \<in> set parts. CHR ''.'' \<notin> set p"
      using that by (fastforce simp: list_all_iff is_ascii_digit_iff)
    moreover have "join ''.'' parts \<noteq> []" using False that by (cases parts rule: list.exhaust; cases "tl parts") auto
    ultimately show ?thesis using False by (simp add: split_on_join refServices_def)
  qed (simp add: refServices_def)
  then show ?thesis by (simp add: versions_ok_def)
qed

lemma refVersion: "parseExactVersion qt_ref refServices ''4.9.0.11'' = Some [4, 9, 0, 11]"
  by (simp add: parseExactVersion_def refServices_def split_on_def exactPart_def trimmed_def trim_where_def qt_ref_services
      undecimal_def digit_value_def is_ascii_digit_def ascii_space_def)

theorem parseExactVersion_canonical_witness: "''4.9.0.11'' = versionText [4, 9, 0, 11]"
  using parseExactVersion_canonical [OF refServices_versions refVersion refVersion] by simp

text \<open>
  C37. The rollout bucket of an installation is the first eight bytes of its salted digest, read as one
  big-endian number, modulo the bucket count; a refused identity or salt is -1, and no intermediate
  value of the loop leaves the range of a 32-bit integer.
\<close>
theorem cohortBucket_modulus:
  "cohortBucket Q identity saltId =
     (if isCanonicalCohortSaltId saltId \<and> length identity \<le> MaximumCohortIdentityLength
         \<and> q_toLower Q (trimmed Q identity) \<noteq> []
      then bigEndian (take 8 (q_sha256 Q (cohortInput Q saltId (q_toLower Q (trimmed Q identity)))))
           mod CohortBucketCount
      else -1)
   \<and> cohortBucket Q identity saltId \<in> {-1..<CohortBucketCount}
   \<and> (\<forall>bs b. foldl bucketStep 0 bs * 256 + of_char b < (2::int) ^ 31)"
proof -
  have "0 \<le> foldl bucketStep 0 bs \<and> foldl bucketStep 0 bs < CohortBucketCount" for bs
    using bucketStep_range by (cases bs rule: rev_cases) (auto simp: CohortBucketCount_def)
  then have "\<forall>bs b. foldl bucketStep 0 bs * 256 + of_char b < (2::int) ^ 31"
    using bucket_intermediate by blast
  then show ?thesis
    by (simp add: cohortBucket_def Let_def bucket_bigEndian) (simp add: CohortBucketCount_def mod_ge)
qed

end
