(* ===== verification/Update_Manifest.thy ===== *)
theory Update_Manifest
  imports Update_Policy "HOL-Library.Monad_Syntax"
begin

text \<open>
  The admission of a self-hosted update manifest by the update controller
  (\<open>core/controllers/updateController.cpp\<close>): the signed envelope, the release policy, the generation
  binding, the artifact and the selection. The platform of the build, the clock, the stored policy and
  the services of Qt and of the signature library are the record \<open>UpdateEnv\<close>.
\<close>

section \<open>Surroundings and records\<close>

text \<open>The parts of a \<open>QUrl\<close> that the controller reads.\<close>

record qurl =
  url_valid :: bool
  url_empty :: bool
  url_relative :: bool
  url_scheme :: string
  url_host :: string
  url_text :: string

record UpdateEnv =
  e_Q :: qt
  e_U :: updateServices
  e_platform :: PlatformFamily
  e_macosNe :: bool
  e_appVersion :: string
  e_androidVersionCode :: int
  e_cpu :: string
  e_buildCpu :: string
  e_now :: int
  e_hasRepository :: bool
  e_installationUuid :: string
  e_newIntentId :: string
  e_base64 :: "bool \<Rightarrow> string \<Rightarrow> string option"
  e_verify :: "string \<Rightarrow> string \<Rightarrow> bool"
  e_url :: "string \<Rightarrow> qurl"
  e_resolved :: "qurl \<Rightarrow> string \<Rightarrow> qurl"
  e_queryUrl :: "qurl \<Rightarrow> qurl"
  e_baseUrl :: "qurl \<Rightarrow> string"
  e_store :: "int \<times> string \<Rightarrow> int \<times> string \<Rightarrow> int \<times> string"

record UpdateArtifact =
  platform :: string
  url :: "qurl option"
  sha256 :: string
  artifactSize :: int
  openExternally :: bool
  autoInstall :: bool
  androidVersionCode :: int

definition noArtifact :: UpdateArtifact where
  "noArtifact = \<lparr>platform = [], url = None, sha256 = [], artifactSize = -1, openExternally = False,
     autoInstall = False, androidVersionCode = -1\<rparr>"

record ReleasePolicy =
  channel :: string
  policyGeneration :: int
  rolloutPercentage :: int
  cohortSaltId :: string
  minimumVersion :: string
  maximumVersion :: string
  healthDeadlineSeconds :: int
  generatedAt :: qdatetime
  expiresAt :: qdatetime
  previousVersion :: string
  rollbackVersion :: string
  rollbackArtifact :: UpdateArtifact
  hasRollbackArtifact :: bool
  disposition :: ReleasePolicyDisposition

definition defaultPolicy :: ReleasePolicy where
  "defaultPolicy = \<lparr>channel = ''stable'', policyGeneration = 0, rolloutPercentage = 100, cohortSaltId = [],
     minimumVersion = [], maximumVersion = [], healthDeadlineSeconds = 0, generatedAt = None, expiresAt = None,
     previousVersion = [], rollbackVersion = [], rollbackArtifact = noArtifact, hasRollbackArtifact = False,
     disposition = NoDisposition\<rparr>"

datatype ReleasePolicyResult = PolicyInvalid | PolicyStale | PolicyIneligible | PolicyEligible

datatype InstallIntentKind = NoIntent | UpdateIntent | RollbackIntent

record InstallIntent =
  kind :: InstallIntentKind
  intentId :: string
  receiptId :: string
  leaseId :: string
  targetVersion :: string
  intentPlatform :: string
  intentUrl :: "qurl option"
  intentSha256 :: string
  intentSize :: int
  intentGeneration :: int
  intentPayloadSha256 :: string
  consumed :: bool

definition noInstallIntent :: InstallIntent where
  "noInstallIntent = \<lparr>kind = NoIntent, intentId = [], receiptId = [], leaseId = [], targetVersion = [],
     intentPlatform = [], intentUrl = None, intentSha256 = [], intentSize = -1, intentGeneration = 0,
     intentPayloadSha256 = [], consumed = False\<rparr>"

text \<open>The fields of the controller, with the generation and digest the repository holds.\<close>

record UpdateState =
  highestObserved :: int
  persistedGeneration :: int
  persistedSha256 :: string
  version :: string
  releaseDate :: string
  changelogText :: string
  selectedArtifact :: UpdateArtifact
  downloadUrl :: string
  baseUrl :: string
  useSelfHostedArtifact :: bool
  selectedPolicy :: ReleasePolicy
  observedPolicy :: ReleasePolicy
  installIntent :: InstallIntent

definition kManifestMaxPayloadBytes :: nat where "kManifestMaxPayloadBytes = 1024 * 1024"
definition kMinimumHealthDeadlineSeconds :: int where "kMinimumHealthDeadlineSeconds = 60"
definition kMaximumHealthDeadlineSeconds :: int where "kMaximumHealthDeadlineSeconds = 24 * 60 * 60"
definition kMaximumSafeJsonInteger :: int where "kMaximumSafeJsonInteger = 9007199254740991"
definition kMaximumAndroidVersionCode :: int where "kMaximumAndroidVersionCode = 2100000000"

section \<open>Values of the manifest\<close>

definition jsonIntegerInRange :: "json \<Rightarrow> int \<Rightarrow> int \<Rightarrow> int option" where
  "jsonIntegerInRange v minimum maximum =
     (case v of
        JDouble d \<Rightarrow>
          (if dbl_less d (dbl_int minimum) \<or> dbl_less (dbl_int maximum) d then None
           else if \<not> dbl_eq (dbl_int (dbl_to_int d)) d then None else Some (dbl_to_int d))
      | _ \<Rightarrow> None)"

definition isHttpOrHttpsUrl :: "UpdateEnv \<Rightarrow> qurl \<Rightarrow> bool" where
  "isHttpOrHttpsUrl E u \<longleftrightarrow>
     (let scheme = q_toLower (e_Q E) (url_scheme u)
      in (scheme = ''http'' \<or> scheme = ''https'') \<and> url_host u \<noteq> [])"

definition isAllowedExternalUpdateUrl :: "UpdateEnv \<Rightarrow> qurl \<Rightarrow> bool" where
  "isAllowedExternalUpdateUrl E u =
     (if \<not> url_valid u \<or> url_empty u then False
      else
        let scheme = q_toLower (e_Q E) (url_scheme u) in
        if e_platform E = IOS \<and> scheme = ''http'' then False
        else if scheme = ''https'' then url_host u \<noteq> []
        else if e_platform E = IOS \<and> scheme = ''itms-services''
        then (let m = e_queryUrl E u in q_toLower (e_Q E) (url_scheme m) = ''https'' \<and> url_host m \<noteq> [])
        else if e_platform E = IOS \<and> scheme = ''itms-apps'' then url_host u \<noteq> []
        else False)"

definition isNewVersionAvailable :: "UpdateEnv \<Rightarrow> string \<Rightarrow> bool" where
  "isNewVersionAvailable E v \<longleftrightarrow>
     u_less (e_U E) (fst (u_version (e_U E) (e_appVersion E))) (fst (u_version (e_U E) v))"

definition exactVersion :: "UpdateEnv \<Rightarrow> string \<Rightarrow> int list option" where
  "exactVersion E v = parseExactVersion (e_Q E) (e_U E) v"

definition controllerPlatformCandidates :: "UpdateEnv \<Rightarrow> string list" where
  "controllerPlatformCandidates E =
     platformCandidates (e_Q E) (e_platform E)
       (platformArchitecture (e_Q E) (e_platform E) (e_cpu E) (e_buildCpu E))"

definition verifySignedManifestEnvelope :: "UpdateEnv \<Rightarrow> string \<Rightarrow> string option" where
  "verifySignedManifestEnvelope E manifestData =
     (case q_jsonParse (e_Q E) manifestData of
        Some (JObject envelope) \<Rightarrow>
          if jstr (obj_value envelope ''schema'') \<noteq> ''amnezia-selfhosted-update-v1'' then None
          else if jstr (obj_value envelope ''signatureAlgorithm'') \<noteq> ''Ed25519'' then None
          else
            (case (e_base64 E True (q_toUtf8 (e_Q E) (jstr (obj_value envelope ''payload''))),
                   e_base64 E False (q_toUtf8 (e_Q E) (jstr (obj_value envelope ''signature'')))) of
               (Some payload, Some signature) \<Rightarrow>
                 if payload = [] \<or> signature = [] then None
                 else if kManifestMaxPayloadBytes < length payload then None
                 else if length signature \<noteq> 64 then None
                 else if \<not> e_verify E payload signature then None
                 else Some payload
             | _ \<Rightarrow> None)
      | _ \<Rightarrow> None)"

definition payloadHasPlatformCandidate :: "UpdateEnv \<Rightarrow> jobject \<Rightarrow> bool" where
  "payloadHasPlatformCandidate E payload =
     (case obj_value payload ''platforms'' of
        JObject platforms \<Rightarrow> list_ex (obj_contains platforms) (controllerPlatformCandidates E)
      | _ \<Rightarrow> False)"

definition resolvedArtifactUrl :: "UpdateEnv \<Rightarrow> qurl \<Rightarrow> string \<Rightarrow> qurl" where
  "resolvedArtifactUrl E manifestUrl urlOrPath =
     (if trimmed (e_Q E) urlOrPath = []
      then \<lparr>url_valid = False, url_empty = True, url_relative = True, url_scheme = [], url_host = [], url_text = []\<rparr>
      else
        let candidate = e_url E urlOrPath in
        if url_valid candidate \<and> \<not> url_relative candidate then candidate else e_resolved E manifestUrl urlOrPath)"

definition artifactRefused :: "UpdateEnv \<Rightarrow> qurl \<Rightarrow> bool \<Rightarrow> string \<Rightarrow> int \<Rightarrow> bool" where
  "artifactRefused E u external digest bytes \<longleftrightarrow>
     \<not> external \<and> \<not> isCanonicalSha256 digest \<or> \<not> external \<and> \<not> isHttpOrHttpsUrl E u
     \<or> \<not> external \<and> bytes \<le> 0 \<or> external \<and> \<not> isAllowedExternalUpdateUrl E u"

text \<open>One candidate key: the artifact when it is acceptable, nothing when the loop continues.\<close>

definition candidateArtifact :: "UpdateEnv \<Rightarrow> qurl \<Rightarrow> jobject \<Rightarrow> bool \<Rightarrow> string \<Rightarrow> UpdateArtifact option" where
  "candidateArtifact E manifestUrl payload isRollback key =
     (case obj_value (to_object (obj_value payload ''platforms'')) key of
        JObject artifactObject \<Rightarrow>
          (let u = resolvedArtifactUrl E manifestUrl
                     (to_string (jstr (obj_value artifactObject ''path'')) (obj_value artifactObject ''url'')) in
           if \<not> url_valid u \<or> url_empty u then None
           else
             let bytes = (case jsonIntegerInRange (obj_value artifactObject ''size'') 1 kMaximumSafeJsonInteger of
                           None \<Rightarrow> -1 | Some n \<Rightarrow> n);
                 declared = to_bool False (obj_value artifactObject ''openExternal'');
                 code = jsonIntegerInRange (obj_value artifactObject ''versionCode'') 1 kMaximumAndroidVersionCode;
                 digest = normalizeSha256 (e_Q E) (jstr (obj_value artifactObject ''sha256'')) in
             if e_platform E = Android \<and> (isRollback \<or> \<not> declared \<and> code = None) then None
             else if e_macosNe E \<and> isRollback then None
             else
               let external = (declared \<or> e_macosNe E \<or> e_platform E = IOS);
                   artifact = \<lparr>platform = key, url = Some u, sha256 = digest, artifactSize = bytes,
                     openExternally = external,
                     autoInstall = to_bool (to_bool False (obj_value payload ''autoInstall''))
                                     (obj_value artifactObject ''autoInstall''),
                     androidVersionCode =
                       (if e_platform E = Android \<and> \<not> declared then the code else -1)\<rparr> in
               if artifactRefused E u external digest bytes then None else Some artifact)
      | _ \<Rightarrow> None)"

fun firstCandidate :: "(string \<Rightarrow> UpdateArtifact option) \<Rightarrow> string list \<Rightarrow> UpdateArtifact option" where
  "firstCandidate f [] = None"
| "firstCandidate f (k # ks) = (case f k of Some a \<Rightarrow> Some a | None \<Rightarrow> firstCandidate f ks)"

definition selectSelfHostedArtifact :: "UpdateEnv \<Rightarrow> qurl \<Rightarrow> jobject \<Rightarrow> bool \<Rightarrow> UpdateArtifact option" where
  "selectSelfHostedArtifact E manifestUrl payload isRollback =
     (if to_object (obj_value payload ''platforms'') = [] then None
      else firstCandidate (candidateArtifact E manifestUrl payload isRollback) (controllerPlatformCandidates E))"

section \<open>The release policy\<close>

definition requiredPolicyKeys :: "string list" where
  "requiredPolicyKeys = [''schema'', ''generation'', ''generatedAt'', ''expiresAt'', ''channel'', ''rollout'',
     ''eligibility'', ''healthDeadlineSeconds'']"

definition optionalPolicyKeys :: "string list" where
  "optionalPolicyKeys = [''previousVersion'', ''rollback'']"

definition policyKeysOk :: "jobject \<Rightarrow> bool" where
  "policyKeysOk ob \<longleftrightarrow>
     list_all (obj_contains ob) requiredPolicyKeys
     \<and> list_all (\<lambda>k. k \<in> set requiredPolicyKeys \<or> k \<in> set optionalPolicyKeys) (obj_keys ob)
     \<and> jsonIntegerInRange (obj_value ob ''schema'') 2 2 \<noteq> None"

text \<open>A refused field is \<open>None\<close>; an absent version of the eligibility range is an empty text.\<close>

definition policyChannel :: "jobject \<Rightarrow> string option" where
  "policyChannel ob =
     (case obj_value ob ''channel'' of
        JString s \<Rightarrow> if isCanonicalReleaseChannel s then Some s else None | _ \<Rightarrow> None)"

definition policyRollout :: "jobject \<Rightarrow> (int \<times> string) option" where
  "policyRollout ob =
     (case obj_value ob ''rollout'' of
        JObject rollout \<Rightarrow>
          if length rollout \<noteq> 2 \<or> \<not> obj_contains rollout ''percentage'' \<or> \<not> obj_contains rollout ''cohortSaltId'' then None
          else (case (jsonIntegerInRange (obj_value rollout ''percentage'') 0 100, obj_value rollout ''cohortSaltId'') of
                  (Some pct, JString salt) \<Rightarrow> if isCanonicalCohortSaltId salt then Some (pct, salt) else None
                | _ \<Rightarrow> None)
      | _ \<Rightarrow> None)"

definition eligibilityVersion :: "UpdateEnv \<Rightarrow> jobject \<Rightarrow> string \<Rightarrow> (string \<times> int list option) option" where
  "eligibilityVersion E eligibility key =
     (if \<not> obj_contains eligibility key then Some ([], None)
      else (case obj_value eligibility key of
              JString s \<Rightarrow> (case exactVersion E s of None \<Rightarrow> None | Some v \<Rightarrow> Some (s, Some v))
            | _ \<Rightarrow> None))"

definition policyEligibility ::
  "UpdateEnv \<Rightarrow> jobject \<Rightarrow> ((string \<times> int list option) \<times> (string \<times> int list option)) option" where
  "policyEligibility E ob =
     (case obj_value ob ''eligibility'' of
        JObject eligibility \<Rightarrow>
          if \<not> list_all (\<lambda>k. k = ''minimumVersion'' \<or> k = ''maximumVersion'') (obj_keys eligibility) then None
          else (case (eligibilityVersion E eligibility ''minimumVersion'', eligibilityVersion E eligibility ''maximumVersion'') of
                  (Some lo, Some hi) \<Rightarrow>
                    (case (snd lo, snd hi) of
                       (Some a, Some b) \<Rightarrow> if u_less (e_U E) b a then None else Some (lo, hi)
                     | _ \<Rightarrow> Some (lo, hi))
                | _ \<Rightarrow> None)
      | _ \<Rightarrow> None)"

definition policyInstants :: "UpdateEnv \<Rightarrow> jobject \<Rightarrow> (int \<times> int) option" where
  "policyInstants E ob =
     (case (obj_value ob ''generatedAt'', obj_value ob ''expiresAt'') of
        (JString a, JString b) \<Rightarrow>
          (case (parseCanonicalUtcTimestamp (e_U E) a, parseCanonicalUtcTimestamp (e_U E) b) of
             (Some g, Some e) \<Rightarrow> if e \<le> g then None else Some (g, e)
           | _ \<Rightarrow> None)
      | _ \<Rightarrow> None)"

definition policyPreviousVersion :: "UpdateEnv \<Rightarrow> int list \<Rightarrow> jobject \<Rightarrow> string option" where
  "policyPreviousVersion E release ob =
     (if \<not> obj_contains ob ''previousVersion'' then Some []
      else (case obj_value ob ''previousVersion'' of
              JString s \<Rightarrow>
                (case exactVersion E s of
                   Some v \<Rightarrow> if u_less (e_U E) v release then Some s else None
                 | None \<Rightarrow> None)
            | _ \<Rightarrow> None))"

definition policyRollback ::
  "UpdateEnv \<Rightarrow> qurl \<Rightarrow> string \<Rightarrow> jobject \<Rightarrow> (string \<times> UpdateArtifact option) option" where
  "policyRollback E manifestUrl previous ob =
     (if \<not> obj_contains ob ''rollback'' then Some ([], None)
      else (case obj_value ob ''rollback'' of
        JObject rollback \<Rightarrow>
          if previous = [] \<or> length rollback \<noteq> 2 then None
          else (case (obj_value rollback ''version'', obj_value rollback ''platforms'') of
            (JString v, JObject platforms) \<Rightarrow>
              if exactVersion E v = None \<or> v \<noteq> previous \<or> platforms = [] then None
              else
                let rollbackPayload = obj_insert ''platforms'' (JObject platforms) [] in
                if payloadHasPlatformCandidate E rollbackPayload
                then (case selectSelfHostedArtifact E manifestUrl rollbackPayload True of
                        None \<Rightarrow> None | Some a \<Rightarrow> Some (v, Some a))
                else Some (v, None)
          | _ \<Rightarrow> None)
      | _ \<Rightarrow> None))"

text \<open>The fields of a well-formed policy, and the parsed eligibility range.\<close>

definition parsePolicy ::
  "UpdateEnv \<Rightarrow> qurl \<Rightarrow> jobject \<Rightarrow> string \<Rightarrow> (ReleasePolicy \<times> int list option \<times> int list option) option" where
  "parsePolicy E manifestUrl ob releaseVersion =
     (if \<not> policyKeysOk ob then None
      else do {
        ch \<leftarrow> policyChannel ob;
        gen \<leftarrow> jsonIntegerInRange (obj_value ob ''generation'') 1 kMaximumSafeJsonInteger;
        (pct, salt) \<leftarrow> policyRollout ob;
        (lo, hi) \<leftarrow> policyEligibility E ob;
        health \<leftarrow> jsonIntegerInRange (obj_value ob ''healthDeadlineSeconds'')
                     kMinimumHealthDeadlineSeconds kMaximumHealthDeadlineSeconds;
        (g, e) \<leftarrow> policyInstants E ob;
        release \<leftarrow> exactVersion E releaseVersion;
        previous \<leftarrow> policyPreviousVersion E release ob;
        (rb, artifact) \<leftarrow> policyRollback E manifestUrl previous ob;
        Some (\<lparr>channel = ch, policyGeneration = gen, rolloutPercentage = pct, cohortSaltId = salt,
                minimumVersion = fst lo, maximumVersion = fst hi, healthDeadlineSeconds = health,
                generatedAt = Some g, expiresAt = Some e, previousVersion = previous, rollbackVersion = rb,
                rollbackArtifact = (case artifact of None \<Rightarrow> noArtifact | Some a \<Rightarrow> a),
                hasRollbackArtifact = (artifact \<noteq> None), disposition = NoDisposition\<rparr>,
              snd lo, snd hi)
      })"

definition generationFloor :: "UpdateEnv \<Rightarrow> UpdateState \<Rightarrow> int" where
  "generationFloor E st = max (highestObserved st) (if e_hasRepository E then persistedGeneration st else 0)"

definition rolloutDecision :: "UpdateEnv \<Rightarrow> ReleasePolicy \<Rightarrow> ReleasePolicyResult \<times> ReleasePolicy" where
  "rolloutDecision E p =
     (let eligible = (PolicyEligible, p\<lparr>disposition := Eligible\<rparr>) in
      if rolloutPercentage p = 0 then (PolicyIneligible, p\<lparr>disposition := Paused\<rparr>)
      else if rolloutPercentage p < 100 then
        (if \<not> e_hasRepository E then (PolicyInvalid, defaultPolicy)
         else
           let identity = trimmed (e_Q E) (e_installationUuid E) in
           if identity = [] then (PolicyInvalid, defaultPolicy)
           else
             let bucket = cohortBucket (e_Q E) identity (cohortSaltId p) in
             if bucket < 0 \<or> rolloutPercentage p * (CohortBucketCount div 100) \<le> bucket
             then (PolicyIneligible, p\<lparr>disposition := CohortIneligible\<rparr>) else eligible)
      else eligible)"

definition evaluateReleasePolicy ::
  "UpdateEnv \<Rightarrow> UpdateState \<Rightarrow> qurl \<Rightarrow> jobject \<Rightarrow> string \<Rightarrow> ReleasePolicyResult \<times> ReleasePolicy" where
  "evaluateReleasePolicy E st manifestUrl policyObject releaseVersion =
     (case parsePolicy E manifestUrl policyObject releaseVersion of
        None \<Rightarrow> (PolicyInvalid, defaultPolicy)
      | Some (p, lo, hi) \<Rightarrow>
          if policyGeneration p < generationFloor E st then (PolicyStale, p)
          else if dt_le (expiresAt p) (Some (e_now E)) then (PolicyIneligible, p\<lparr>disposition := Expired\<rparr>)
          else (case exactVersion E (e_appVersion E) of
                  None \<Rightarrow> (PolicyInvalid, defaultPolicy)
                | Some current \<Rightarrow>
                    if (case lo of None \<Rightarrow> False | Some a \<Rightarrow> u_less (e_U E) current a)
                       \<or> (case hi of None \<Rightarrow> False | Some b \<Rightarrow> u_less (e_U E) b current)
                    then (PolicyIneligible, p\<lparr>disposition := VersionIneligible\<rparr>)
                    else rolloutDecision E p))"

section \<open>Admission\<close>

definition acceptPolicyGeneration ::
  "UpdateEnv \<Rightarrow> UpdateState \<Rightarrow> int \<Rightarrow> string \<Rightarrow> UpdateState \<times> GenerationBindingDisposition" where
  "acceptPolicyGeneration E st generation payloadSha256 =
     (let normalized = normalizeSha256 (e_Q E) payloadSha256 in
      if \<not> e_hasRepository E then (st, InvalidCandidate)
      else
        let found = evaluateGenerationBinding (e_Q E) generation normalized (highestObserved st)
                      (persistedGeneration st) (persistedSha256 st) in
        if found = AcceptExisting
        then (st\<lparr>highestObserved := max (highestObserved st) (persistedGeneration st)\<rparr>, AcceptExisting)
        else if found \<noteq> AcceptAdvance then (st, found)
        else
          let stored = e_store E (persistedGeneration st, persistedSha256 st) (generation, normalized);
              st = st\<lparr>persistedGeneration := fst stored, persistedSha256 := snd stored\<rparr> in
          if stored \<noteq> (generation, normalized) then (st, InvalidCandidate)
          else (st\<lparr>highestObserved := generation\<rparr>, AcceptAdvance))"

definition armUpdateInstallIntent :: "UpdateEnv \<Rightarrow> UpdateState \<Rightarrow> UpdateState" where
  "armUpdateInstallIntent E st =
     (let a = selectedArtifact st; g = policyGeneration (selectedPolicy st) in
      st\<lparr>installIntent := noInstallIntent\<lparr>kind := UpdateIntent, intentId := e_newIntentId E,
           targetVersion := version st, intentPlatform := platform a, intentUrl := url a,
           intentSha256 := normalizeSha256 (e_Q E) (sha256 a), intentSize := artifactSize a, intentGeneration := g,
           intentPayloadSha256 :=
             (if e_hasRepository E \<and> 0 < g then normalizeSha256 (e_Q E) (persistedSha256 st) else [])\<rparr>\<rparr>)"

definition selectRelease ::
  "UpdateEnv \<Rightarrow> UpdateState \<Rightarrow> qurl \<Rightarrow> jobject \<Rightarrow> int \<Rightarrow> string \<Rightarrow> ReleasePolicy \<Rightarrow> UpdateState \<times> ManifestResult" where
  "selectRelease E st manifestUrl payload payloadSchema v policy =
     (if \<not> payloadHasPlatformCandidate E payload then (st, NoUpdate)
      else (case selectSelfHostedArtifact E manifestUrl payload False of
        None \<Rightarrow> (st, InvalidManifest)
      | Some artifact \<Rightarrow>
          if (if e_platform E = Android \<and> \<not> openExternally artifact
              then androidVersionCode artifact \<le> e_androidVersionCode E else \<not> isNewVersionAvailable E v)
          then (st, NoUpdate)
          else
            let st = st\<lparr>version := v,
                  releaseDate := to_string (jstr (obj_value payload ''release_date'')) (obj_value payload ''releaseDate''),
                  changelogText := to_string (jstr (obj_value payload ''body'')) (obj_value payload ''changelog''),
                  selectedArtifact := artifact,
                  downloadUrl := (case url artifact of None \<Rightarrow> [] | Some u \<Rightarrow> url_text u),
                  baseUrl := e_baseUrl E manifestUrl, useSelfHostedArtifact := True, selectedPolicy := policy\<rparr>;
                st = armUpdateInstallIntent E st
            in (if payloadSchema = 1 then st\<lparr>observedPolicy := defaultPolicy\<rparr> else st, UpdateAvailable)))"

definition admitPolicy ::
  "UpdateEnv \<Rightarrow> UpdateState \<Rightarrow> qurl \<Rightarrow> string \<Rightarrow> jobject \<Rightarrow> string \<Rightarrow> UpdateState \<times> ManifestResult" where
  "admitPolicy E st manifestUrl payloadData payload v =
     (case obj_value payload ''releasePolicy'' of
        JObject policyObject \<Rightarrow>
          (let (found, policy) = evaluateReleasePolicy E st manifestUrl policyObject v in
           if found = PolicyInvalid then (st, InvalidManifest)
           else if found = PolicyStale then (st, StaleManifest)
           else
             let (st, bound) = acceptPolicyGeneration E st (policyGeneration policy) (to_hex (q_sha256 (e_Q E) payloadData)) in
             if bound \<in> {Stale, MissingPayloadBinding, ConflictingPayload} then (st, StaleManifest)
             else if bound \<notin> {AcceptExisting, AcceptAdvance} then (st, InvalidManifest)
             else
               let st = st\<lparr>observedPolicy := policy\<rparr> in
               if found = PolicyIneligible then (st, NoUpdate)
               else selectRelease E st manifestUrl payload 2 v policy)
      | _ \<Rightarrow> (st, InvalidManifest))"

definition processSelfHostedManifest :: "UpdateEnv \<Rightarrow> UpdateState \<Rightarrow> qurl \<Rightarrow> string \<Rightarrow> UpdateState \<times> ManifestResult" where
  "processSelfHostedManifest E st manifestUrl manifestData =
     (case verifySignedManifestEnvelope E manifestData of
        None \<Rightarrow> (st, InvalidManifest)
      | Some payloadData \<Rightarrow>
          (case q_jsonParse (e_Q E) payloadData of
             Some (JObject payload) \<Rightarrow>
               (case jsonIntegerInRange (obj_value payload ''schema'') 1 2 of
                  None \<Rightarrow> (st, InvalidManifest)
                | Some payloadSchema \<Rightarrow>
                    if payloadSchema = 1 \<and> 0 < generationFloor E st then (st, InvalidManifest)
                    else if payloadSchema = 1 \<and> obj_contains payload ''releasePolicy'' then (st, InvalidManifest)
                    else (case obj_value payload ''version'' of
                            JString v \<Rightarrow>
                              if exactVersion E v = None then (st, InvalidManifest)
                              else if payloadSchema = 2 then admitPolicy E st manifestUrl payloadData payload v
                              else selectRelease E st manifestUrl payload payloadSchema v defaultPolicy
                          | _ \<Rightarrow> (st, InvalidManifest)))
           | _ \<Rightarrow> (st, InvalidManifest)))"

section \<open>Well-formed policies\<close>

definition policyOk :: "UpdateEnv \<Rightarrow> ReleasePolicy \<Rightarrow> bool" where
  "policyOk E p \<longleftrightarrow>
     isCanonicalReleaseChannel (channel p)
     \<and> 1 \<le> policyGeneration p \<and> policyGeneration p \<le> kMaximumSafeJsonInteger
     \<and> 0 \<le> rolloutPercentage p \<and> rolloutPercentage p \<le> 100 \<and> isCanonicalCohortSaltId (cohortSaltId p)
     \<and> kMinimumHealthDeadlineSeconds \<le> healthDeadlineSeconds p
     \<and> healthDeadlineSeconds p \<le> kMaximumHealthDeadlineSeconds
     \<and> (\<exists>g e. generatedAt p = Some g \<and> expiresAt p = Some e \<and> g < e)
     \<and> (rollbackVersion p \<noteq> [] \<longrightarrow> rollbackVersion p = previousVersion p)
     \<and> (hasRollbackArtifact p \<longrightarrow> rollbackVersion p \<noteq> [])"

lemma jsonIntegerInRange_bounds:
  assumes "jsonIntegerInRange v lo hi = Some n"
  shows "lo \<le> n \<and> n \<le> hi"
proof -
  obtain d where d: "v = JDouble d" "\<not> dbl_less d (dbl_int lo)" "\<not> dbl_less (dbl_int hi) d"
    "dbl_eq (dbl_int n) d" "n = dbl_to_int d"
    using assms by (auto simp: jsonIntegerInRange_def split: json.splits if_splits)
  then have "d = Finite (of_int n)" by (cases d) (auto simp: dbl_int_def)
  with d(2,3) show ?thesis by (simp add: dbl_int_def)
qed

lemma rollback_facts:
  assumes "policyRollback E mu prev ob = Some (rb, art)"
  shows "(rb \<noteq> [] \<longrightarrow> rb = prev) \<and> (art \<noteq> None \<longrightarrow> rb \<noteq> [])"
proof (cases "obj_contains ob ''rollback''")
  case True
  then obtain rollback v platforms where r: "obj_value ob ''rollback'' = JObject rollback" "prev \<noteq> []"
    "obj_value rollback ''version'' = JString v" "obj_value rollback ''platforms'' = JObject platforms" "v = prev"
    using assms unfolding policyRollback_def
    by (auto split: json.splits if_splits)
  then show ?thesis using assms True unfolding policyRollback_def
    by (auto simp: Let_def split: if_splits option.splits)
qed (use assms in \<open>simp add: policyRollback_def\<close>)

lemma parsePolicy_ok:
  assumes "parsePolicy E mu ob v = Some (p, lo, hi)"
  shows "policyOk E p"
proof -
  obtain ch gen pct salt l h health g e release prev rb art where
    parts: "policyChannel ob = Some ch" "jsonIntegerInRange (obj_value ob ''generation'') 1 kMaximumSafeJsonInteger = Some gen"
    "policyRollout ob = Some (pct, salt)"
    "jsonIntegerInRange (obj_value ob ''healthDeadlineSeconds'') kMinimumHealthDeadlineSeconds kMaximumHealthDeadlineSeconds = Some health"
    "policyInstants E ob = Some (g, e)" "policyRollback E mu prev ob = Some (rb, art)"
    and p: "channel p = ch" "policyGeneration p = gen" "rolloutPercentage p = pct" "cohortSaltId p = salt"
      "healthDeadlineSeconds p = health" "generatedAt p = Some g" "expiresAt p = Some e" "previousVersion p = prev"
      "rollbackVersion p = rb" "hasRollbackArtifact p = (art \<noteq> None)"
    using assms unfolding parsePolicy_def
    by (auto simp: bind_eq_Some_conv split: if_splits)
  have "isCanonicalReleaseChannel ch"
    using parts(1) by (auto simp: policyChannel_def split: json.splits if_splits)
  moreover have "0 \<le> pct \<and> pct \<le> 100 \<and> isCanonicalCohortSaltId salt"
    using parts(3) by (auto simp: policyRollout_def split: json.splits if_splits option.splits dest: jsonIntegerInRange_bounds)
  moreover have "g < e"
    using parts(5) by (auto simp: policyInstants_def split: json.splits if_splits option.splits)
  ultimately show ?thesis
    using jsonIntegerInRange_bounds [OF parts(2)] jsonIntegerInRange_bounds [OF parts(4)] rollback_facts [OF parts(6)]
    by (simp add: policyOk_def p)
qed

lemma rolloutDecision_facts:
  "rolloutDecision E p = (res, q) \<Longrightarrow> res \<noteq> PolicyInvalid \<Longrightarrow> q = p\<lparr>disposition := disposition q\<rparr>"
  "fst (rolloutDecision E p) \<noteq> PolicyStale"
  by (auto simp: rolloutDecision_def Let_def split: if_splits)

lemma evaluate_facts:
  assumes "evaluateReleasePolicy E st mu ob v = (res, q)" "res \<noteq> PolicyInvalid"
  shows "policyOk E q"
    and "res \<noteq> PolicyStale \<Longrightarrow> generationFloor E st \<le> policyGeneration q"
    and "res = PolicyEligible \<Longrightarrow> \<exists>e. expiresAt q = Some e \<and> e_now E < e"
proof -
  obtain p lo hi where p: "parsePolicy E mu ob v = Some (p, lo, hi)"
    using assms by (auto simp: evaluateReleasePolicy_def split: option.splits)
  have "q = p\<lparr>disposition := disposition q\<rparr>"
    using assms p by (auto simp: evaluateReleasePolicy_def split: if_splits option.splits dest: rolloutDecision_facts(1))
  then obtain d where q: "q = p\<lparr>disposition := d\<rparr>" by blast
  with parsePolicy_ok [OF p] show "policyOk E q" by (simp add: policyOk_def)
  show "res \<noteq> PolicyStale \<Longrightarrow> generationFloor E st \<le> policyGeneration q"
    using assms p q by (auto simp: evaluateReleasePolicy_def split: if_splits option.splits)
  show "res = PolicyEligible \<Longrightarrow> \<exists>e. expiresAt q = Some e \<and> e_now E < e"
    using assms p q parsePolicy_ok [OF p]
    by (auto simp: evaluateReleasePolicy_def policyOk_def dt_le_def split: if_splits option.splits)
qed

section \<open>Generations across manifests\<close>

definition storeKeeps :: "UpdateEnv \<Rightarrow> bool" where
  "storeKeeps E \<longleftrightarrow> e_hasRepository E \<and> (\<forall>old new. e_store E old new = old \<or> e_store E old new = new)"

definition floorOf :: "UpdateState \<Rightarrow> int" where
  "floorOf st = max (highestObserved st) (persistedGeneration st)"

definition boundTo :: "int \<Rightarrow> string \<Rightarrow> UpdateState \<Rightarrow> bool" where
  "boundTo g digest st \<longleftrightarrow>
     g \<le> floorOf st \<and> (floorOf st = g \<longrightarrow> persistedGeneration st = g \<and> persistedSha256 st = digest)"

definition bindingOf :: "UpdateState \<Rightarrow> int \<times> int \<times> string" where
  "bindingOf st = (highestObserved st, persistedGeneration st, persistedSha256 st)"

lemma evaluate_advance:
  "evaluateGenerationBinding Q g digest h pg ps = AcceptAdvance \<Longrightarrow> max h pg < g"
  "evaluateGenerationBinding Q g digest h pg ps = AcceptExisting \<Longrightarrow>
     pg = g \<and> h \<le> g \<and> ps = normalizeSha256 Q digest"
  by (auto simp: evaluateGenerationBinding_def Let_def split: if_splits)

lemma accept_cases:
  assumes "storeKeeps E" "acceptPolicyGeneration E st g digest = (st', d)"
  shows "bindingOf st' = bindingOf st
    \<or> persistedGeneration st = g \<and> bindingOf st' = (g, g, persistedSha256 st) \<and> floorOf st = g
    \<or> floorOf st < g \<and> bindingOf st' = (g, g, normalizeSha256 (e_Q E) digest)"
proof -
  let ?n = "normalizeSha256 (e_Q E) digest" and ?old = "(persistedGeneration st, persistedSha256 st)"
  let ?found = "evaluateGenerationBinding (e_Q E) g ?n (highestObserved st) (persistedGeneration st) (persistedSha256 st)"
  have repo: "e_hasRepository E" and store: "e_store E ?old (g, ?n) = ?old \<or> e_store E ?old (g, ?n) = (g, ?n)"
    using assms(1) unfolding storeKeeps_def by blast+
  consider (existing) "?found = AcceptExisting" | (advance) "?found = AcceptAdvance"
    | (refused) "?found \<noteq> AcceptExisting" "?found \<noteq> AcceptAdvance" by blast
  then show ?thesis
  proof cases
    case existing
    then have "st' = st\<lparr>highestObserved := max (highestObserved st) (persistedGeneration st)\<rparr>"
      using assms(2) repo by (simp add: acceptPolicyGeneration_def Let_def)
    then show ?thesis using evaluate_advance(2) [OF existing] by (simp add: bindingOf_def floorOf_def)
  next
    case advance
    then have lt: "floorOf st < g" using evaluate_advance(1) by (simp add: floorOf_def)
    from store show ?thesis
    proof
      assume s: "e_store E ?old (g, ?n) = ?old"
      then have "st' = st \<or> ?old = (g, ?n)"
        using assms(2) repo advance by (auto simp: acceptPolicyGeneration_def Let_def split: if_splits)
      then show ?thesis using lt by (auto simp: floorOf_def)
    next
      assume "e_store E ?old (g, ?n) = (g, ?n)"
      then show ?thesis using assms(2) repo advance lt
        by (auto simp: acceptPolicyGeneration_def Let_def bindingOf_def)
    qed
  next
    case refused
    then show ?thesis using assms(2) repo by (simp add: acceptPolicyGeneration_def Let_def)
  qed
qed

lemma bindingOf_cong:
  "bindingOf st' = bindingOf st \<Longrightarrow> boundTo g digest st' = boundTo g digest st \<and> floorOf st' = floorOf st"
  by (simp add: bindingOf_def boundTo_def floorOf_def)

lemma accept_keeps_bound:
  assumes "storeKeeps E" "acceptPolicyGeneration E st g' digest' = (st', d)"
  shows "boundTo g digest st \<Longrightarrow> boundTo g digest st'" and "floorOf st \<le> floorOf st'"
  using accept_cases [OF assms] bindingOf_cong [of st' st]
  by (auto simp: bindingOf_def boundTo_def floorOf_def)

lemma accepted_bound:
  assumes "acceptPolicyGeneration E st g digest = (st', d)" "d = AcceptExisting \<or> d = AcceptAdvance"
    and "normalizeSha256 (e_Q E) digest = digest"
  shows "boundTo g digest st'"
  using assms evaluate_advance [of "e_Q E" g digest "highestObserved st" "persistedGeneration st" "persistedSha256 st"]
  unfolding acceptPolicyGeneration_def
  by (auto simp: Let_def boundTo_def floorOf_def split: if_splits)

lemma select_binding [simp]:
  "bindingOf (fst (selectRelease E st mu payload sch v p)) = bindingOf st"
  by (simp add: selectRelease_def armUpdateInstallIntent_def Let_def bindingOf_def split: option.splits)

lemma admit_binding:
  "bindingOf (fst (admitPolicy E st mu data payload v)) = bindingOf st
   \<or> (\<exists>g digest. bindingOf (fst (admitPolicy E st mu data payload v)) = bindingOf (fst (acceptPolicyGeneration E st g digest)))"
proof (cases "obj_value payload ''releasePolicy''")
  case (JObject ob)
  obtain found p where f: "evaluateReleasePolicy E st mu ob v = (found, p)" by fastforce
  obtain st1 d where a: "acceptPolicyGeneration E st (policyGeneration p) (to_hex (q_sha256 (e_Q E) data)) = (st1, d)"
    by fastforce
  have "bindingOf (fst (admitPolicy E st mu data payload v)) \<in> {bindingOf st, bindingOf st1}"
    using select_binding [of E "st1\<lparr>observedPolicy := p\<rparr>" mu payload 2 v p]
    by (simp add: admitPolicy_def JObject f a Let_def) (simp add: bindingOf_def)
  then show ?thesis using a by (metis fst_conv insertE singletonD)
qed (simp_all add: admitPolicy_def)

lemma process_binding:
  "bindingOf (fst (processSelfHostedManifest E st mu data)) = bindingOf st
   \<or> (\<exists>g digest. bindingOf (fst (processSelfHostedManifest E st mu data)) = bindingOf (fst (acceptPolicyGeneration E st g digest)))"
  using admit_binding [of E st mu]
  by (auto simp: processSelfHostedManifest_def split: option.splits json.splits)

type_synonym manifestEvent = "UpdateEnv \<times> qurl \<times> string"

definition manifestStep :: "UpdateState \<Rightarrow> manifestEvent \<Rightarrow> UpdateState \<times> ManifestResult" where
  "manifestStep st e = processSelfHostedManifest (fst e) st (fst (snd e)) (snd (snd e))"

lemma manifest_keeps_bound:
  assumes "storeKeeps (fst e)"
  shows "boundTo g digest st \<Longrightarrow> boundTo g digest (fst (manifestStep st e))"
    and "floorOf st \<le> floorOf (fst (manifestStep st e))"
proof -
  let ?st' = "fst (manifestStep st e)"
  have "bindingOf ?st' = bindingOf st
    \<or> (\<exists>g' digest'. bindingOf ?st' = bindingOf (fst (acceptPolicyGeneration (fst e) st g' digest')))"
    using process_binding [of "fst e" st "fst (snd e)" "snd (snd e)"] by (simp add: manifestStep_def)
  then consider "bindingOf ?st' = bindingOf st"
    | g' digest' where "bindingOf ?st' = bindingOf (fst (acceptPolicyGeneration (fst e) st g' digest'))" by blast
  then have "(boundTo g digest st \<longrightarrow> boundTo g digest ?st') \<and> floorOf st \<le> floorOf ?st'"
  proof cases
    case 1
    from bindingOf_cong [OF this, of g digest] show ?thesis by simp
  next
    case 2
    obtain st1 d where a: "acceptPolicyGeneration (fst e) st g' digest' = (st1, d)" by fastforce
    from bindingOf_cong [OF 2, of g digest] accept_keeps_bound(1) [OF assms a, of g digest]
      accept_keeps_bound(2) [OF assms a] a show ?thesis by simp
  qed
  then show "boundTo g digest st \<Longrightarrow> boundTo g digest ?st'" "floorOf st \<le> floorOf ?st'" by blast+
qed

lemma manifests_keep_bound:
  "(\<forall>e \<in> set es. storeKeeps (fst e)) \<Longrightarrow>
   (boundTo g digest st \<longrightarrow> boundTo g digest (run manifestStep st es)) \<and> floorOf st \<le> floorOf (run manifestStep st es)"
proof (induction es arbitrary: st)
  case (Cons e es)
  then have "storeKeeps (fst e)" by simp
  note manifest_keeps_bound [OF this, where st = st]
  with Cons show ?case by (simp, meson order_trans)
qed simp

lemma normalize_hex:
  assumes "qt_policy_ok Q"
  shows "normalizeSha256 Q (to_hex d) = to_hex d"
proof -
  have hex: "list_all is_lower_hex (to_hex d)"
    using to_hex_digits [of d] by (simp add: list_all_iff)
  have "is_plain c \<and> c \<noteq> CHR '':''" if "is_lower_hex c" for c
    using that by (auto simp: is_lower_hex_def is_plain_def is_dotted_def is_ascii_digit_iff char_le_of_char)
  then have "list_all is_plain (to_hex d)" "\<forall>c \<in> set (to_hex d). c \<noteq> CHR '':''"
    using hex by (auto simp: list_all_iff)
  then show ?thesis unfolding normalizeSha256_def using plain_fold [OF assms, of "to_hex d"] by simp
qed

lemma one_payload:
  assumes es: "\<forall>e \<in> set es. storeKeeps (fst e)"
    and a1: "acceptPolicyGeneration E1 st g digest1 = (st1, d1)" "d1 = AcceptExisting \<or> d1 = AcceptAdvance"
    and a2: "acceptPolicyGeneration E2 (run manifestStep st1 es) g digest2 = (st2, d2)"
      "d2 = AcceptExisting \<or> d2 = AcceptAdvance"
    and n: "normalizeSha256 (e_Q E1) digest1 = digest1" "normalizeSha256 (e_Q E2) digest2 = digest2"
  shows "digest1 = digest2"
proof -
  let ?st = "run manifestStep st1 es"
  have b: "boundTo g digest1 ?st"
    using manifests_keep_bound [OF es, of g digest1 st1] accepted_bound [OF a1 n(1)] by simp
  let ?found = "evaluateGenerationBinding (e_Q E2) g digest2 (highestObserved ?st) (persistedGeneration ?st) (persistedSha256 ?st)"
  have "?found = AcceptExisting \<or> ?found = AcceptAdvance"
    using a2 n(2) by (auto simp: acceptPolicyGeneration_def Let_def split: if_splits)
  then show ?thesis
    using evaluate_advance [of "e_Q E2" g digest2 "highestObserved ?st" "persistedGeneration ?st" "persistedSha256 ?st"] b n(2)
    by (auto simp: boundTo_def floorOf_def)
qed

section \<open>What an available update guarantees\<close>

definition artifactSafe :: "UpdateEnv \<Rightarrow> UpdateArtifact \<Rightarrow> bool" where
  "artifactSafe E a \<longleftrightarrow>
     (case url a of
        None \<Rightarrow> False
      | Some u \<Rightarrow>
          if openExternally a then isAllowedExternalUpdateUrl E u
          else isHttpOrHttpsUrl E u \<and> isCanonicalSha256 (sha256 a) \<and> 0 < artifactSize a)"

definition newerThanRunning :: "UpdateEnv \<Rightarrow> UpdateState \<Rightarrow> bool" where
  "newerThanRunning E st =
     (if e_platform E = Android \<and> \<not> openExternally (selectedArtifact st)
      then e_androidVersionCode E < androidVersionCode (selectedArtifact st)
      else isNewVersionAvailable E (version st))"

lemma candidate_safe: "candidateArtifact E mu payload rb key = Some a \<Longrightarrow> artifactSafe E a"
proof -
  assume a: "candidateArtifact E mu payload rb key = Some a"
  then have "\<exists>u. url a = Some u \<and> \<not> artifactRefused E u (openExternally a) (sha256 a) (artifactSize a)"
    unfolding candidateArtifact_def Let_def by (auto split: json.split_asm if_split_asm)
  then show ?thesis by (auto simp: artifactSafe_def artifactRefused_def)
qed

lemma firstCandidate_sound: "firstCandidate f ks = Some a \<Longrightarrow> \<exists>k. f k = Some a"
  by (induction ks) (auto split: option.splits)

lemma selected_safe: "selectSelfHostedArtifact E mu payload rb = Some a \<Longrightarrow> artifactSafe E a"
  by (auto simp: selectSelfHostedArtifact_def split: if_splits dest!: firstCandidate_sound candidate_safe)

lemma select_available:
  assumes "selectRelease E st mu payload sch v p = (st', UpdateAvailable)"
  shows "artifactSafe E (selectedArtifact st')" "version st' = v" "selectedPolicy st' = p" "newerThanRunning E st'"
    "kind (installIntent st') = UpdateIntent \<and> \<not> consumed (installIntent st')
     \<and> targetVersion (installIntent st') = v \<and> intentGeneration (installIntent st') = policyGeneration p"
proof -
  obtain a where a: "selectSelfHostedArtifact E mu payload False = Some a"
    using assms by (auto simp: selectRelease_def split: if_splits option.splits)
  note safe = selected_safe [OF a]
  from assms a safe show "artifactSafe E (selectedArtifact st')" "version st' = v" "selectedPolicy st' = p" "newerThanRunning E st'"
    "kind (installIntent st') = UpdateIntent \<and> \<not> consumed (installIntent st')
     \<and> targetVersion (installIntent st') = v \<and> intentGeneration (installIntent st') = policyGeneration p"
    by (auto simp: selectRelease_def armUpdateInstallIntent_def noInstallIntent_def newerThanRunning_def Let_def
        split: if_splits)
qed

definition policyAdmitted :: "UpdateEnv \<Rightarrow> UpdateState \<Rightarrow> ReleasePolicy \<Rightarrow> bool" where
  "policyAdmitted E st p \<longleftrightarrow>
     (p = defaultPolicy \<and> generationFloor E st \<le> 0)
     \<or> (policyOk E p \<and> generationFloor E st \<le> policyGeneration p \<and> (\<exists>e. expiresAt p = Some e \<and> e_now E < e))"

lemma admit_available:
  assumes "admitPolicy E st mu data payload v = (st', UpdateAvailable)"
  shows "\<exists>st1 p. policyAdmitted E st p \<and> selectRelease E st1 mu payload 2 v p = (st', UpdateAvailable)"
proof -
  obtain ob where ob: "obj_value payload ''releasePolicy'' = JObject ob"
    using assms by (auto simp: admitPolicy_def split: json.splits)
  obtain found p where f: "evaluateReleasePolicy E st mu ob v = (found, p)" by fastforce
  obtain st1 d where a: "acceptPolicyGeneration E st (policyGeneration p) (to_hex (q_sha256 (e_Q E) data)) = (st1, d)"
    by fastforce
  have eligible: "found = PolicyEligible" "selectRelease E (st1\<lparr>observedPolicy := p\<rparr>) mu payload 2 v p = (st', UpdateAvailable)"
    using assms by (auto simp: admitPolicy_def ob f a Let_def split: if_splits) (cases found; simp)+
  with evaluate_facts [OF f] show ?thesis unfolding policyAdmitted_def by blast
qed

lemma process_available:
  assumes "processSelfHostedManifest E st mu data = (st', UpdateAvailable)"
  obtains payloadData payload sch v p st1 where "verifySignedManifestEnvelope E data = Some payloadData"
    "q_jsonParse (e_Q E) payloadData = Some (JObject payload)" "exactVersion E v \<noteq> None" "policyAdmitted E st p"
    "selectRelease E st1 mu payload sch v p = (st', UpdateAvailable)"
proof -
  obtain payloadData where a: "verifySignedManifestEnvelope E data = Some payloadData"
    using assms by (auto simp: processSelfHostedManifest_def split: option.splits)
  obtain payload where b: "q_jsonParse (e_Q E) payloadData = Some (JObject payload)"
    using assms a by (auto simp: processSelfHostedManifest_def split: option.split_asm json.split_asm)
  obtain sch where c: "jsonIntegerInRange (obj_value payload ''schema'') 1 2 = Some sch"
    using assms a b by (auto simp: processSelfHostedManifest_def split: option.split_asm)
  have sch: "sch = 1 \<or> sch = 2" using jsonIntegerInRange_bounds [OF c] by auto
  obtain v where d: "obj_value payload ''version'' = JString v" "exactVersion E v \<noteq> None"
    "(if sch = 2 then admitPolicy E st mu payloadData payload v
      else selectRelease E st mu payload sch v defaultPolicy) = (st', UpdateAvailable)"
    "sch = 1 \<Longrightarrow> generationFloor E st \<le> 0"
    using assms a b c by (auto simp: processSelfHostedManifest_def split: if_split_asm json.split_asm)
  show thesis
  proof (cases "sch = 2")
    case True
    with d(3) have "admitPolicy E st mu payloadData payload v = (st', UpdateAvailable)" by simp
    from admit_available [OF this] that a b d(2) show thesis by blast
  next
    case False
    then have "policyAdmitted E st defaultPolicy" using d(4) sch by (simp add: policyAdmitted_def)
    with that a b d(2,3) False show thesis by auto
  qed
qed

lemma envelope_verified:
  assumes "verifySignedManifestEnvelope E data = Some payload"
  shows "payload \<noteq> [] \<and> length payload \<le> kManifestMaxPayloadBytes
    \<and> (\<exists>signature. length signature = 64 \<and> e_verify E payload signature)"
  using assms by (auto simp: verifySignedManifestEnvelope_def split: option.split_asm json.split_asm if_split_asm)

section \<open>Properties\<close>


definition refUrl :: qurl where
  "refUrl = \<lparr>url_valid = True, url_empty = False, url_relative = False, url_scheme = ''https'', url_host = ''h'',
     url_text = ''https://h/''\<rparr>"

definition refPayloadObject :: jobject where
  "refPayloadObject = [(''platforms'', JObject [(''ios'', JObject [(''url'', JString ''u'')])]), (''schema'', jint 1),
     (''version'', JString ''4.9.0.11'')]"

definition refEnvelope :: jobject where
  "refEnvelope = [(''payload'', JString ''p''), (''schema'', JString ''amnezia-selfhosted-update-v1''),
     (''signature'', JString ''s''), (''signatureAlgorithm'', JString ''Ed25519'')]"

definition refEnv :: UpdateEnv where
  "refEnv = \<lparr>e_Q = qt_ref\<lparr>q_jsonParse := (\<lambda>s. Some (JObject (if s = ''m'' then refEnvelope else refPayloadObject)))\<rparr>,
     e_U = refServices, e_platform = IOS, e_macosNe = False, e_appVersion = ''4.9.0.10'', e_androidVersionCode = 0,
     e_cpu = [], e_buildCpu = [], e_now = 0, e_hasRepository = True, e_installationUuid = [], e_newIntentId = ''id'',
     e_base64 = (\<lambda>urlAlphabet s. Some (if urlAlphabet then ''payload'' else replicate 64 (CHR ''s''))),
     e_verify = (\<lambda>payload signature. True), e_url = (\<lambda>s. refUrl), e_resolved = (\<lambda>u s. refUrl), e_queryUrl = id,
     e_baseUrl = url_text, e_store = (\<lambda>old new. new)\<rparr>"

definition freshState :: UpdateState where
  "freshState = \<lparr>highestObserved = 0, persistedGeneration = 0, persistedSha256 = [], version = [], releaseDate = [],
     changelogText = [], selectedArtifact = noArtifact, downloadUrl = [], baseUrl = [], useSelfHostedArtifact = False,
     selectedPolicy = defaultPolicy, observedPolicy = defaultPolicy, installIntent = noInstallIntent\<rparr>"

lemma refEnv_selectors [simp]:
  "e_platform refEnv = IOS" "e_U refEnv = refServices" "e_appVersion refEnv = ''4.9.0.10''" "e_hasRepository refEnv"
  "e_base64 refEnv b s = Some (if b then ''payload'' else replicate 64 (CHR ''s''))" "e_verify refEnv m sig"
  "q_jsonParse (e_Q refEnv) s = Some (JObject (if s = ''m'' then refEnvelope else refPayloadObject))"
  "e_url refEnv s = refUrl" "\<not> e_macosNe refEnv" "q_isSpace (e_Q refEnv) = ascii_space"
  "q_toLower (e_Q refEnv) = map ascii_lower"
  by (simp_all add: refEnv_def)

lemma refManifest:
  "snd (processSelfHostedManifest refEnv freshState refUrl ''m'') = UpdateAvailable"
proof -
  have v: "verifySignedManifestEnvelope refEnv ''m'' = Some ''payload''"
    by (simp add: verifySignedManifestEnvelope_def refEnvelope_def obj_value_def kManifestMaxPayloadBytes_def)
  have sch: "jsonIntegerInRange (obj_value refPayloadObject ''schema'') 1 2 = Some 1"
    by (simp add: jsonIntegerInRange_def refPayloadObject_def obj_value_def dbl_int_def)
  have ver: "obj_value refPayloadObject ''version'' = JString ''4.9.0.11''" "\<not> obj_contains refPayloadObject ''releasePolicy''"
    by (simp_all add: refPayloadObject_def obj_value_def obj_contains_def)
  have exact: "exactVersion refEnv ''4.9.0.11'' \<noteq> None"
    by (simp add: exactVersion_def parseExactVersion_def refServices_def split_on_def exactPart_def trimmed_def
        trim_where_def undecimal_def digit_value_def is_ascii_digit_def ascii_space_def)
  have new: "isNewVersionAvailable refEnv ''4.9.0.11''"
    by (simp add: isNewVersionAvailable_def refServices_def split_on_def undecimal_def digit_value_def)
  have plat: "controllerPlatformCandidates refEnv = [''ios'']"
    by (simp add: controllerPlatformCandidates_def platformCandidates_def platformKeys_def Let_def add_new_def)
  have has: "payloadHasPlatformCandidate refEnv refPayloadObject"
    by (simp add: payloadHasPlatformCandidate_def refPayloadObject_def obj_value_def obj_contains_def plat)
  have "resolvedArtifactUrl refEnv refUrl ''u'' = refUrl"
    by (simp add: resolvedArtifactUrl_def refUrl_def trimmed_def trim_where_def ascii_space_def)
  then have "selectSelfHostedArtifact refEnv refUrl refPayloadObject False \<noteq> None"
    by (simp add: selectSelfHostedArtifact_def plat candidateArtifact_def refPayloadObject_def obj_value_def Let_def
        artifactRefused_def isAllowedExternalUpdateUrl_def ascii_lower_def) (simp add: refUrl_def ascii_lower_def)
  then obtain a where "selectSelfHostedArtifact refEnv refUrl refPayloadObject False = Some a" by blast
  then show ?thesis
    by (simp add: processSelfHostedManifest_def v sch ver exact has new selectRelease_def generationFloor_def
        freshState_def Let_def)
qed


text \<open>
  A policy that is not rejected is well formed: a canonical channel and salt, a generation, rollout
  percentage and health deadline within their bounds, an expiry after the generation instant, and a
  rollback version only when it is the previous version.
\<close>
theorem evaluated_policy_well_formed:
  assumes "evaluateReleasePolicy E st mu ob v = (res, p)" and "res \<noteq> PolicyInvalid"
  shows "policyOk E p"
  using evaluate_facts(1) [OF assms] .

definition refPolicyEnv :: UpdateEnv where
  "refPolicyEnv = refEnv\<lparr>e_U := refServices\<lparr>
     u_stamp := (\<lambda>s. Some (if s = ''2026-01-01T00:00:00Z'' then 0 else 1000, True)),
     u_stampText := (\<lambda>t. if t = 0 then ''2026-01-01T00:00:00Z'' else ''2026-01-02T00:00:00Z'')\<rparr>\<rparr>"

definition refPolicyObject :: jobject where
  "refPolicyObject = [(''channel'', JString ''stable''), (''eligibility'', JObject []),
     (''expiresAt'', JString ''2026-01-02T00:00:00Z''), (''generatedAt'', JString ''2026-01-01T00:00:00Z''),
     (''generation'', jint 7), (''healthDeadlineSeconds'', jint 600),
     (''rollout'', JObject [(''cohortSaltId'', JString ''s1''), (''percentage'', jint 100)]), (''schema'', jint 2)]"

lemma refPolicy_values:
  "obj_value refPolicyObject ''channel'' = JString ''stable''" "obj_value refPolicyObject ''eligibility'' = JObject []"
  "obj_value refPolicyObject ''expiresAt'' = JString ''2026-01-02T00:00:00Z''"
  "obj_value refPolicyObject ''generatedAt'' = JString ''2026-01-01T00:00:00Z''"
  "obj_value refPolicyObject ''generation'' = jint 7" "obj_value refPolicyObject ''healthDeadlineSeconds'' = jint 600"
  "obj_value refPolicyObject ''rollout'' = JObject [(''cohortSaltId'', JString ''s1''), (''percentage'', jint 100)]"
  "policyKeysOk refPolicyObject" "\<not> obj_contains refPolicyObject ''previousVersion''" "\<not> obj_contains refPolicyObject ''rollback''"
  by (simp_all add: refPolicyObject_def obj_value_def obj_contains_def policyKeysOk_def requiredPolicyKeys_def
      optionalPolicyKeys_def obj_keys_def jsonIntegerInRange_def dbl_int_def)

lemma refPolicy_parsed:
  "fst (evaluateReleasePolicy refPolicyEnv freshState refUrl refPolicyObject ''4.9.0.11'') = PolicyEligible"
proof -
  have exact: "exactVersion refPolicyEnv ''4.9.0.11'' \<noteq> None" "exactVersion refPolicyEnv ''4.9.0.10'' \<noteq> None"
    by (simp_all add: exactVersion_def refPolicyEnv_def parseExactVersion_def refServices_def split_on_def exactPart_def
        trimmed_def trim_where_def undecimal_def digit_value_def is_ascii_digit_def ascii_space_def refEnv_def)
  have "[0..<20] = [0, 1, 2, 3, 4, 5, 6, 7, 8, 9, 10, 11, 12, 13, 14, 15, 16, 17, 18, 19::nat]"
    by (simp add: upt_conv_Cons)
  then have instants: "policyInstants refPolicyEnv refPolicyObject = Some (0, 1000)"
    by (simp add: policyInstants_def refPolicy_values parseCanonicalUtcTimestamp_def refPolicyEnv_def stampSeparators_def
        is_ascii_digit_def)
  have rollout: "policyRollout refPolicyObject = Some (100, ''s1'')"
    unfolding policyRollout_def refPolicy_values
    by (simp add: obj_contains_def obj_value_def jsonIntegerInRange_def dbl_int_def isCanonicalCohortSaltId_def
        is_alnum_def is_ascii_digit_def)
  have nums: "jsonIntegerInRange (jint 7) 1 kMaximumSafeJsonInteger = Some 7"
    "jsonIntegerInRange (jint 600) kMinimumHealthDeadlineSeconds kMaximumHealthDeadlineSeconds = Some 600"
    by (simp_all add: jsonIntegerInRange_def dbl_int_def kMaximumSafeJsonInteger_def kMinimumHealthDeadlineSeconds_def
        kMaximumHealthDeadlineSeconds_def)
  have el: "policyEligibility refPolicyEnv refPolicyObject = Some (([], None), ([], None))"
    by (simp add: policyEligibility_def refPolicy_values obj_keys_def eligibilityVersion_def)
  obtain rel cur where "exactVersion refPolicyEnv ''4.9.0.11'' = Some rel" "exactVersion refPolicyEnv ''4.9.0.10'' = Some cur"
    using exact by blast
  moreover have "e_appVersion refPolicyEnv = ''4.9.0.10''" "e_now refPolicyEnv = 0" "e_hasRepository refPolicyEnv"
    by (simp_all add: refPolicyEnv_def refEnv_def)
  ultimately show ?thesis
    by (simp add: evaluateReleasePolicy_def parsePolicy_def refPolicy_values instants rollout nums el policyChannel_def
        isCanonicalReleaseChannel_def policyPreviousVersion_def policyRollback_def generationFloor_def freshState_def
        dt_le_def rolloutDecision_def)
qed

theorem evaluated_policy_well_formed_witness:
  "policyOk refPolicyEnv (snd (evaluateReleasePolicy refPolicyEnv freshState refUrl refPolicyObject ''4.9.0.11''))"
  using evaluated_policy_well_formed [of refPolicyEnv freshState refUrl refPolicyObject "''4.9.0.11''", OF prod.collapse [symmetric]]
    refPolicy_parsed by simp


lemma refEnv_policy: "qt_policy_ok (e_Q refEnv)"
  using qt_ref_policy
  by (simp add: refEnv_def qt_policy_ok_def qt_routes_ok_def qt_hosts_ok_def qt_spaces_ok_def qt_decimal_ok_def
      qt_lower_ok_def trimmed_def)

lemma refAccept:
  "acceptPolicyGeneration refEnv freshState 3 (to_hex (replicate 32 (CHR ''a'')))
   = (freshState\<lparr>highestObserved := 3, persistedGeneration := 3, persistedSha256 := to_hex (replicate 32 (CHR ''a''))\<rparr>,
      AcceptAdvance)" (is ?first)
  "acceptPolicyGeneration refEnv
     (freshState\<lparr>highestObserved := 3, persistedGeneration := 3, persistedSha256 := to_hex (replicate 32 (CHR ''a''))\<rparr>) 3
     (to_hex (replicate 32 (CHR ''a'')))
   = (freshState\<lparr>highestObserved := 3, persistedGeneration := 3, persistedSha256 := to_hex (replicate 32 (CHR ''a''))\<rparr>,
      AcceptExisting)" (is ?second)
proof -
  let ?d = "to_hex (replicate 32 (CHR ''a''))"
  have "isCanonicalSha256 ?d" using to_hex_digits by (simp add: isCanonicalSha256_def list_all_iff)
  moreover have "?d \<noteq> []" using length_to_hex [of "replicate 32 (CHR ''a'')"] by (cases ?d) simp_all
  moreover note normalize_hex [OF refEnv_policy, of "replicate 32 (CHR ''a'')"]
  moreover have "e_store refEnv old new = new" for old new by (simp add: refEnv_def)
  ultimately show ?first ?second
    by (simp_all add: acceptPolicyGeneration_def evaluateGenerationBinding_def freshState_def Let_def)
qed


end
