(* ===== verification/Json_Scanner.thy ===== *)
theory Json_Scanner
  imports Qt_Reference
begin

text \<open>
  The hand-written scanner for flat JSON objects that several components repeat before Qt's parser sees
  the text, so that repeated or escaped member names are not lost: blanks, one expected character and
  the extent of one quoted token. A position in the input is the text that remains.
\<close>

section \<open>The scanner\<close>

definition newline :: char where "newline = CHR 0x0A"

definition isJsonSpace :: "char \<Rightarrow> bool" where
  "isJsonSpace c \<longleftrightarrow> c = CHR '' '' \<or> c = CHR 0x09 \<or> c = CHR 0x0D \<or> c = newline"

definition skipSpace :: "string \<Rightarrow> string" where
  "skipSpace s = dropWhile isJsonSpace s"

fun scanString :: "bool \<Rightarrow> string \<Rightarrow> string \<Rightarrow> (string \<times> string) option" where
  "scanString escaped token [] = None"
| "scanString escaped token (c # cs) =
     (if \<not> escaped \<and> c = CHR ''\"'' then Some (token @ [c], cs)
      else scanString (\<not> escaped \<and> c = CHR 0x5C) (token @ [c]) cs)"

definition readChar :: "char \<Rightarrow> string \<Rightarrow> string option" where
  "readChar c s = (case s of [] \<Rightarrow> None | x # xs \<Rightarrow> if x = c then Some xs else None)"

section \<open>Every token shortens the text\<close>

lemma scanString_shorter: "scanString e t s = Some (t', r) \<Longrightarrow> length r < length s"
proof (induction e t s arbitrary: t' r rule: scanString.induct)
  case (2 e t c cs)
  show ?case
  proof (cases "\<not> e \<and> c = CHR ''\"''")
    case False
    then have "scanString (\<not> e \<and> c = CHR 0x5C) (t @ [c]) cs = Some (t', r)" using 2(2) by auto
    then show ?thesis using 2(1) [OF False] by (simp add: less_SucI)
  qed (use 2 in simp)
qed simp

lemma skipSpace_shorter: "length (skipSpace s) \<le> length s"
  by (simp add: skipSpace_def length_dropWhile_le)

lemma readChar_shorter: "readChar c s = Some r \<Longrightarrow> length r < length s"
  by (auto simp: readChar_def split: list.splits if_splits)

section \<open>Tokens without escape sequences\<close>

definition quoted :: "string \<Rightarrow> string" where "quoted s = ''\"'' @ s @ ''\"''"

lemma scanString_plain:
  "list_all (\<lambda>c. c \<noteq> CHR ''\"'' \<and> c \<noteq> CHR 0x5C) xs \<Longrightarrow>
   scanString False t (xs @ CHR ''\"'' # rest) = Some (t @ xs @ ''\"'', rest)"
  by (induction xs arbitrary: t) auto

end
