(* ===== verification/Operator_Command.thy ===== *)
theory Operator_Command
  imports Json_Scanner
begin

text \<open>
  The operator command line (\<open>core/utils/operatorCommand.h\<close>, \<open>awgMaintenanceCommand.h\<close>): the flat JSON
  grammar of the maintenance argument, the commands and their wire form, the parsing of the program's
  arguments, the runtime answer about a route and the frames of the watch stream. Paths, case folding,
  the local 8-bit codec and the number parser are the fields of \<open>operatorServices\<close>.
\<close>

record operatorServices =
  o_windows :: bool
  o_cleanPath :: "string \<Rightarrow> string"
  o_caseFolded :: "string \<Rightarrow> string"
  o_toLongLong :: "string \<Rightarrow> int option"
  o_fromLocal8Bit :: "string \<Rightarrow> string"

section \<open>The maintenance argument\<close>

definition decodeToken :: "qt \<Rightarrow> string \<Rightarrow> string option" where
  "decodeToken Q token =
     (case q_jsonParse Q (''['' @ q_toUtf8 Q token @ '']'') of
        Some (JArray [JString s]) \<Rightarrow> Some s | _ \<Rightarrow> None)"

definition readString :: "qt \<Rightarrow> string \<Rightarrow> (string \<times> string) option" where
  "readString Q s =
     (case s of
        [] \<Rightarrow> None
      | c # cs \<Rightarrow>
          if c \<noteq> CHR ''\"'' then None
          else (case scanString False [c] cs of
                  None \<Rightarrow> None
                | Some (token, rest) \<Rightarrow> map_option (\<lambda>decoded. (decoded, rest)) (decodeToken Q token)))"

definition maxMaintenanceGeneration :: int where "maxMaintenanceGeneration = 9007199254740991"

definition readGeneration :: "operatorServices \<Rightarrow> string \<Rightarrow> (int \<times> string) option" where
  "readGeneration S s =
     (let token = takeWhile is_ascii_digit s in
      case o_toLongLong S token of
        None \<Rightarrow> None
      | Some n \<Rightarrow>
          if n < 1 \<or> maxMaintenanceGeneration < n \<or> decimal (nat n) \<noteq> token then None
          else Some (n, dropWhile is_ascii_digit s))"

definition maintenanceKeys :: "string list" where
  "maintenanceKeys = [''serverId'', ''source'', ''generation'', ''expectedJournalSha256'']"

text \<open>One member of the object: its key and value and the text after it.\<close>

definition readMember :: "qt \<Rightarrow> operatorServices \<Rightarrow> jobject \<Rightarrow> string \<Rightarrow> (jobject \<times> string) option" where
  "readMember Q S result s =
     (case readString Q (skipSpace s) of
        None \<Rightarrow> None
      | Some (key, s) \<Rightarrow>
          if obj_contains result key \<or> key \<notin> set maintenanceKeys then None
          else (case readChar (CHR '':'') (skipSpace s) of
                  None \<Rightarrow> None
                | Some s \<Rightarrow>
                    if key = ''generation''
                    then (case readGeneration S (skipSpace s) of
                            None \<Rightarrow> None | Some (n, s) \<Rightarrow> Some (obj_insert key (jint n) result, skipSpace s))
                    else (case readString Q (skipSpace s) of
                            None \<Rightarrow> None | Some (v, s) \<Rightarrow> Some (obj_insert key (JString v) result, skipSpace s))))"

lemma readString_shorter: "readString Q s = Some (v, r) \<Longrightarrow> length r < length s"
  by (auto simp: readString_def split: list.splits if_splits option.splits dest!: scanString_shorter)

lemma readGeneration_shorter: "readGeneration S s = Some (n, r) \<Longrightarrow> length r \<le> length s"
  by (auto simp: readGeneration_def Let_def length_dropWhile_le split: option.splits if_splits)

lemma readMember_cases:
  assumes "readMember Q S result s = Some (result', s')"
  obtains key s1 s2 v s3 where "readString Q (skipSpace s) = Some (key, s1)"
    "\<not> obj_contains result key" "key \<in> set maintenanceKeys"
    "readChar (CHR '':'') (skipSpace s1) = Some s2"
    "result' = obj_insert key v result" "s' = skipSpace s3"
    "key = ''generation'' \<and> (\<exists>n. v = jint n \<and> readGeneration S (skipSpace s2) = Some (n, s3))
     \<or> key \<noteq> ''generation'' \<and> (\<exists>x. v = JString x \<and> readString Q (skipSpace s2) = Some (x, s3))"
proof -
  obtain key s1 where k: "readString Q (skipSpace s) = Some (key, s1)"
      "\<not> obj_contains result key" "key \<in> set maintenanceKeys"
    using assms by (auto simp: readMember_def split: option.splits if_splits)
  obtain s2 where s2: "readChar (CHR '':'') (skipSpace s1) = Some s2"
    using assms k by (auto simp: readMember_def split: option.splits)
  show thesis
  proof (cases "key = ''generation''")
    case True
    then obtain n s3 where "readGeneration S (skipSpace s2) = Some (n, s3)"
        "result' = obj_insert key (jint n) result" "s' = skipSpace s3"
      using assms k s2 by (auto simp: readMember_def split: option.splits)
    then show thesis using that k s2 True by blast
  next
    case False
    then obtain x s3 where "readString Q (skipSpace s2) = Some (x, s3)"
        "result' = obj_insert key (JString x) result" "s' = skipSpace s3"
      using assms k s2 by (auto simp: readMember_def split: option.splits)
    then show thesis using that k s2 False by blast
  qed
qed

lemma readMember_shorter: "readMember Q S r s = Some (r', s') \<Longrightarrow> length s' < length s"
proof (erule readMember_cases)
  fix key s1 s2 v s3
  assume a: "readString Q (skipSpace s) = Some (key, s1)" "readChar (CHR '':'') (skipSpace s1) = Some s2"
    "s' = skipSpace s3"
    "key = ''generation'' \<and> (\<exists>n. v = jint n \<and> readGeneration S (skipSpace s2) = Some (n, s3))
     \<or> key \<noteq> ''generation'' \<and> (\<exists>x. v = JString x \<and> readString Q (skipSpace s2) = Some (x, s3))"
  have "length s3 \<le> length (skipSpace s2)"
    using a(4) by (auto dest: readGeneration_shorter readString_shorter)
  then show ?thesis
    using readString_shorter [OF a(1)] readChar_shorter [OF a(2)] a(3)
      skipSpace_shorter [of s] skipSpace_shorter [of s1] skipSpace_shorter [of s2] skipSpace_shorter [of s3]
    by simp
qed

function readMembers :: "qt \<Rightarrow> operatorServices \<Rightarrow> jobject \<Rightarrow> string \<Rightarrow> (jobject \<times> string) option" where
  "readMembers Q S result s =
     (case readMember Q S result s of
        None \<Rightarrow> None
      | Some (result', s') \<Rightarrow>
          (case s' of
             [] \<Rightarrow> None
           | c # rest \<Rightarrow>
               if c = CHR ''}'' then Some (result', rest)
               else if c \<noteq> CHR '','' then None else readMembers Q S result' rest))"
  by pat_completeness auto
termination
  by (relation "measure (\<lambda>(Q, S, r, s). length s)") (auto dest: readMember_shorter)

declare readMembers.simps [simp del]

text \<open>
  The expression \<open>^[a-f0-9]{64}$\<close>: as the dollar sign also matches before a final newline, a text of
  64 digits followed by a newline is accepted too.
\<close>

definition matchesHex64 :: "string \<Rightarrow> bool" where
  "matchesHex64 s \<longleftrightarrow>
     list_all is_lower_hex (take 64 s) \<and> (length s = 64 \<or> length s = 65 \<and> last s = newline)"

definition maintenanceFieldsOk :: "jobject \<Rightarrow> bool" where
  "maintenanceFieldsOk result \<longleftrightarrow>
     (let serverId = jstr (obj_value result ''serverId''); source = jstr (obj_value result ''source'') in
      length result = 4 \<and> serverId \<noteq> [] \<and> length serverId \<le> 256
      \<and> \<not> list_ex (\<lambda>c. (of_char c :: nat) < 32) serverId
      \<and> (source = ''amnezia-awg'' \<or> source = ''amnezia-awg2'')
      \<and> matchesHex64 (jstr (obj_value result ''expectedJournalSha256'')))"

definition parseAwgMaintenanceArgument :: "qt \<Rightarrow> operatorServices \<Rightarrow> string \<Rightarrow> jobject" where
  "parseAwgMaintenanceArgument Q S input =
     (if input = [] \<or> 4096 < length input then []
      else (case readChar (CHR ''{'') (skipSpace input) of
              None \<Rightarrow> []
            | Some s \<Rightarrow>
                (case readMembers Q S [] s of
                   None \<Rightarrow> []
                 | Some (result, s) \<Rightarrow>
                     if skipSpace s \<noteq> [] \<or> \<not> maintenanceFieldsOk result then [] else result)))"

section \<open>Identities and frames\<close>

definition MaximumRouteArgumentLength :: nat where "MaximumRouteArgumentLength = 2048"
definition MaximumWireFrameSize :: nat where "MaximumWireFrameSize = 64 * 1024"
definition MaximumWatchTerminalReasonLength :: nat where "MaximumWatchTerminalReasonLength = 64"
definition MaximumWatchTerminalMessageLength :: nat where "MaximumWatchTerminalMessageLength = 1024"
definition MaximumProcessExitCode :: int where "MaximumProcessExitCode = 255"

definition normalizedExecutableIdentity :: "qt \<Rightarrow> operatorServices \<Rightarrow> string \<Rightarrow> string" where
  "normalizedExecutableIdentity Q S path =
     (let path = map (\<lambda>c. if c = CHR 0x5C then CHR ''/'' else c) path;
          path = o_cleanPath S (trimmed Q path) in
      if o_windows S then o_caseFolded S path else path)"

definition peerIdentityMatches :: "qt \<Rightarrow> operatorServices \<Rightarrow> string \<Rightarrow> string \<Rightarrow> string \<Rightarrow> string \<Rightarrow> bool" where
  "peerIdentityMatches Q S expectedUser expectedPath peerUser peerPath \<longleftrightarrow>
     expectedUser \<noteq> [] \<and> expectedUser = peerUser
     \<and> normalizedExecutableIdentity Q S expectedPath \<noteq> []
     \<and> normalizedExecutableIdentity Q S expectedPath = normalizedExecutableIdentity Q S peerPath"

definition scopedLocalServerName :: "qt \<Rightarrow> operatorServices \<Rightarrow> string \<Rightarrow> string \<Rightarrow> string \<Rightarrow> string" where
  "scopedLocalServerName Q S baseName userIdentity path =
     (if baseName = [] \<or> userIdentity = [] \<or> path = [] then []
      else baseName @ ''-'' @ take 32 (to_hex (q_sha256 Q
             (q_toUtf8 Q userIdentity @ [char_of (0::nat)] @ q_toUtf8 Q (normalizedExecutableIdentity Q S path)))))"

datatype WireFrameState = Incomplete | Complete | TooLarge

definition canProcessWireFrame :: "bool \<Rightarrow> bool \<Rightarrow> bool" where
  "canProcessWireFrame handled processing \<longleftrightarrow> \<not> handled \<and> \<not> processing"

definition wireFrameState :: "string \<Rightarrow> WireFrameState" where
  "wireFrameState buffer =
     (if MaximumWireFrameSize < length buffer then TooLarge
      else if newline \<in> set buffer then Complete
      else if length buffer = MaximumWireFrameSize then TooLarge else Incomplete)"

section \<open>Requests\<close>

datatype CommandType =
  NoCommand | Status | Disconnect | Doctor | RoutesExplain | Watch | MaintainAwgControls | Raise

fun commandName :: "CommandType \<Rightarrow> string" where
  "commandName Status = ''status''"
| "commandName Disconnect = ''disconnect''"
| "commandName Doctor = ''doctor''"
| "commandName RoutesExplain = ''routes-explain''"
| "commandName Watch = ''watch''"
| "commandName MaintainAwgControls = ''maintain-awg-controls''"
| "commandName Raise = ''raise''"
| "commandName NoCommand = ''none''"

definition commandType :: "string \<Rightarrow> CommandType" where
  "commandType name =
     (if name = ''status'' then Status
      else if name = ''disconnect'' then Disconnect
      else if name = ''doctor'' then Doctor
      else if name = ''routes-explain'' then RoutesExplain
      else if name = ''watch'' then Watch
      else if name = ''raise'' then Raise
      else NoCommand)"

record CommandRequest =
  rq_type :: CommandType
  rq_json :: bool
  rq_argument :: string

definition emptyRequest :: CommandRequest where
  "emptyRequest = \<lparr>rq_type = NoCommand, rq_json = False, rq_argument = []\<rparr>"

text \<open>The message of \<open>isValid\<close>; the request is valid when it is empty.\<close>

definition requestMessage :: "qt \<Rightarrow> operatorServices \<Rightarrow> CommandRequest \<Rightarrow> string" where
  "requestMessage Q S r =
     (if rq_type r = NoCommand then ''No operator command was specified.''
      else if rq_type r = RoutesExplain \<and> trimmed Q (rq_argument r) = []
      then ''--routes-explain requires a host name or IP address.''
      else if rq_type r = RoutesExplain \<and> MaximumRouteArgumentLength < length (rq_argument r)
      then ''--routes-explain argument is too long.''
      else if rq_type r = MaintainAwgControls \<and> parseAwgMaintenanceArgument Q S (rq_argument r) = []
      then ''--maintain-awg-controls requires an exact selected migration request.''
      else if rq_type r \<noteq> RoutesExplain \<and> rq_type r \<noteq> MaintainAwgControls \<and> rq_argument r \<noteq> []
      then ''The selected operator command does not accept an argument.''
      else [])"

definition requestToJson :: "CommandRequest \<Rightarrow> jobject" where
  "requestToJson r =
     (let object = obj_of [(''protocol'', jint 1), (''command'', JString (commandName (rq_type r))),
                           (''json'', JBool (rq_json r))] in
      if rq_argument r \<noteq> [] then obj_insert ''argument'' (JString (rq_argument r)) object else object)"

definition requestFromJson :: "qt \<Rightarrow> operatorServices \<Rightarrow> jobject \<Rightarrow> string + CommandRequest" where
  "requestFromJson Q S object =
     (let protocol = obj_value object ''protocol''; command = obj_value object ''command'';
          json = obj_value object ''json''; argument = obj_value object ''argument'' in
      if \<not> is_double protocol \<or> \<not> dbl_eq (to_double (dbl_int 0) protocol) (dbl_int 1)
      then Inl ''Unsupported operator command protocol version.''
      else if \<not> is_string command \<or> \<not> is_bool json \<or> \<not> is_undefined argument \<and> \<not> is_string argument
      then Inl ''Malformed operator command.''
      else (let parsed = \<lparr>rq_type = commandType (jstr command), rq_json = to_bool False json,
                          rq_argument = jstr argument\<rparr>;
                message = requestMessage Q S parsed in
            if message \<noteq> [] then Inl message else Inr parsed))"

section \<open>Responses\<close>

record CommandResponse =
  rs_exitCode :: int
  rs_human :: string
  rs_result :: jobject

definition responseToJson :: "CommandResponse \<Rightarrow> jobject" where
  "responseToJson r =
     obj_of [(''protocol'', jint 1), (''exitCode'', jint (rs_exitCode r)),
             (''human'', JString (rs_human r)), (''result'', JObject (rs_result r))]"

definition responseFromJson :: "jobject \<Rightarrow> string + CommandResponse" where
  "responseFromJson object =
     (let protocol = obj_value object ''protocol''; exitCode = obj_value object ''exitCode'';
          human = obj_value object ''human''; result = obj_value object ''result'';
          number = to_double (dbl_int (- 1)) exitCode;
          validExitCode = (is_double exitCode \<and> dbl_isfinite number \<and> dbl_eq (dbl_floor number) number
                           \<and> dbl_le (dbl_int 0) number \<and> dbl_le number (dbl_int MaximumProcessExitCode)) in
      if \<not> is_double protocol \<or> \<not> dbl_eq (to_double (dbl_int 0) protocol) (dbl_int 1)
      then Inl ''Unsupported operator response protocol version.''
      else if \<not> validExitCode \<or> \<not> is_string human \<or> \<not> is_object result
      then Inl ''Malformed operator response.''
      else Inr \<lparr>rs_exitCode = dbl_to_int number, rs_human = jstr human, rs_result = to_object result\<rparr>)"

section \<open>The program's arguments\<close>

record CommandParseResult =
  pr_hasOperatorArguments :: bool
  pr_valid :: bool
  pr_request :: CommandRequest
  pr_error :: string
  pr_conflicting :: "string list"
  pr_foreign :: bool

definition emptyParse :: CommandParseResult where
  "emptyParse = \<lparr>pr_hasOperatorArguments = False, pr_valid = False, pr_request = emptyRequest, pr_error = [],
                  pr_conflicting = [], pr_foreign = False\<rparr>"

definition setCommand :: "CommandType \<Rightarrow> CommandParseResult \<Rightarrow> CommandParseResult" where
  "setCommand type p =
     (let p = p\<lparr>pr_hasOperatorArguments := True\<rparr> in
      if rq_type (pr_request p) \<noteq> NoCommand
      then p\<lparr>pr_error := ''Only one operator command may be used at a time.''\<rparr>
      else p\<lparr>pr_request := (pr_request p)\<lparr>rq_type := type\<rparr>\<rparr>)"

definition setArgument :: "string \<Rightarrow> CommandParseResult \<Rightarrow> CommandParseResult" where
  "setArgument argument p = p\<lparr>pr_request := (pr_request p)\<lparr>rq_argument := argument\<rparr>\<rparr>"

definition knownStartupOptions :: "string list" where
  "knownStartupOptions =
     [''-a'', ''--autostart'', ''-c'', ''--cleanup'', ''--connect'', ''--import'',
      ''--publish-bundled-updates-once'', ''--help'', ''--version'']"

definition foreignArgument :: "string \<Rightarrow> CommandParseResult \<Rightarrow> CommandParseResult" where
  "foreignArgument argument p =
     (let p = p\<lparr>pr_foreign := True\<rparr>; optionName = takeWhile (\<lambda>c. c \<noteq> CHR ''='') argument in
      if starts_with ''-'' argument \<and> optionName \<in> set knownStartupOptions
         \<and> optionName \<notin> set (pr_conflicting p)
      then p\<lparr>pr_conflicting := pr_conflicting p @ [optionName]\<rparr> else p)"

text \<open>One pass of the loop over the arguments, given the next one; the flag tells that it was consumed.\<close>

definition parseStep :: "qt \<Rightarrow> string \<Rightarrow> string option \<Rightarrow> CommandParseResult \<Rightarrow> CommandParseResult \<times> bool" where
  "parseStep Q argument upcoming p =
     (if argument = ''--json''
      then (p\<lparr>pr_hasOperatorArguments := True, pr_request := (pr_request p)\<lparr>rq_json := True\<rparr>\<rparr>, False)
      else if argument = ''--status'' then (setCommand Status p, False)
      else if argument = ''--disconnect'' then (setCommand Disconnect p, False)
      else if argument = ''--doctor'' then (setCommand Doctor p, False)
      else if argument = ''--watch'' then (setCommand Watch p, False)
      else if argument = ''--maintain-awg-controls''
      then (let p = setCommand MaintainAwgControls p in
            case upcoming of
              None \<Rightarrow> (p\<lparr>pr_error := ''Missing maintenance request.''\<rparr>, False)
            | Some v \<Rightarrow> (setArgument v p, True))
      else if starts_with ''--maintain-awg-controls='' argument
      then (setArgument (drop (length ''--maintain-awg-controls='') argument) (setCommand MaintainAwgControls p), False)
      else if argument = ''--routes-explain''
      then (let p = setCommand RoutesExplain p in
            case upcoming of
              None \<Rightarrow> (p\<lparr>pr_error := ''--routes-explain requires a host name or IP address.''\<rparr>, False)
            | Some v \<Rightarrow>
                (let p = setArgument (trimmed Q v) p in
                 (if starts_with ''-'' (trimmed Q v)
                  then p\<lparr>pr_error := ''--routes-explain requires a host name or IP address.''\<rparr> else p, True)))
      else if starts_with ''--routes-explain='' argument
      then (setArgument (trimmed Q (drop (length ''--routes-explain='') argument)) (setCommand RoutesExplain p), False)
      else (foreignArgument argument p, False))"

fun parseLoop :: "qt \<Rightarrow> string list \<Rightarrow> CommandParseResult \<Rightarrow> CommandParseResult" where
  "parseLoop Q [] p = p"
| "parseLoop Q [a] p = fst (parseStep Q a None p)"
| "parseLoop Q (a # b # rest) p =
     (case parseStep Q a (Some b) p of
        (p', consumed) \<Rightarrow> if consumed then parseLoop Q rest p' else parseLoop Q (b # rest) p')"

definition conflictMessage :: "string list \<Rightarrow> string" where
  "conflictMessage options =
     (if options = [] then ''Operator commands cannot be combined with other startup arguments.''
      else ''Operator commands cannot be combined with: '' @ join '', '' options)"

definition looped :: "qt \<Rightarrow> operatorServices \<Rightarrow> string list \<Rightarrow> CommandParseResult" where
  "looped Q S argv = parseLoop Q (map (o_fromLocal8Bit S) (drop 1 argv)) emptyParse"

definition parseArguments :: "qt \<Rightarrow> operatorServices \<Rightarrow> string list \<Rightarrow> CommandParseResult" where
  "parseArguments Q S argv =
     (let p = looped Q S argv in
      if \<not> pr_hasOperatorArguments p then p
      else (let p = (if pr_foreign p \<and> pr_error p = []
                     then p\<lparr>pr_error := conflictMessage (pr_conflicting p)\<rparr> else p);
                p = (if pr_error p = [] then p\<lparr>pr_error := requestMessage Q S (pr_request p)\<rparr> else p) in
            p\<lparr>pr_valid := pr_error p = []\<rparr>))"

section \<open>The runtime answer about a route and the watch stream\<close>

record RouteRuntimeDecision =
  rd_runtimeApplied :: bool
  rd_inspectionBasis :: string
  rd_route :: string
  rd_warning :: string

definition unknownDecision :: "bool \<Rightarrow> string \<Rightarrow> RouteRuntimeDecision" where
  "unknownDecision applied warning =
     \<lparr>rd_runtimeApplied = applied,
      rd_inspectionBasis = (if applied then ''confirmedClientRouteSnapshot'' else ''policyPreview''),
      rd_route = ''unknown'', rd_warning = warning\<rparr>"

definition assessRouteRuntime ::
  "string \<Rightarrow> bool \<Rightarrow> bool \<Rightarrow> bool \<Rightarrow> bool \<Rightarrow> bool \<Rightarrow> bool \<Rightarrow> bool \<Rightarrow> bool \<Rightarrow> RouteRuntimeDecision" where
  "assessRouteRuntime policyRoute available linked confirmed literalTarget ipv6Target splitMode
     protectedTarget modeMatches =
     (if \<not> available then unknownDecision False ''runtime_snapshot_unavailable''
      else if \<not> linked then unknownDecision False ''vpn_not_connected''
      else if \<not> confirmed then unknownDecision False ''runtime_route_snapshot_unconfirmed''
      else if \<not> modeMatches then unknownDecision True ''runtime_policy_mode_diverged''
      else if \<not> literalTarget then unknownDecision True ''hostname_resolution_required''
      else if protectedTarget then unknownDecision True ''protected_route_requires_runtime_verification''
      else if ipv6Target then unknownDecision True ''ipv6_route_not_runtime_verified''
      else if splitMode then unknownDecision True ''split_route_not_os_verified''
      else if policyRoute \<noteq> ''vpn'' \<and> policyRoute \<noteq> ''direct''
      then unknownDecision True ''invalid_policy_route''
      else (unknownDecision True ''os_route_not_verified'')\<lparr>rd_route := policyRoute\<rparr>)"

definition frameOf :: "qt \<Rightarrow> jobject \<Rightarrow> string" where
  "frameOf Q object =
     (let frame = q_jsonText Q object @ [newline] in if wireFrameState frame = Complete then frame else [])"

definition watchSnapshotFrame :: "qt \<Rightarrow> jobject \<Rightarrow> int \<Rightarrow> 64 word \<Rightarrow> string \<Rightarrow> int \<Rightarrow> string" where
  "watchSnapshotFrame Q status statusExitCode sequence observedAt primaryPid =
     (if sequence = 0 \<or> observedAt = [] \<or> primaryPid \<le> 0
         \<or> jstr (obj_value status ''schema'') \<noteq> ''amnezia.operator.status.v1''
         \<or> statusExitCode < 0 \<or> MaximumProcessExitCode < statusExitCode
      then []
      else frameOf Q (obj_of
        [(''schema'', JString ''amnezia.operator.watch.v1''), (''event'', JString ''snapshot''),
         (''sequence'', JString (decimal (unat sequence))), (''observedAt'', JString observedAt),
         (''primaryPid'', jint primaryPid), (''statusExitCode'', jint statusExitCode),
         (''status'', JObject status)]))"

definition reasonChar :: "char \<Rightarrow> bool" where
  "reasonChar c \<longleftrightarrow> (let n = of_char c :: nat in 97 \<le> n \<and> n \<le> 122) \<or> is_ascii_digit c \<or> c = CHR ''_''"

definition watchTerminalFrame :: "qt \<Rightarrow> string \<Rightarrow> string \<Rightarrow> int \<Rightarrow> 64 word \<Rightarrow> string \<Rightarrow> int \<Rightarrow> string" where
  "watchTerminalFrame Q reason message exitCode lastSequence observedAt primaryPid =
     (if reason = [] \<or> MaximumWatchTerminalReasonLength < length reason
         \<or> MaximumWatchTerminalMessageLength < length message \<or> observedAt = []
         \<or> exitCode \<noteq> 4 \<and> exitCode \<noteq> 5 \<or> primaryPid = 0 \<or> \<not> list_all reasonChar reason
      then []
      else (let terminal = obj_of
              [(''schema'', JString ''amnezia.operator.watch.v1''), (''event'', JString ''terminal''),
               (''reason'', JString reason), (''message'', JString message),
               (''lastSequence'', JString (decimal (unat lastSequence))), (''observedAt'', JString observedAt),
               (''exitCode'', jint exitCode)] in
            frameOf Q (if 0 < primaryPid then obj_insert ''primaryPid'' (jint primaryPid) terminal else terminal)))"

section \<open>Laws of the wire form\<close>

lemma commandType_name: "type \<noteq> MaintainAwgControls \<Longrightarrow> commandType (commandName type) = type"
  by (cases type) (simp_all add: commandType_def)

lemma commandType_range: "commandType s \<noteq> MaintainAwgControls"
  by (simp add: commandType_def)

lemma requestToJson_values [simp]:
  "obj_value (requestToJson r) ''protocol'' = jint 1"
  "obj_value (requestToJson r) ''command'' = JString (commandName (rq_type r))"
  "obj_value (requestToJson r) ''json'' = JBool (rq_json r)"
  "obj_value (requestToJson r) ''argument'' = (if rq_argument r = [] then JUndefined else JString (rq_argument r))"
  by (simp_all add: requestToJson_def obj_of_def Let_def)

lemma requestFromJson_toJson:
  "requestFromJson Q S (requestToJson r) =
     (let parsed = r\<lparr>rq_type := commandType (commandName (rq_type r))\<rparr> in
      if requestMessage Q S parsed \<noteq> [] then Inl (requestMessage Q S parsed) else Inr parsed)"
  by (cases r; cases "rq_argument r = []")
    (simp_all add: requestFromJson_def Let_def is_undefined_def dbl_int_def)

lemma responseToJson_values [simp]:
  "obj_value (responseToJson r) ''protocol'' = jint 1"
  "obj_value (responseToJson r) ''exitCode'' = jint (rs_exitCode r)"
  "obj_value (responseToJson r) ''human'' = JString (rs_human r)"
  "obj_value (responseToJson r) ''result'' = JObject (rs_result r)"
  by (simp_all add: responseToJson_def obj_of_def)

lemma responseFromJson_toJson:
  "0 \<le> rs_exitCode r \<Longrightarrow> rs_exitCode r \<le> MaximumProcessExitCode \<Longrightarrow>
   responseFromJson (responseToJson r) = Inr r"
  by (cases r) (auto simp: responseFromJson_def Let_def dbl_int_def dbl_le_def)

lemma requestMessage_empty:
  "requestMessage Q S r = [] \<longleftrightarrow>
     (case rq_type r of
        NoCommand \<Rightarrow> False
      | RoutesExplain \<Rightarrow> trimmed Q (rq_argument r) \<noteq> [] \<and> length (rq_argument r) \<le> MaximumRouteArgumentLength
      | MaintainAwgControls \<Rightarrow> parseAwgMaintenanceArgument Q S (rq_argument r) \<noteq> []
      | _ \<Rightarrow> rq_argument r = [])"
  by (cases "rq_type r") (auto simp: requestMessage_def)

lemma requestFromJson_accepts:
  "requestFromJson Q S ob = Inr r \<Longrightarrow> requestMessage Q S r = [] \<and> rq_type r \<noteq> MaintainAwgControls"
  by (auto simp: requestFromJson_def Let_def commandType_range split: if_splits)

section \<open>Laws of the maintenance argument\<close>

definition memberOk :: "string \<Rightarrow> json \<Rightarrow> bool" where
  "memberOk key v \<longleftrightarrow>
     key \<in> set maintenanceKeys
     \<and> (if key = ''generation'' then \<exists>n. v = jint n \<and> 1 \<le> n \<and> n \<le> maxMaintenanceGeneration
        else \<exists>x. v = JString x)"

lemma readGeneration_bounds: "readGeneration S s = Some (n, r) \<Longrightarrow> 1 \<le> n \<and> n \<le> maxMaintenanceGeneration"
  by (auto simp: readGeneration_def Let_def split: option.splits if_splits)

lemma readMember_ok:
  assumes "readMember Q S ob s = Some (ob', s')"
  obtains key v where "ob' = obj_insert key v ob" "memberOk key v" "\<not> obj_contains ob key" "v \<noteq> JUndefined"
  using assms
proof (rule readMember_cases)
  fix key s1 s2 v s3
  assume a: "\<not> obj_contains ob key" "key \<in> set maintenanceKeys" "ob' = obj_insert key v ob"
    "key = ''generation'' \<and> (\<exists>n. v = jint n \<and> readGeneration S (skipSpace s2) = Some (n, s3))
     \<or> key \<noteq> ''generation'' \<and> (\<exists>x. v = JString x \<and> readString Q (skipSpace s2) = Some (x, s3))"
  from a(4) have "memberOk key v \<and> v \<noteq> JUndefined"
    using a(2) by (auto simp: memberOk_def dest!: readGeneration_bounds)
  with a show thesis using that by blast
qed

definition maintenanceWf :: "jobject \<Rightarrow> bool" where
  "maintenanceWf ob \<longleftrightarrow> wf_obj ob \<and> (\<forall>(k, v) \<in> set ob. memberOk k v)"

lemma readMember_keeps: "readMember Q S ob s = Some (ob', s') \<Longrightarrow> maintenanceWf ob \<Longrightarrow> maintenanceWf ob'"
proof (erule readMember_ok)
  fix key v
  assume a: "ob' = obj_insert key v ob" "memberOk key v" "v \<noteq> JUndefined" "maintenanceWf ob"
  then have "set ob' \<subseteq> insert (key, v) (set ob)" by (simp add: obj_insert_def set_obj_put)
  with a wf_obj_insert [of ob key v] show ?thesis by (auto simp: maintenanceWf_def)
qed

lemma readMembers_keeps:
  "readMembers Q S ob s = Some (ob', s') \<Longrightarrow> maintenanceWf ob \<Longrightarrow> maintenanceWf ob'"
proof (induction Q S ob s arbitrary: ob' s' rule: readMembers.induct)
  case (1 Q S ob s)
  from 1(2) obtain ob1 c rest where m: "readMember Q S ob s = Some (ob1, c # rest)"
    and c: "c = CHR ''}'' \<and> ob' = ob1 \<or> c = CHR '','' \<and> readMembers Q S ob1 rest = Some (ob', s')"
    by (subst (asm) readMembers.simps) (auto split: option.splits list.splits if_splits)
  have "maintenanceWf ob1" using readMember_keeps [OF m 1(3)] .
  then show ?case using c 1(1) [OF m refl refl] by auto
qed

lemma maintenanceWf_keys:
  assumes "maintenanceWf ob" "length ob = 4"
  shows "obj_keys ob = [''expectedJournalSha256'', ''generation'', ''serverId'', ''source'']"
proof -
  let ?ks = "[''expectedJournalSha256'', ''generation'', ''serverId'', ''source'']"
  have s: "sorted (map fst ob) \<and> distinct (map fst ob)"
    using assms by (simp add: maintenanceWf_def wf_obj_def strict_sorted_iff)
  have sub: "set (map fst ob) \<subseteq> set ?ks"
    using assms by (auto simp: maintenanceWf_def memberOk_def maintenanceKeys_def)
  have "card (set (map fst ob)) = 4" using s assms(2) distinct_card by fastforce
  then have "set (map fst ob) = set ?ks"
    using sub by (intro card_seteq) auto
  moreover have "sorted ?ks \<and> distinct ?ks" by code_simp
  ultimately show ?thesis unfolding obj_keys_def using s by (blast intro: sorted_distinct_set_unique)
qed

lemma maintenanceWf_value:
  "maintenanceWf ob \<Longrightarrow> k \<in> set (obj_keys ob) \<Longrightarrow> memberOk k (obj_value ob k)"
proof -
  assume a: "maintenanceWf ob" "k \<in> set (obj_keys ob)"
  then obtain v where "map_of ob k = Some v" "(k, v) \<in> set ob"
    by (metis map_of_SomeD map_of_eq_None_iff not_None_eq obj_keys_def set_map)
  then show ?thesis using a(1) by (auto simp: maintenanceWf_def obj_value_def)
qed

lemma parseAwgMaintenanceArgument_cases:
  assumes "parseAwgMaintenanceArgument Q S input \<noteq> []"
  obtains "input \<noteq> []" "length input \<le> 4096"
    "maintenanceWf (parseAwgMaintenanceArgument Q S input)"
    "maintenanceFieldsOk (parseAwgMaintenanceArgument Q S input)"
proof -
  obtain s s' where "input \<noteq> []" "length input \<le> 4096"
    "readMembers Q S [] s = Some (parseAwgMaintenanceArgument Q S input, s')"
    "maintenanceFieldsOk (parseAwgMaintenanceArgument Q S input)"
    using assms by (auto simp: parseAwgMaintenanceArgument_def split: if_splits option.splits)
  then show thesis using that readMembers_keeps [of Q S "[]" s] by (auto simp: maintenanceWf_def)
qed

section \<open>Laws of the argument loop\<close>

definition fixedMessages :: "string list" where
  "fixedMessages =
     [[], ''Only one operator command may be used at a time.'', ''Missing maintenance request.'',
      ''--routes-explain requires a host name or IP address.'',
      ''Operator commands cannot be combined with other startup arguments.'',
      ''No operator command was specified.'', ''--routes-explain argument is too long.'',
      ''--maintain-awg-controls requires an exact selected migration request.'',
      ''The selected operator command does not accept an argument.'']"

definition parseWf :: "CommandParseResult \<Rightarrow> bool" where
  "parseWf p \<longleftrightarrow> pr_error p \<in> set fixedMessages \<and> distinct (pr_conflicting p)
     \<and> set (pr_conflicting p) \<subseteq> set knownStartupOptions \<and> rq_type (pr_request p) \<noteq> Raise
     \<and> (rq_type (pr_request p) = NoCommand \<or> pr_hasOperatorArguments p)"

lemma requestMessage_fixed: "requestMessage Q S r \<in> set fixedMessages"
  by (simp add: requestMessage_def fixedMessages_def)

lemma parseWf_setCommand: "type \<noteq> Raise \<Longrightarrow> parseWf p \<Longrightarrow> parseWf (setCommand type p)"
  by (auto simp: parseWf_def setCommand_def Let_def fixedMessages_def)

lemma parseWf_setArgument: "parseWf (setArgument a p) = parseWf p"
  by (simp add: parseWf_def setArgument_def)

lemma parseWf_error: "e \<in> set fixedMessages \<Longrightarrow> parseWf p \<Longrightarrow> parseWf (p\<lparr>pr_error := e\<rparr>)"
  by (simp add: parseWf_def)

lemma parseWf_foreign: "parseWf p \<Longrightarrow> parseWf (foreignArgument a p)"
  by (auto simp: parseWf_def foreignArgument_def Let_def)

lemma loop_messages:
  "''Missing maintenance request.'' \<in> set fixedMessages"
  "''--routes-explain requires a host name or IP address.'' \<in> set fixedMessages"
  by (simp_all add: fixedMessages_def)

lemma parseWf_step: "parseWf p \<Longrightarrow> parseWf (fst (parseStep Q a nx p))"
proof -
  assume wf: "parseWf p"
  have json: "parseWf (p\<lparr>pr_hasOperatorArguments := True, pr_request := (pr_request p)\<lparr>rq_json := True\<rparr>\<rparr>)"
    using wf by (simp add: parseWf_def)
  show ?thesis
    unfolding parseStep_def
    by (cases nx) (simp_all add: Let_def json wf parseWf_setCommand parseWf_setArgument parseWf_foreign
        parseWf_error loop_messages)
qed

lemma parseWf_loop: "parseWf p \<Longrightarrow> parseWf (parseLoop Q args p)"
proof (induction Q args p rule: parseLoop.induct)
  case (3 Q a b rest p)
  obtain p' consumed where s: "parseStep Q a (Some b) p = (p', consumed)" by fastforce
  then have "parseWf p'" using parseWf_step [OF 3(3), of Q a "Some b"] by simp
  then show ?case using 3(1,2) s by simp
qed (simp_all add: parseWf_step)

lemma parseWf_emptyParse: "parseWf emptyParse"
  by (simp add: parseWf_def emptyParse_def emptyRequest_def fixedMessages_def)

lemma conflictMessage_fixed: "conflictMessage [] \<in> set fixedMessages"
  by (simp add: conflictMessage_def fixedMessages_def)

lemma looped_wf: "parseWf (looped Q S argv)"
  by (simp add: looped_def parseWf_loop parseWf_emptyParse)

lemma parseArguments_error:
  "pr_error (parseArguments Q S argv) \<in> set fixedMessages
   \<or> pr_error (parseArguments Q S argv) = conflictMessage (pr_conflicting (looped Q S argv))"
  using looped_wf [of Q S argv] requestMessage_fixed
  by (auto simp: parseArguments_def Let_def parseWf_def)

lemma conflictMessage_not_Nil: "conflictMessage os \<noteq> []"
  by (simp add: conflictMessage_def)

lemma parseArguments_valid:
  "pr_valid (parseArguments Q S argv) \<longleftrightarrow>
     pr_hasOperatorArguments (looped Q S argv) \<and> pr_error (looped Q S argv) = []
     \<and> \<not> pr_foreign (looped Q S argv) \<and> requestMessage Q S (pr_request (looped Q S argv)) = []"
proof -
  have "pr_valid (parseLoop Q as p) = pr_valid p" for as p
  proof (induction Q as p rule: parseLoop.induct)
    case (3 Q a b rest p)
    then show ?case
      by (cases "parseStep Q a (Some b) p")
        (auto simp: parseStep_def setCommand_def setArgument_def foreignArgument_def Let_def split: if_splits)
  qed (auto simp: parseStep_def setCommand_def setArgument_def foreignArgument_def Let_def)
  then have "\<not> pr_valid (looped Q S argv)" by (simp add: looped_def emptyParse_def)
  then show ?thesis
    by (auto simp: parseArguments_def Let_def conflictMessage_not_Nil)
qed

lemma parseArguments_request: "pr_request (parseArguments Q S argv) = pr_request (looped Q S argv)"
  by (simp add: parseArguments_def Let_def)

section \<open>The number of passes of the maintenance parser\<close>

text \<open>The same loop run for at most \<open>n\<close> passes; \<open>None\<close> tells that they did not suffice.\<close>

fun readMembersIn :: "nat \<Rightarrow> qt \<Rightarrow> operatorServices \<Rightarrow> jobject \<Rightarrow> string \<Rightarrow> (jobject \<times> string) option option" where
  "readMembersIn 0 Q S ob s = None"
| "readMembersIn (Suc n) Q S ob s =
     (case readMember Q S ob s of
        None \<Rightarrow> Some None
      | Some (ob', s') \<Rightarrow>
          (case s' of
             [] \<Rightarrow> Some None
           | c # rest \<Rightarrow>
               if c = CHR ''}'' then Some (Some (ob', rest))
               else if c \<noteq> CHR '','' then Some None else readMembersIn n Q S ob' rest))"

lemma length_obj_put: "k \<notin> fst ` set ob \<Longrightarrow> length (obj_put k v ob) = Suc (length ob)"
  by (induction k v ob rule: obj_put.induct) auto

lemma readMember_grows:
  "readMember Q S ob s = Some (ob', s') \<Longrightarrow> length ob' = Suc (length ob)"
  by (erule readMember_ok)
    (simp add: obj_insert_def obj_contains_def length_obj_put map_of_eq_None_iff [symmetric])

lemma maintenanceWf_length: "maintenanceWf ob \<Longrightarrow> length ob \<le> 4"
proof -
  assume wf: "maintenanceWf ob"
  then have "distinct (map fst ob)" by (simp add: maintenanceWf_def wf_obj_def strict_sorted_iff)
  then have "length ob = card (set (map fst ob))" by (metis distinct_card length_map)
  also have "\<dots> \<le> card (set maintenanceKeys)"
    using wf by (intro card_mono) (auto simp: maintenanceWf_def memberOk_def)
  also have "\<dots> \<le> 4" by (rule order_trans [OF card_length]) (simp add: maintenanceKeys_def)
  finally show ?thesis .
qed

lemma readMembersIn_enough:
  "maintenanceWf ob \<Longrightarrow> 5 \<le> n + length ob \<Longrightarrow> readMembersIn n Q S ob s = Some (readMembers Q S ob s)"
proof (induction n Q S ob s rule: readMembersIn.induct)
  case (1 Q S ob s)
  then show ?case using maintenanceWf_length [of ob] by simp
next
  case (2 n Q S ob s)
  show ?case
  proof (cases "readMember Q S ob s")
    case None
    then show ?thesis by (subst readMembers.simps) simp
  next
    case (Some r)
    obtain ob' s' where r: "readMember Q S ob s = Some (ob', s')" using Some by (cases r) auto
    have "maintenanceWf ob'" "5 \<le> n + length ob'"
      using readMember_keeps [OF r 2(2)] readMember_grows [OF r] 2(3) by simp_all
    then have "readMembersIn n Q S ob' rest = Some (readMembers Q S ob' rest)" if "s' = CHR '','' # rest" for rest
      using 2(1) [OF r refl that] by simp
    then show ?thesis using r by (subst readMembers.simps) (auto split: list.splits)
  qed
qed

section \<open>Watch frames\<close>

text \<open>Compact JSON is one line: control characters inside its strings are written as escapes.\<close>

definition qt_compact_ok :: "qt \<Rightarrow> bool" where
  "qt_compact_ok Q \<longleftrightarrow> (\<forall>ob. newline \<notin> set (q_jsonText Q ob))"

lemma frameOf_cases:
  "frameOf Q ob = [] \<or> frameOf Q ob = q_jsonText Q ob @ [newline] \<and> length (frameOf Q ob) \<le> MaximumWireFrameSize
     \<and> wireFrameState (frameOf Q ob) = Complete"
  by (auto simp: frameOf_def Let_def wireFrameState_def)

text \<open>
  Every frame of the watch stream is one line that the receiver takes as complete: it is at most 64 KiB
  long and ends with its only newline.
\<close>

lemma watch_frames_are_lines:
  assumes "qt_compact_ok Q"
    and "frame = watchSnapshotFrame Q status code sequence observedAt pid
         \<or> frame = watchTerminalFrame Q reason message code sequence observedAt pid"
    and "frame \<noteq> []"
  shows "wireFrameState frame = Complete \<and> length frame \<le> 65536 \<and> last frame = newline
         \<and> newline \<notin> set (butlast frame)"
proof -
  obtain ob where "frame = frameOf Q ob"
    using assms(2,3) by (auto simp: watchSnapshotFrame_def watchTerminalFrame_def Let_def split: if_splits)
  then show ?thesis
    using frameOf_cases [of Q ob] assms(1,3)
    by (auto simp: qt_compact_ok_def MaximumWireFrameSize_def)
qed

section \<open>A concrete environment\<close>

text \<open>
  The services of a Unix host, and a reader of one-string arrays without escape sequences for the
  decoder of the JSON tokens.
\<close>

definition operator_ref :: operatorServices where
  "operator_ref = \<lparr>o_windows = False, o_cleanPath = id, o_caseFolded = id,
                   o_toLongLong = parse_unsigned (2 ^ 63), o_fromLocal8Bit = id\<rparr>"

definition qt_tokens :: qt where
  "qt_tokens = qt_ref\<lparr>q_jsonParse := (\<lambda>s. Some (JArray [JString (butlast (butlast (drop 2 s)))]))\<rparr>"

definition sampleDigest :: string where "sampleDigest = replicate 64 (CHR ''a'')"

definition sampleArgument :: string where
  "sampleArgument = ''{'' @ quoted ''serverId'' @ '':'' @ quoted ''s-1'' @ '', '' @ quoted ''source'' @ '':''
     @ quoted ''amnezia-awg2'' @ '','' @ quoted ''generation'' @ '':17,'' @ quoted ''expectedJournalSha256''
     @ '':'' @ quoted sampleDigest @ ''}''"

lemma readString_plain:
  "list_all (\<lambda>c. c \<noteq> CHR ''\"'' \<and> c \<noteq> CHR 0x5C) xs \<Longrightarrow>
   readString qt_tokens (quoted xs @ rest) = Some (xs, rest)"
  by (simp add: readString_def quoted_def scanString_plain decodeToken_def qt_tokens_def butlast_append)

lemma skipSpace_simps [simp]:
  "skipSpace (CHR '' '' # s) = skipSpace s" "skipSpace [] = []" "skipSpace (quoted xs @ s) = quoted xs @ s"
  "skipSpace (CHR '':'' # s) = CHR '':'' # s" "skipSpace (CHR '','' # s) = CHR '','' # s"
  "skipSpace (CHR ''{'' # s) = CHR ''{'' # s" "skipSpace (CHR ''}'' # s) = CHR ''}'' # s"
  "is_ascii_digit c \<Longrightarrow> skipSpace (c # s) = c # s"
  by (auto simp: skipSpace_def isJsonSpace_def quoted_def newline_def is_ascii_digit_def)

lemma readMember_text:
  assumes "list_all (\<lambda>c. c \<noteq> CHR ''\"'' \<and> c \<noteq> CHR 0x5C) k" "list_all (\<lambda>c. c \<noteq> CHR ''\"'' \<and> c \<noteq> CHR 0x5C) v"
    "\<not> obj_contains ob k" "k \<in> set maintenanceKeys" "k \<noteq> ''generation''"
  shows "readMember qt_tokens S ob (quoted k @ CHR '':'' # quoted v @ rest) =
           Some (obj_insert k (JString v) ob, skipSpace rest)"
  using assms by (simp add: readMember_def readString_plain readChar_def)

lemma readMembers_simps:
  "readMember Q S ob s = Some (ob', CHR '','' # rest) \<Longrightarrow> readMembers Q S ob s = readMembers Q S ob' (rest)"
  "readMember Q S ob s = Some (ob', CHR ''}'' # rest) \<Longrightarrow> readMembers Q S ob s = Some (ob', rest)"
  by (subst readMembers.simps, simp)+

lemma decimal_17: "decimal 17 = ''17''"
  by code_simp

lemma readMember_number:
  "readMember qt_tokens operator_ref ob (quoted ''generation'' @ '':17,'' @ rest) =
     (if obj_contains ob ''generation'' then None
      else Some (obj_insert ''generation'' (jint 17) ob, CHR '','' # rest))"
proof -
  have "readGeneration operator_ref (''17,'' @ rest) = Some (17, CHR '','' # rest)"
    by (simp add: readGeneration_def operator_ref_def parse_unsigned_def undecimal_def is_ascii_digit_def
        digit_value_def digit_char_def maxMaintenanceGeneration_def decimal_17)
  moreover have "skipSpace (''17,'' @ rest) = ''17,'' @ rest" by (simp add: is_ascii_digit_def)
  ultimately show ?thesis
    by (simp add: readMember_def readString_plain readChar_def maintenanceKeys_def)
qed

lemma readMember_space: "readMember Q S ob (CHR '' '' # s) = readMember Q S ob s"
  by (simp add: readMember_def)

lemma sampleMembers_read:
  "readMembers qt_tokens operator_ref [] (tl sampleArgument) =
     Some ([(''expectedJournalSha256'', JString sampleDigest), (''generation'', jint 17),
            (''serverId'', JString ''s-1''), (''source'', JString ''amnezia-awg2'')], [])"
proof -
  note [simp] = readMember_space readMember_number readMember_text maintenanceKeys_def
  let ?digest = "quoted ''expectedJournalSha256'' @ '':'' @ quoted sampleDigest @ ''}''"
  let ?gen = "quoted ''generation'' @ '':17,'' @ ?digest"
  let ?source = "quoted ''source'' @ '':'' @ quoted ''amnezia-awg2'' @ '','' @ ?gen"
  let ?ob1 = "obj_insert ''serverId'' (JString ''s-1'') []"
  let ?ob2 = "obj_insert ''source'' (JString ''amnezia-awg2'') ?ob1"
  let ?ob3 = "obj_insert ''generation'' (jint 17) ?ob2"
  have d: "list_all (\<lambda>c. c \<noteq> CHR ''\"'' \<and> c \<noteq> CHR 0x5C) sampleDigest" by (simp add: sampleDigest_def list_all_iff)
  have "readMembers qt_tokens operator_ref [] (tl sampleArgument)
        = readMembers qt_tokens operator_ref ?ob1 (CHR '' '' # ?source)"
    by (rule readMembers_simps(1)) (simp add: sampleArgument_def)
  also have "\<dots> = readMembers qt_tokens operator_ref ?ob2 ?gen"
    by (rule readMembers_simps(1)) simp
  also have "\<dots> = readMembers qt_tokens operator_ref ?ob3 ?digest"
    by (rule readMembers_simps(1)) (simp only: readMember_number, simp)
  also have "\<dots> = Some (obj_insert ''expectedJournalSha256'' (JString sampleDigest) ?ob3, [])"
    by (rule readMembers_simps(2)) (simp add: d)
  also have "obj_insert ''expectedJournalSha256'' (JString sampleDigest) ?ob3 =
      [(''expectedJournalSha256'', JString sampleDigest), (''generation'', jint 17),
            (''serverId'', JString ''s-1''), (''source'', JString ''amnezia-awg2'')]"
    by (simp add: obj_insert_def)
  finally show ?thesis .
qed

lemma sampleArgument_parses:
  "parseAwgMaintenanceArgument qt_tokens operator_ref sampleArgument =
     [(''expectedJournalSha256'', JString sampleDigest), (''generation'', jint 17),
      (''serverId'', JString ''s-1''), (''source'', JString ''amnezia-awg2'')]"
proof -
  have "readChar (CHR ''{'') (skipSpace sampleArgument) = Some (tl sampleArgument)"
       "sampleArgument \<noteq> []" "length sampleArgument \<le> 4096"
    by (simp_all add: sampleArgument_def readChar_def quoted_def sampleDigest_def)
  then show ?thesis
    by (simp add: parseAwgMaintenanceArgument_def sampleMembers_read maintenanceFieldsOk_def obj_value_def
        matchesHex64_def sampleDigest_def list_all_iff is_lower_hex_def)
qed

text \<open>A command line that is accepted asks for one public command, with a valid request and nothing else.\<close>

lemma parseArguments_accepts:
  assumes "pr_valid (parseArguments Q S argv)"
  shows "requestMessage Q S (pr_request (parseArguments Q S argv)) = []
    \<and> rq_type (pr_request (parseArguments Q S argv)) \<notin> {NoCommand, Raise} \<and> \<not> pr_foreign (looped Q S argv)"
  using assms looped_wf [of Q S argv]
  by (auto simp: parseArguments_valid parseArguments_request parseWf_def requestMessage_empty)

text \<open>A route is stated only for a literal IPv4 target outside split mode on a confirmed snapshot.\<close>

lemma assessRouteRuntime_definitive:
  "rd_route (assessRouteRuntime route available linked confirmed literal ipv6 split protected matches) \<noteq> ''unknown''
   \<longleftrightarrow> available \<and> linked \<and> confirmed \<and> matches \<and> literal \<and> \<not> protected \<and> \<not> ipv6 \<and> \<not> split
       \<and> route \<in> {''vpn'', ''direct''}"
  by (auto simp: assessRouteRuntime_def unknownDecision_def)

text \<open>The digest test admits a text that is not a digest: 64 digits and a line break.\<close>

lemma maintenance_digest_newline:
  "maintenanceFieldsOk
     [(''expectedJournalSha256'', JString (sampleDigest @ [newline])), (''generation'', jint 17),
      (''serverId'', JString ''s-1''), (''source'', JString ''amnezia-awg2'')]
   \<and> length (sampleDigest @ [newline]) = 65"
  by (simp add: maintenanceFieldsOk_def obj_value_def matchesHex64_def sampleDigest_def list_all_iff is_lower_hex_def)

section \<open>Properties\<close>

text \<open>
  The wire form of operator commands loses nothing. A valid request other than the maintenance
  command, and a response whose exit code is a process exit code, are read back exactly as they were
  written.
\<close>

theorem operator_wire_roundtrip:
  assumes "requestMessage Q S r = []" "rq_type r \<noteq> MaintainAwgControls"
    and "0 \<le> rs_exitCode p" "rs_exitCode p \<le> MaximumProcessExitCode"
  shows "requestFromJson Q S (requestToJson r) = Inr r \<and> responseFromJson (responseToJson p) = Inr p"
  using assms by (simp add: requestFromJson_toJson commandType_name responseFromJson_toJson)

theorem operator_wire_roundtrip_witness:
  "requestFromJson qt_ref operator_ref
     (requestToJson \<lparr>rq_type = RoutesExplain, rq_json = True, rq_argument = ''a.b''\<rparr>)
     = Inr \<lparr>rq_type = RoutesExplain, rq_json = True, rq_argument = ''a.b''\<rparr>
   \<and> responseFromJson (responseToJson \<lparr>rs_exitCode = 255, rs_human = ''ok'', rs_result = []\<rparr>)
     = Inr \<lparr>rs_exitCode = 255, rs_human = ''ok'', rs_result = []\<rparr>"
  by (rule operator_wire_roundtrip)
    (simp_all add: requestMessage_empty trimmed_def trim_where_def ascii_space_code MaximumRouteArgumentLength_def
      MaximumProcessExitCode_def)

text \<open>
  C15. Whatever object a peer sends, the request accepted from it is a valid one: its command is known,
  a route question has a visible target of at most 2048 characters and every other command has no
  argument. The maintenance command can never be requested over the wire: sending it is an error.
\<close>

theorem wire_requests_safe:
  assumes "requestFromJson Q S ob = Inr r" and "rq_type m = MaintainAwgControls"
  shows "rq_type r \<noteq> MaintainAwgControls \<and> rq_type r \<noteq> NoCommand
    \<and> (if rq_type r = RoutesExplain
       then trimmed Q (rq_argument r) \<noteq> [] \<and> length (rq_argument r) \<le> MaximumRouteArgumentLength
       else rq_argument r = [])
    \<and> requestFromJson Q S (requestToJson m) = Inl ''No operator command was specified.''"
proof -
  have "requestMessage Q S r = []" "rq_type r \<noteq> MaintainAwgControls"
    using requestFromJson_accepts [OF assms(1)] by simp_all
  then have "rq_type r \<noteq> NoCommand \<and> (if rq_type r = RoutesExplain
       then trimmed Q (rq_argument r) \<noteq> [] \<and> length (rq_argument r) \<le> MaximumRouteArgumentLength
       else rq_argument r = [])"
    by (cases "rq_type r") (auto simp: requestMessage_empty)
  moreover have "commandType (commandName (rq_type m)) = NoCommand"
    using assms(2) by (simp add: commandType_def)
  ultimately show ?thesis
    using \<open>rq_type r \<noteq> MaintainAwgControls\<close> by (simp add: requestFromJson_toJson requestMessage_def)
qed

theorem wire_requests_safe_witness:
  "rq_argument \<lparr>rq_type = Watch, rq_json = True, rq_argument = []\<rparr> = []
   \<and> requestFromJson qt_ref operator_ref
       (requestToJson \<lparr>rq_type = MaintainAwgControls, rq_json = True, rq_argument = ''{}''\<rparr>)
     = Inl ''No operator command was specified.''"
proof -
  have "requestFromJson qt_ref operator_ref (requestToJson \<lparr>rq_type = Watch, rq_json = True, rq_argument = []\<rparr>)
      = Inr \<lparr>rq_type = Watch, rq_json = True, rq_argument = []\<rparr>"
    by (simp add: requestFromJson_toJson requestMessage_def commandType_def)
  from wire_requests_safe [OF this, of "\<lparr>rq_type = MaintainAwgControls, rq_json = True, rq_argument = ''{}''\<rparr>"]
  show ?thesis by simp
qed

text \<open>
  C38. Error messages about the command line do not leak what it contains. Whatever the arguments are, the
  message is one of nine fixed texts or the fixed prefix followed by names of known startup options,
  each at most once.
\<close>

theorem parse_error_private:
  "pr_error (parseArguments Q S argv) \<in> set fixedMessages
   \<or> (\<exists>opts. distinct opts \<and> set opts \<subseteq> set knownStartupOptions
        \<and> pr_error (parseArguments Q S argv) = ''Operator commands cannot be combined with: '' @ join '', '' opts)"
proof (cases "pr_conflicting (looped Q S argv) = []")
  case True
  then show ?thesis using parseArguments_error [of Q S argv] conflictMessage_fixed by auto
next
  case False
  then show ?thesis
    using parseArguments_error [of Q S argv] looped_wf [of Q S argv]
    by (auto simp: conflictMessage_def parseWf_def)
qed

text \<open>
  A maintenance argument that is accepted has exactly the four members of the request, with the
  types and ranges the command needs: a server id of 1 to 256 characters without control characters, one
  of the two sources, a generation that a JSON number represents exactly, and a journal digest.
\<close>

theorem maintenance_argument_sound:
  assumes "parseAwgMaintenanceArgument Q S input = ob" "ob \<noteq> []"
  shows "length input \<le> 4096
    \<and> obj_keys ob = [''expectedJournalSha256'', ''generation'', ''serverId'', ''source'']
    \<and> (\<exists>n. obj_value ob ''generation'' = jint n \<and> 1 \<le> n \<and> n < 2 ^ 53)
    \<and> (\<exists>x. obj_value ob ''serverId'' = JString x \<and> x \<noteq> [] \<and> length x \<le> 256
         \<and> list_all (\<lambda>c. 32 \<le> (of_char c :: nat)) x)
    \<and> obj_value ob ''source'' \<in> {JString ''amnezia-awg'', JString ''amnezia-awg2''}
    \<and> (\<exists>d. obj_value ob ''expectedJournalSha256'' = JString d \<and> matchesHex64 d)"
proof -
  have f: "length input \<le> 4096" "maintenanceWf ob" "maintenanceFieldsOk ob"
    using assms parseAwgMaintenanceArgument_cases [of Q S input] by metis+
  then have k: "obj_keys ob = [''expectedJournalSha256'', ''generation'', ''serverId'', ''source'']"
    by (intro maintenanceWf_keys) (simp_all add: maintenanceFieldsOk_def Let_def)
  have m: "memberOk k (obj_value ob k)" if "k \<in> set (obj_keys ob)" for k
    using maintenanceWf_value [OF f(2) that] .
  have "\<exists>x. obj_value ob ''serverId'' = JString x" "\<exists>x. obj_value ob ''source'' = JString x"
    "\<exists>x. obj_value ob ''expectedJournalSha256'' = JString x"
    using m [of "''serverId''"] m [of "''source''"] m [of "''expectedJournalSha256''"]
    by (simp_all add: k memberOk_def)
  moreover have "\<exists>n. obj_value ob ''generation'' = jint n \<and> 1 \<le> n \<and> n < 2 ^ 53"
    using m [of "''generation''"] by (force simp: k memberOk_def maxMaintenanceGeneration_def)
  ultimately show ?thesis
    using f k by (auto simp: maintenanceFieldsOk_def Let_def list_ex_iff list_all_iff not_less)
qed

theorem maintenance_argument_sound_witness:
  "length sampleArgument \<le> 4096
   \<and> (\<exists>n. obj_value (parseAwgMaintenanceArgument qt_tokens operator_ref sampleArgument) ''generation'' = jint n
        \<and> 1 \<le> n \<and> n < 2 ^ 53)"
  using maintenance_argument_sound [OF sampleArgument_parses] sampleArgument_parses by simp

text \<open>
  C39. The unbounded loop of the maintenance parser ends after at most five passes on every input: each
  pass that continues has read a member the object did not have, and only four names are admitted.
\<close>

theorem maintenance_parser_terminates:
  "readMembersIn 5 Q S [] s = Some (readMembers Q S [] s)"
  by (rule readMembersIn_enough) (simp_all add: maintenanceWf_def)

end
