(* ===== verification/Native_Session.thy ===== *)
theory Native_Session
  imports Json_Scanner "HOL-Library.Monad_Syntax"
begin

text \<open>
  Restoring a session that the native service kept (\<open>core/utils/nativeSessionRestore.h\<close>): the ordering
  ticket of observations, the strict decoder of the service's snapshot, its comparison with the stored
  configuration and the pending request that one matching snapshot may consume. The text decoder, the
  surrogate scan, base64 and the unsigned parser are the fields of \<open>nativeServices\<close>. Each atomic variable
  or locked method is one step of the model.
\<close>

record nativeServices =
  n_utf8Ok :: "string \<Rightarrow> bool"
  n_wellPaired :: "string \<Rightarrow> bool"
  n_fromBase64 :: "string \<Rightarrow> string"
  n_toBase64 :: "string \<Rightarrow> string"
  n_toUInt :: "string \<Rightarrow> nat option"

section \<open>The ordering ticket\<close>

record Ingress =
  in_version :: "64 word"
  in_observation :: "64 word"

definition ingress0 :: Ingress where "ingress0 = \<lparr>in_version = 1, in_observation = 0\<rparr>"

definition observe :: "Ingress \<Rightarrow> Ingress \<times> 64 word" where
  "observe i =
     (let ticket = in_version i in
      (if in_observation i < ticket then i\<lparr>in_observation := ticket\<rparr> else i, ticket))"

definition observed :: "64 word \<Rightarrow> Ingress \<Rightarrow> bool" where
  "observed ticket i \<longleftrightarrow> ticket \<noteq> 0 \<and> ticket = in_observation i \<and> ticket = in_version i"

definition invalidateIngress :: "Ingress \<Rightarrow> Ingress" where
  "invalidateIngress i = i\<lparr>in_version := in_version i + 1\<rparr>"

section \<open>Fields\<close>

definition uuidChar :: "nat \<Rightarrow> char \<Rightarrow> bool" where
  "uuidChar i c \<longleftrightarrow> (if i \<in> {8, 13, 18, 23} then c = CHR ''-'' else is_lower_hex c)"

definition uuid :: "string \<Rightarrow> bool" where
  "uuid s \<longleftrightarrow> length s = 36 \<and> list_all (\<lambda>(i, c). uuidChar i c) (zip [0..<36] s)"

definition decimalText :: "qt \<Rightarrow> string \<Rightarrow> bool" where
  "decimalText Q s \<longleftrightarrow>
     s \<noteq> [] \<and> length s \<le> 19 \<and> is_ascii_digit (hd s) \<and> hd s \<noteq> CHR ''0'' \<and> list_all is_ascii_digit s
     \<and> (case q_toULongLong Q s of None \<Rightarrow> False | Some n \<Rightarrow> 0 < n \<and> n \<le> 2 ^ 63 - 1)"

definition octetText :: "nativeServices \<Rightarrow> string \<Rightarrow> bool" where
  "octetText N part \<longleftrightarrow>
     (case n_toUInt N part of None \<Rightarrow> False | Some n \<Rightarrow> n \<le> 255 \<and> decimal n = part)"

definition ipv4Text :: "nativeServices \<Rightarrow> string \<Rightarrow> bool" where
  "ipv4Text N s \<longleftrightarrow>
     (let parts = split_on (CHR ''.'') s in length parts = 4 \<and> list_all (octetText N) parts)"

text \<open>\<open>fromBase64\<close> aborts on an error with an empty result.\<close>

definition peer :: "nativeServices \<Rightarrow> string \<Rightarrow> bool" where
  "peer N s \<longleftrightarrow> (let b = n_fromBase64 N s in length b = 32 \<and> n_toBase64 N b = s)"

definition identity :: "jobject \<Rightarrow> bool" where
  "identity ob \<longleftrightarrow>
     length ob = 3 \<and> uuid (jstr (obj_value ob ''serviceInstanceId''))
     \<and> uuid (jstr (obj_value ob ''serviceActivationId'')) \<and> uuid (jstr (obj_value ob ''connectionNonce''))"

definition serverIdText :: "qt \<Rightarrow> string \<Rightarrow> bool" where
  "serverIdText Q s \<longleftrightarrow>
     s \<noteq> [] \<and> length (q_toUtf8 Q s) \<le> 256 \<and> \<not> list_ex (\<lambda>c. (of_char c :: nat) < 32) s"

definition boundIdentity :: "jobject \<Rightarrow> jobject" where
  "boundIdentity ob =
     (let result = obj_of (map (\<lambda>k. (k, obj_value ob k))
                             [''serviceInstanceId'', ''serviceActivationId'', ''connectionNonce'']) in
      if identity result then result else [])"

section \<open>The flat object\<close>

definition flatString :: "qt \<Rightarrow> nativeServices \<Rightarrow> string \<Rightarrow> (string \<times> string) option" where
  "flatString Q N s =
     (case readChar (CHR ''\"'') s of
        None \<Rightarrow> None
      | Some cs \<Rightarrow>
          (case scanString False ''\"'' cs of
             None \<Rightarrow> None
           | Some (token, rest) \<Rightarrow>
               (case q_jsonParse Q (''['' @ token @ '']'') of
                  Some (JArray [JString v]) \<Rightarrow>
                    if CHR 0x00 \<in> set v \<or> \<not> n_wellPaired N v then None else Some (v, rest)
                | _ \<Rightarrow> None)))"

definition flatValue :: "qt \<Rightarrow> nativeServices \<Rightarrow> string \<Rightarrow> string \<Rightarrow> (json \<times> string) option" where
  "flatValue Q N key s =
     (if key = ''schema'' then map_option (\<lambda>rest. (jint 1, rest)) (readChar (CHR ''1'') s)
      else map_option (\<lambda>(v, rest). (JString v, rest)) (flatString Q N s))"

definition flatMember ::
  "qt \<Rightarrow> nativeServices \<Rightarrow> (string \<Rightarrow> bool) \<Rightarrow> jobject \<Rightarrow> string \<Rightarrow> (jobject \<times> string) option" where
  "flatMember Q N admit ob s =
     do {
       (key, s) \<leftarrow> flatString Q N (skipSpace s);
       (if \<not> admit key \<or> obj_contains ob key then None else Some ());
       s \<leftarrow> readChar (CHR '':'') (skipSpace s);
       (v, s) \<leftarrow> flatValue Q N key (skipSpace s);
       Some (obj_insert key v ob, skipSpace s)
     }"

lemma flatString_shorter: "flatString Q N s = Some (v, r) \<Longrightarrow> length r < length s"
  by (auto simp: flatString_def split: option.splits json.splits list.splits if_splits
      dest!: scanString_shorter readChar_shorter)

lemma flatValue_shorter: "flatValue Q N k s = Some (v, r) \<Longrightarrow> length r < length s"
  by (auto simp: flatValue_def split: if_splits dest: flatString_shorter readChar_shorter)

lemma flatMember_cases:
  assumes "flatMember Q N admit ob s = Some (ob', s')"
  obtains key v where "ob' = obj_insert key v ob" "admit key" "\<not> obj_contains ob key"
    "if key = ''schema'' then v = jint 1 else \<exists>x. v = JString x" "length s' < length s"
proof -
  obtain key s1 s2 v s3 where m: "flatString Q N (skipSpace s) = Some (key, s1)" "admit key"
      "\<not> obj_contains ob key" "readChar (CHR '':'') (skipSpace s1) = Some s2"
      "flatValue Q N key (skipSpace s2) = Some (v, s3)" "ob' = obj_insert key v ob" "s' = skipSpace s3"
    using assms by (auto simp: flatMember_def bind_eq_Some_conv split: if_splits)
  have "if key = ''schema'' then v = jint 1 else \<exists>x. v = JString x"
    using m(5) by (auto simp: flatValue_def split: if_splits)
  moreover have "length s' < length s"
    using flatString_shorter [OF m(1)] readChar_shorter [OF m(4)] flatValue_shorter [OF m(5)] m(7)
      skipSpace_shorter [of s] skipSpace_shorter [of s1] skipSpace_shorter [of s2] skipSpace_shorter [of s3]
    by simp
  ultimately show thesis using that m by blast
qed

function flatMembers ::
  "qt \<Rightarrow> nativeServices \<Rightarrow> (string \<Rightarrow> bool) \<Rightarrow> jobject \<Rightarrow> string \<Rightarrow> (jobject \<times> string) option" where
  "flatMembers Q N admit ob s =
     (case flatMember Q N admit ob s of
        None \<Rightarrow> None
      | Some (ob', s') \<Rightarrow>
          (case s' of
             [] \<Rightarrow> None
           | c # rest \<Rightarrow>
               if c = CHR ''}'' then Some (ob', rest)
               else if c \<noteq> CHR '','' then None else flatMembers Q N admit ob' rest))"
  by pat_completeness auto
termination
  by (relation "measure (\<lambda>(Q, N, admit, ob, s). length s)") (auto elim!: flatMember_cases)

declare flatMembers.simps [simp del]

definition flatText :: "qt \<Rightarrow> nativeServices \<Rightarrow> (string \<Rightarrow> bool) \<Rightarrow> string \<Rightarrow> jobject option" where
  "flatText Q N admit s =
     do {
       s \<leftarrow> readChar (CHR ''{'') (skipSpace s);
       (ob, s) \<leftarrow> flatMembers Q N admit [] s;
       if skipSpace s = [] then Some ob else None
     }"

section \<open>The snapshot\<close>

definition snapshotKeys :: "string list" where
  "snapshotKeys =
     [''schema'', ''requestId'', ''bindingGeneration'', ''state'', ''serverId'', ''protocol'',
      ''serviceInstanceId'', ''serviceActivationId'', ''connectionNonce'', ''peerPublicKey'',
      ''deviceIpv4Address'', ''nativeGeneration'']"

definition snapshotOk :: "qt \<Rightarrow> nativeServices \<Rightarrow> jobject \<Rightarrow> bool" where
  "snapshotOk Q N ob \<longleftrightarrow>
     set (obj_keys ob) = set snapshotKeys
     \<and> to_int 0 (obj_value ob ''schema'') = 1 \<and> obj_value ob ''state'' = JString ''CONNECTED''
     \<and> uuid (jstr (obj_value ob ''requestId'')) \<and> decimalText Q (jstr (obj_value ob ''bindingGeneration''))
     \<and> decimalText Q (jstr (obj_value ob ''nativeGeneration'')) \<and> boundIdentity ob \<noteq> []
     \<and> serverIdText Q (jstr (obj_value ob ''serverId''))
     \<and> (obj_value ob ''protocol'' = JString ''AWG'' \<or> obj_value ob ''protocol'' = JString ''WIREGUARD'')
     \<and> peer N (jstr (obj_value ob ''peerPublicKey'')) \<and> ipv4Text N (jstr (obj_value ob ''deviceIpv4Address''))"

text \<open>
  Where the source cannot tell an empty string from a failed one, the model keeps the empty string: no
  member of a snapshot may be empty, so the object is refused in either reading.
\<close>

definition decodeSnapshot :: "qt \<Rightarrow> nativeServices \<Rightarrow> string \<Rightarrow> jobject" where
  "decodeSnapshot Q N bytes =
     (if bytes = [] \<or> 8192 < length bytes \<or> \<not> n_utf8Ok N bytes then []
      else (case flatText Q N (\<lambda>key. key \<noteq> []) bytes of
              None \<Rightarrow> [] | Some ob \<Rightarrow> if snapshotOk Q N ob then ob else []))"

fun configuredAddress :: "qt \<Rightarrow> nativeServices \<Rightarrow> string list \<Rightarrow> string option" where
  "configuredAddress Q N [] = Some []"
| "configuredAddress Q N (a # as) =
     (case split_on (CHR ''/'') (trimmed Q a) of
        [ip] \<Rightarrow> if ipv4Text N ip then Some ip else configuredAddress Q N as
      | [ip, prefix] \<Rightarrow>
          if \<not> ipv4Text N ip then configuredAddress Q N as
          else (case n_toUInt N prefix of
                  None \<Rightarrow> None
                | Some n \<Rightarrow> if 32 < n \<or> decimal n \<noteq> prefix then None else Some ip)
      | _ \<Rightarrow> configuredAddress Q N as)"

definition matchesConfiguration :: "qt \<Rightarrow> nativeServices \<Rightarrow> jobject \<Rightarrow> string \<Rightarrow> jobject \<Rightarrow> bool" where
  "matchesConfiguration Q N snapshot serverId config \<longleftrightarrow>
     (let protocol = jstr (obj_value config ''protocol''); kind = q_toUpper Q protocol;
          protocolConfig = to_object (obj_value config (protocol @ ''_config_data'')) in
      case configuredAddress Q N (split_on (CHR '','') (jstr (obj_value protocolConfig ''client_ip''))) of
        None \<Rightarrow> False
      | Some configuredIpv4 \<Rightarrow>
          snapshot \<noteq> [] \<and> obj_value snapshot ''serverId'' = JString serverId
          \<and> obj_value snapshot ''protocol'' = JString kind \<and> (kind = ''AWG'' \<or> kind = ''WIREGUARD'')
          \<and> peer N (jstr (obj_value protocolConfig ''server_pub_key''))
          \<and> obj_value snapshot ''peerPublicKey'' = obj_value protocolConfig ''server_pub_key''
          \<and> configuredIpv4 \<noteq> [] \<and> obj_value snapshot ''deviceIpv4Address'' = JString configuredIpv4)"

section \<open>The pending request\<close>

record Pending =
  pd_requestId :: string
  pd_generation :: string
  pd_epoch :: "64 word"

definition noPending :: Pending where
  "noPending = \<lparr>pd_requestId = [], pd_generation = [], pd_epoch = 0\<rparr>"

definition registerRequest :: "qt \<Rightarrow> string \<Rightarrow> string \<Rightarrow> 64 word \<Rightarrow> Pending \<Rightarrow> Pending \<times> bool" where
  "registerRequest Q ident binding epoch p =
     (if \<not> uuid ident \<or> \<not> decimalText Q binding then (noPending, False)
      else (\<lparr>pd_requestId = ident, pd_generation = binding, pd_epoch = epoch\<rparr>, True))"

definition pendingMatches :: "jobject \<Rightarrow> 64 word \<Rightarrow> Pending \<Rightarrow> bool" where
  "pendingMatches snapshot epoch p \<longleftrightarrow>
     pd_requestId p \<noteq> [] \<and> pd_epoch p = epoch
     \<and> obj_value snapshot ''requestId'' = JString (pd_requestId p)
     \<and> obj_value snapshot ''bindingGeneration'' = JString (pd_generation p)"

definition consume :: "jobject \<Rightarrow> 64 word \<Rightarrow> Pending \<Rightarrow> Pending \<times> bool" where
  "consume snapshot epoch p = (if pendingMatches snapshot epoch p then (noPending, True) else (p, False))"

datatype pendingEvent =
    RegisterRequest string string "64 word"
  | Consume jobject "64 word"
  | InvalidatePending

fun pendingStep :: "qt \<Rightarrow> Pending \<Rightarrow> pendingEvent \<Rightarrow> Pending \<times> bool" where
  "pendingStep Q p (RegisterRequest ident binding epoch) = registerRequest Q ident binding epoch p"
| "pendingStep Q p (Consume snapshot epoch) = consume snapshot epoch p"
| "pendingStep Q p InvalidatePending = (noPending, True)"

fun isRegistration :: "pendingEvent \<Rightarrow> bool \<Rightarrow> bool" where
  "isRegistration (RegisterRequest _ _ _) accepted = accepted"
| "isRegistration _ accepted = False"

fun isConsume :: "pendingEvent \<Rightarrow> bool" where
  "isConsume (Consume _ _) = True"
| "isConsume _ = False"

definition isConsumption :: "pendingEvent \<Rightarrow> bool \<Rightarrow> bool" where
  "isConsumption e accepted \<longleftrightarrow> isConsume e \<and> accepted"

section \<open>Laws of the ticket\<close>

lemma observe_observed:
  "in_observation i \<le> in_version i \<Longrightarrow> in_version i \<noteq> 0 \<Longrightarrow> observed (snd (observe i)) (fst (observe i))"
  by (auto simp: observe_def observed_def Let_def)

lemma invalidate_ends_observation: "observed ticket i \<Longrightarrow> \<not> observed t (invalidateIngress i)"
  by (auto simp: observed_def invalidateIngress_def)

section \<open>Laws of the flat object\<close>

definition flatMemberOk :: "(string \<Rightarrow> bool) \<Rightarrow> string \<Rightarrow> json \<Rightarrow> bool" where
  "flatMemberOk admit k v \<longleftrightarrow> admit k \<and> (if k = ''schema'' then v = jint 1 else \<exists>x. v = JString x)"

definition flatWf :: "(string \<Rightarrow> bool) \<Rightarrow> jobject \<Rightarrow> bool" where
  "flatWf admit ob \<longleftrightarrow> wf_obj ob \<and> (\<forall>(k, v) \<in> set ob. flatMemberOk admit k v)"

lemma flatMember_wf: "flatMember Q N admit ob s = Some (ob', s') \<Longrightarrow> flatWf admit ob \<Longrightarrow> flatWf admit ob'"
proof (erule flatMember_cases)
  fix key v
  assume a: "ob' = obj_insert key v ob" "admit key" "if key = ''schema'' then v = jint 1 else \<exists>x. v = JString x"
    "flatWf admit ob"
  then have "v \<noteq> JUndefined" by (auto split: if_splits)
  then have "set ob' \<subseteq> insert (key, v) (set ob)" using a(1) by (simp add: obj_insert_def set_obj_put)
  moreover have "flatMemberOk admit key v" using a by (simp add: flatMemberOk_def)
  ultimately show ?thesis using a(1,4) wf_obj_insert [of ob key v] by (auto simp: flatWf_def)
qed

lemma flatMembers_wf:
  "flatMembers Q N admit ob s = Some (ob', s') \<Longrightarrow> flatWf admit ob \<Longrightarrow> flatWf admit ob'"
proof (induction Q N admit ob s arbitrary: ob' s' rule: flatMembers.induct)
  case (1 Q N admit ob s)
  from 1(2) obtain ob1 c rest where m: "flatMember Q N admit ob s = Some (ob1, c # rest)"
    and c: "c = CHR ''}'' \<and> ob' = ob1 \<or> c = CHR '','' \<and> flatMembers Q N admit ob1 rest = Some (ob', s')"
    by (subst (asm) flatMembers.simps) (auto split: option.splits list.splits if_splits)
  have "flatWf admit ob1" using flatMember_wf [OF m 1(3)] .
  then show ?case using c 1(1) [OF m refl refl] by auto
qed

lemma flatText_wf: "flatText Q N admit s = Some ob \<Longrightarrow> flatWf admit ob"
  using flatMembers_wf [of Q N admit "[]"]
  by (fastforce simp: flatText_def flatWf_def bind_eq_Some_conv split: if_splits)

lemma flatWf_value:
  "flatWf admit ob \<Longrightarrow> k \<in> set (obj_keys ob) \<Longrightarrow> k \<noteq> ''schema'' \<Longrightarrow>
   obj_value ob k = JString (jstr (obj_value ob k))"
proof -
  assume a: "flatWf admit ob" "k \<in> set (obj_keys ob)" "k \<noteq> ''schema''"
  then obtain v where "map_of ob k = Some v" "(k, v) \<in> set ob"
    by (metis map_of_SomeD map_of_eq_None_iff not_None_eq obj_keys_def set_map)
  moreover have "\<exists>x. v = JString x"
    using a(1,3) calculation(2) by (auto simp: flatWf_def flatMemberOk_def)
  ultimately show ?thesis by (auto simp: obj_value_def)
qed

text \<open>A decoded snapshot has exactly the twelve members, all but the schema texts that passed their test.\<close>

lemma decodeSnapshot_sound:
  assumes "decodeSnapshot Q N bytes = ob" "ob \<noteq> []"
  shows "length bytes \<le> 8192 \<and> snapshotOk Q N ob \<and> wf_obj ob
    \<and> (\<forall>k \<in> set snapshotKeys - {''schema''}. obj_value ob k = JString (jstr (obj_value ob k)))"
proof -
  have t: "length bytes \<le> 8192" "flatText Q N (\<lambda>key. key \<noteq> []) bytes = Some ob" "snapshotOk Q N ob"
    using assms by (auto simp: decodeSnapshot_def split: if_splits option.splits)
  have wf: "flatWf (\<lambda>key. key \<noteq> []) ob" using flatText_wf [OF t(2)] .
  moreover have "set (obj_keys ob) = set snapshotKeys" using t(3) by (simp add: snapshotOk_def)
  ultimately show ?thesis using t flatWf_value [OF wf] by (auto simp: flatWf_def)
qed

section \<open>Laws of the pending request\<close>

lemma uuid_not_Nil: "uuid s \<Longrightarrow> s \<noteq> []"
  by (auto simp: uuid_def)

interpretation restore: credit_machine "pendingStep Q" isRegistration isConsumption "\<lambda>p. pd_requestId p \<noteq> []" for Q
proof
  fix p e
  show "isConsumption e (snd (pendingStep Q p e)) \<Longrightarrow>
      pd_requestId p \<noteq> [] \<and> \<not> pd_requestId (fst (pendingStep Q p e)) \<noteq> []
      \<or> isRegistration e (snd (pendingStep Q p e)) \<and> \<not> pd_requestId (fst (pendingStep Q p e)) \<noteq> []"
    by (cases e) (auto simp: isConsumption_def consume_def pendingMatches_def noPending_def split: if_splits)
  show "pd_requestId (fst (pendingStep Q p e)) \<noteq> [] \<Longrightarrow>
      pd_requestId p \<noteq> [] \<or> isRegistration e (snd (pendingStep Q p e))"
    by (cases e) (auto simp: registerRequest_def consume_def noPending_def split: if_splits)
qed

lemma pending_origin:
  "pd_requestId (run (pendingStep Q) noPending es) \<noteq> [] \<Longrightarrow>
   \<exists>pre ident binding epoch post. es = pre @ RegisterRequest ident binding epoch # post \<and> list_all isConsume post
     \<and> uuid ident \<and> decimalText Q binding
     \<and> run (pendingStep Q) noPending es = \<lparr>pd_requestId = ident, pd_generation = binding, pd_epoch = epoch\<rparr>"
proof (induction es rule: rev_induct)
  case (snoc e es)
  let ?p = "run (pendingStep Q) noPending es"
  show ?case
  proof (cases e)
    case (RegisterRequest ident binding epoch)
    then show ?thesis using snoc.prems
      by (intro exI [of _ es] exI [of _ ident] exI [of _ binding] exI [of _ epoch] exI [of _ "[]"])
        (auto simp: registerRequest_def noPending_def split: if_splits)
  next
    case (Consume snapshot epoch)
    then have same: "run (pendingStep Q) noPending (es @ [e]) = ?p" "pd_requestId ?p \<noteq> []"
      using snoc.prems by (auto simp: consume_def noPending_def split: if_splits)
    then obtain pre ident binding ep post where "es = pre @ RegisterRequest ident binding ep # post"
        "list_all isConsume post" "uuid ident" "decimalText Q binding"
        "?p = \<lparr>pd_requestId = ident, pd_generation = binding, pd_epoch = ep\<rparr>"
      using snoc.IH by blast
    then show ?thesis using Consume same(1)
      by (intro exI [of _ pre] exI [of _ ident] exI [of _ binding] exI [of _ ep] exI [of _ "post @ [e]"]) simp
  next
    case InvalidatePending
    then show ?thesis using snoc.prems by (simp add: noPending_def)
  qed
qed (simp add: noPending_def)

text \<open>
  C21. A restored session is taken once and only for the request it answers. In every sequence of
  registrations, consumptions and invalidations, at most as many snapshots are consumed as requests were
  registered; a consumed one names the id and the generation of the latest registered request, in the
  worker epoch of that registration, with nothing but refused snapshots since.
\<close>

theorem restore_consumed_once:
  assumes "snd (pendingStep Q (run (pendingStep Q) noPending es) (Consume snapshot epoch))"
  shows "occurrences isConsumption (pendingStep Q) noPending es < occurrences isRegistration (pendingStep Q) noPending es
    \<and> (\<exists>pre ident binding post. es = pre @ RegisterRequest ident binding epoch # post \<and> list_all isConsume post
         \<and> uuid ident \<and> decimalText Q binding
         \<and> obj_value snapshot ''requestId'' = JString ident
         \<and> obj_value snapshot ''bindingGeneration'' = JString binding)"
proof -
  let ?p = "run (pendingStep Q) noPending es"
  have m: "pendingMatches snapshot epoch ?p" using assms by (auto simp: consume_def split: if_splits)
  then have live: "pd_requestId ?p \<noteq> []" by (simp add: pendingMatches_def)
  have "occurrences isConsumption (pendingStep Q) noPending es < occurrences isRegistration (pendingStep Q) noPending es"
    using restore.spent_within [of Q noPending es] live by (simp add: noPending_def)
  then show ?thesis using pending_origin [OF live] m by (fastforce simp: pendingMatches_def)
qed

theorem restore_consumed_once_witness:
  "0 < occurrences isRegistration (pendingStep qt_ref) noPending
         [RegisterRequest ''00000000-0000-0000-0000-00000000000a'' ''7'' 3]"
proof -
  let ?id = "''00000000-0000-0000-0000-00000000000a''"
  let ?snapshot = "obj_of [(''requestId'', JString ?id), (''bindingGeneration'', JString ''7'')]"
  have ok: "uuid ?id" by (simp add: uuid_def uuidChar_def is_lower_hex_def is_ascii_digit_def upt_rec)
  have ok2: "decimalText qt_ref ''7''"
    by (simp add: decimalText_def is_ascii_digit_def parse_unsigned_def undecimal_def digit_value_def)
  have "snd (pendingStep qt_ref (run (pendingStep qt_ref) noPending [RegisterRequest ?id ''7'' 3]) (Consume ?snapshot 3))"
    by (simp add: registerRequest_def ok ok2 consume_def pendingMatches_def obj_of_def)
  from restore_consumed_once [OF this, THEN conjunct1] show ?thesis by linarith
qed

end
