(* ===== verification/Android_Discovery.thy ===== *)
theory Android_Discovery
  imports Native_Session
begin

text \<open>
  Admission of a fresh start on Android (\<open>core/utils/androidServiceDiscovery.h\<close>): the decoders of the
  discovery and admission messages, the coordinator that turns one resolved discovery into one grant and
  one grant into one start, and the ledger that records the outcome of a dispatched start. The methods of
  the coordinator hold its mutex, so that an interleaving of threads is a sequence of steps.
\<close>

section \<open>Messages\<close>

definition maximumWireBytes :: nat where "maximumWireBytes = 2048"

definition flatObject :: "qt \<Rightarrow> nativeServices \<Rightarrow> string \<Rightarrow> string list \<Rightarrow> jobject" where
  "flatObject Q N bytes expected =
     (if bytes = [] \<or> maximumWireBytes < length bytes \<or> \<not> n_utf8Ok N bytes then []
      else (case flatText Q N (\<lambda>key. key \<in> set expected) bytes of
              None \<Rightarrow> [] | Some ob \<Rightarrow> if set (obj_keys ob) = set expected then ob else []))"

fun phaseOk :: "string \<Rightarrow> string \<Rightarrow> string \<Rightarrow> bool" where
  "phaseOk p c r \<longleftrightarrow>
     (if p = ''PENDING'' then c = ''NONE'' \<and> r = ''NONE''
      else if p = ''EMPTY'' then c = ''NONE'' \<and> r = ''NONE''
      else if p = ''BOUND_NATIVE'' \<or> p = ''IDLE_NATIVE'' then c = ''AWG'' \<and> r = ''NONE''
      else if p = ''BOUND_LEGACY'' then (c = ''OPENVPN'' \<or> c = ''XRAY'') \<and> r = ''NONE''
      else if p = ''UNCERTAIN'' then c = ''NONE'' \<and> r \<noteq> ''NONE''
      else False)"

definition decodeDiscovery :: "qt \<Rightarrow> nativeServices \<Rightarrow> string \<Rightarrow> jobject" where
  "decodeDiscovery Q N bytes =
     (let ob = flatObject Q N bytes [''schema'', ''requestId'', ''generation'', ''phase'', ''component'', ''reason''];
          ident = jstr (obj_value ob ''requestId''); p = jstr (obj_value ob ''phase'');
          c = jstr (obj_value ob ''component''); r = jstr (obj_value ob ''reason'') in
      if ob = [] \<or> \<not> decimalText Q (jstr (obj_value ob ''generation'')) then []
      else if \<not> uuid ident \<and> \<not> (ident = [] \<and> p = ''PENDING'') then []
      else if c \<notin> {''NONE'', ''AWG'', ''OPENVPN'', ''XRAY''}
              \<or> r \<notin> {''NONE'', ''INVENTORY_ERROR'', ''MULTIPLE'', ''BIND_FAILED'', ''BIND_TIMEOUT'', ''DIED'',
                     ''STATUS_UNPROVEN'', ''CANCELLED''} then []
      else if \<not> phaseOk p c r then [] else ob)"

definition outcomeOk :: "string \<Rightarrow> string \<Rightarrow> bool" where
  "outcomeOk outcome reason \<longleftrightarrow>
     (if outcome = ''DISPATCHED'' then reason = ''NONE''
      else if outcome = ''DISPATCH_UNCERTAIN'' then reason = ''START_EXCEPTION''
      else if outcome = ''REJECTED'' then reason \<in> {''DISCOVERY_UNCONFIRMED'', ''STALE'', ''START_EXCEPTION''}
      else if outcome = ''CANCELLED'' then reason \<in> {''PERMISSION_DENIED'', ''LIFECYCLE_CANCELLED''}
      else False)"

definition decodeAdmission :: "qt \<Rightarrow> nativeServices \<Rightarrow> string \<Rightarrow> jobject" where
  "decodeAdmission Q N bytes =
     (let ob = flatObject Q N bytes [''schema'', ''generation'', ''requestId'', ''outcome'', ''reason''] in
      if ob = [] \<or> \<not> decimalText Q (jstr (obj_value ob ''generation''))
         \<or> \<not> uuid (jstr (obj_value ob ''requestId''))
         \<or> \<not> outcomeOk (jstr (obj_value ob ''outcome'')) (jstr (obj_value ob ''reason''))
      then [] else ob)"

section \<open>The coordinator\<close>

record Grant =
  gr_requestId :: string
  gr_generation :: string
  gr_component :: string
  gr_revision :: "64 word"

definition noGrant :: Grant where
  "noGrant = \<lparr>gr_requestId = [], gr_generation = [], gr_component = [], gr_revision = 0\<rparr>"

definition grantValid :: "qt \<Rightarrow> Grant \<Rightarrow> bool" where
  "grantValid Q g \<longleftrightarrow> gr_revision g \<noteq> 0 \<and> uuid (gr_requestId g) \<and> decimalText Q (gr_generation g)"

record Coordinator =
  co_latest :: "64 word"
  co_floor :: "64 word"
  co_baseline :: "64 word"
  co_assigned :: "64 word"
  co_revision :: "64 word"
  co_pending :: string
  co_acknowledged :: bool
  co_terminal :: bool
  co_available :: bool
  co_dispatchAuthority :: bool
  co_current :: jobject
  co_activeGrant :: Grant

definition coordinator0 :: Coordinator where
  "coordinator0 = \<lparr>co_latest = 0, co_floor = 0, co_baseline = 0, co_assigned = 0, co_revision = 1, co_pending = [],
     co_acknowledged = False, co_terminal = False, co_available = False, co_dispatchAuthority = False,
     co_current = [], co_activeGrant = noGrant\<rparr>"

definition registerRefresh :: "string \<Rightarrow> Coordinator \<Rightarrow> Coordinator \<times> bool" where
  "registerRefresh ident s =
     (if \<not> uuid ident then (s, False)
      else (s\<lparr>co_revision := co_revision s + 1, co_pending := ident, co_baseline := co_latest s, co_assigned := 0,
              co_acknowledged := False, co_terminal := False, co_available := False,
              co_dispatchAuthority := False, co_current := [], co_activeGrant := noGrant\<rparr>, True))"

definition acknowledge :: "string \<Rightarrow> Coordinator \<Rightarrow> Coordinator \<times> bool" where
  "acknowledge ident s =
     (if ident \<noteq> co_pending s \<or> co_pending s = [] \<or> co_terminal s then (s, False)
      else (s\<lparr>co_acknowledged := True\<rparr>, True))"

definition registeredRequest :: "string \<Rightarrow> Coordinator \<Rightarrow> bool" where
  "registeredRequest ident s \<longleftrightarrow> ident \<noteq> [] \<and> ident = co_pending s \<and> \<not> co_terminal s"

definition currentRequest :: "string \<Rightarrow> Coordinator \<Rightarrow> bool" where
  "currentRequest ident s \<longleftrightarrow> ident \<noteq> [] \<and> ident = co_pending s \<and> co_acknowledged s \<and> \<not> co_terminal s"

definition generationOf :: "qt \<Rightarrow> jobject \<Rightarrow> 64 word" where
  "generationOf Q ob =
     (case q_toULongLong Q (jstr (obj_value ob ''generation'')) of None \<Rightarrow> 0 | Some n \<Rightarrow> word_of_int n)"

definition ingestLifecycle :: "64 word \<Rightarrow> jobject \<Rightarrow> Coordinator \<Rightarrow> Coordinator \<times> bool" where
  "ingestLifecycle g ob s =
     (if g \<le> co_latest s then (s, False)
      else (s\<lparr>co_latest := g, co_floor := g, co_revision := co_revision s + 1, co_pending := [], co_assigned := 0,
              co_acknowledged := False, co_terminal := False, co_available := False,
              co_dispatchAuthority := False, co_activeGrant := noGrant, co_current := ob\<rparr>, True))"

definition ingestAnswer :: "64 word \<Rightarrow> jobject \<Rightarrow> Coordinator \<Rightarrow> Coordinator \<times> bool" where
  "ingestAnswer g ob s =
     (let ident = jstr (obj_value ob ''requestId''); phase = jstr (obj_value ob ''phase'') in
      if \<not> co_acknowledged s \<or> co_terminal s \<or> ident \<noteq> co_pending s \<or> g \<le> co_baseline s \<or> g < co_floor s
         \<or> g < co_latest s \<or> co_assigned s \<noteq> 0 \<and> co_assigned s \<noteq> g
      then (s, False)
      else (let s = s\<lparr>co_assigned := g, co_latest := g, co_current := ob\<rparr> in
            (if phase \<noteq> ''PENDING''
             then s\<lparr>co_terminal := True,
                    co_available := phase \<in> {''EMPTY'', ''IDLE_NATIVE'', ''BOUND_LEGACY''}\<rparr>
             else s, True)))"

definition ingest :: "qt \<Rightarrow> nativeServices \<Rightarrow> jobject \<Rightarrow> Coordinator \<Rightarrow> Coordinator \<times> bool" where
  "ingest Q N input s =
     (let ob = decodeDiscovery Q N (q_jsonText Q input); g = generationOf Q ob in
      if ob = [] then (s, False)
      else if jstr (obj_value ob ''requestId'') = [] then ingestLifecycle g ob s
      else ingestAnswer g ob s)"

definition allowsFresh :: "Coordinator \<Rightarrow> bool" where
  "allowsFresh s \<longleftrightarrow> co_terminal s \<and> co_available s"

definition components :: "string list" where "components = [''AWG'', ''OPENVPN'', ''XRAY'']"

definition canReconnect :: "string \<Rightarrow> Coordinator \<Rightarrow> bool" where
  "canReconnect component s \<longleftrightarrow>
     (let phase = jstr (obj_value (co_current s) ''phase'') in
      component \<in> set components \<and> co_terminal s
      \<and> (phase = ''BOUND_NATIVE'' \<and> component = ''AWG''
         \<or> phase = ''BOUND_LEGACY'' \<and> obj_value (co_current s) ''component'' = JString component
         \<or> (phase = ''EMPTY'' \<or> phase = ''IDLE_NATIVE'') \<and> co_available s
           \<and> (phase = ''EMPTY'' \<or> component = ''AWG'')))"

definition takeGrant :: "string \<Rightarrow> string \<Rightarrow> Coordinator \<Rightarrow> Coordinator \<times> Grant" where
  "takeGrant startId component s =
     (let phase = jstr (obj_value (co_current s) ''phase'') in
      if \<not> co_terminal s \<or> \<not> co_available s \<or> \<not> uuid startId \<or> component \<notin> set components
         \<or> phase = ''IDLE_NATIVE'' \<and> component \<noteq> ''AWG''
         \<or> phase = ''BOUND_LEGACY'' \<and> obj_value (co_current s) ''component'' \<noteq> JString component
      then (s, noGrant)
      else (let grant = \<lparr>gr_requestId = startId,
                         gr_generation = jstr (obj_value (co_current s) ''generation''),
                         gr_component = component, gr_revision = co_revision s\<rparr> in
            (s\<lparr>co_available := False, co_activeGrant := grant, co_dispatchAuthority := True\<rparr>, grant)))"

definition authorizes :: "qt \<Rightarrow> Grant \<Rightarrow> Coordinator \<Rightarrow> bool" where
  "authorizes Q g s \<longleftrightarrow>
     grantValid Q g \<and> gr_revision g = co_revision s \<and> gr_requestId g = gr_requestId (co_activeGrant s)
     \<and> gr_generation g = gr_generation (co_activeGrant s) \<and> gr_component g = gr_component (co_activeGrant s)"

definition authorizeStart :: "qt \<Rightarrow> Grant \<Rightarrow> Coordinator \<Rightarrow> Coordinator \<times> bool" where
  "authorizeStart Q g s =
     (if \<not> co_dispatchAuthority s \<or> \<not> authorizes Q g s then (s, False)
      else (s\<lparr>co_dispatchAuthority := False\<rparr>, True))"

definition invalidateCoordinator :: "Coordinator \<Rightarrow> Coordinator" where
  "invalidateCoordinator s =
     s\<lparr>co_revision := co_revision s + 1, co_pending := [], co_acknowledged := False, co_terminal := False,
       co_available := False, co_dispatchAuthority := False, co_activeGrant := noGrant, co_current := [],
       co_assigned := 0\<rparr>"

section \<open>The ledger\<close>

datatype Outcome = Ignored | Dispatched | Uncertain | Rejected | Cancelled

datatype ledgerState =
  LedgerEmpty | Unstarted | StateDispatched | StateUncertain | TimedOut | StateRejected | StateCancelled

record Ledger =
  le_admission :: Grant
  le_epoch :: "64 word"
  le_wrapper :: "64 word"
  le_state :: ledgerState

definition ledger0 :: Ledger where
  "ledger0 = \<lparr>le_admission = noGrant, le_epoch = 0, le_wrapper = 0, le_state = LedgerEmpty\<rparr>"

definition registerStart :: "qt \<Rightarrow> Grant \<Rightarrow> 64 word \<Rightarrow> 64 word \<Rightarrow> Ledger \<Rightarrow> Ledger \<times> bool" where
  "registerStart Q g workerEpoch wrapperIdentity l =
     (if \<not> grantValid Q g \<or> workerEpoch = 0 \<or> wrapperIdentity = 0 then (l, False)
      else (\<lparr>le_admission = g, le_epoch = workerEpoch, le_wrapper = wrapperIdentity, le_state = Unstarted\<rparr>, True))"

definition ledgerMatches :: "string \<Rightarrow> string \<Rightarrow> 64 word \<Rightarrow> 64 word \<Rightarrow> Ledger \<Rightarrow> bool" where
  "ledgerMatches ident generation workerEpoch wrapperIdentity l \<longleftrightarrow>
     le_state l \<noteq> LedgerEmpty \<and> gr_requestId (le_admission l) = ident \<and> gr_generation (le_admission l) = generation
     \<and> le_epoch l = workerEpoch \<and> le_wrapper l = wrapperIdentity"

definition applyOutcome :: "qt \<Rightarrow> nativeServices \<Rightarrow> jobject \<Rightarrow> 64 word \<Rightarrow> 64 word \<Rightarrow> Ledger \<Rightarrow> Ledger \<times> Outcome" where
  "applyOutcome Q N input workerEpoch wrapperIdentity l =
     (let ob = decodeAdmission Q N (q_jsonText Q input); outcome = jstr (obj_value ob ''outcome'') in
      if ob = [] \<or> \<not> ledgerMatches (jstr (obj_value ob ''requestId'')) (jstr (obj_value ob ''generation''))
                      workerEpoch wrapperIdentity l
      then (l, Ignored)
      else if le_state l \<in> {StateDispatched, StateUncertain, StateRejected, StateCancelled} then (l, Ignored)
      else if outcome = ''DISPATCHED'' then (l\<lparr>le_state := StateDispatched\<rparr>, Dispatched)
      else if outcome = ''DISPATCH_UNCERTAIN'' then (l\<lparr>le_state := StateUncertain\<rparr>, Uncertain)
      else if outcome = ''REJECTED'' then (l\<lparr>le_state := StateRejected\<rparr>, Rejected)
      else (l\<lparr>le_state := StateCancelled\<rparr>, Cancelled))"

definition timeout :: "string \<Rightarrow> string \<Rightarrow> 64 word \<Rightarrow> 64 word \<Rightarrow> Ledger \<Rightarrow> Ledger \<times> Outcome" where
  "timeout ident generation workerEpoch wrapperIdentity l =
     (if \<not> ledgerMatches ident generation workerEpoch wrapperIdentity l \<or> le_state l \<noteq> Unstarted then (l, Ignored)
      else (l\<lparr>le_state := TimedOut\<rparr>, Uncertain))"

section \<open>The machines\<close>

datatype coordinatorEvent =
    RegisterRefresh string
  | Acknowledge string
  | Ingest jobject
  | TakeGrant string string
  | AuthorizeStart Grant
  | InvalidateCoordinator

datatype coordinatorOut = Verdict bool | Taken Grant

definition verdict :: "Coordinator \<times> bool \<Rightarrow> Coordinator \<times> coordinatorOut" where
  "verdict r = (fst r, Verdict (snd r))"

fun coordinatorStep ::
  "qt \<Rightarrow> nativeServices \<Rightarrow> Coordinator \<Rightarrow> coordinatorEvent \<Rightarrow> Coordinator \<times> coordinatorOut" where
  "coordinatorStep Q N s (RegisterRefresh ident) = verdict (registerRefresh ident s)"
| "coordinatorStep Q N s (Acknowledge ident) = verdict (acknowledge ident s)"
| "coordinatorStep Q N s (Ingest input) = verdict (ingest Q N input s)"
| "coordinatorStep Q N s (TakeGrant startId component) =
     (fst (takeGrant startId component s), Taken (snd (takeGrant startId component s)))"
| "coordinatorStep Q N s (AuthorizeStart g) = verdict (authorizeStart Q g s)"
| "coordinatorStep Q N s InvalidateCoordinator = (invalidateCoordinator s, Verdict True)"

fun isRefresh :: "coordinatorEvent \<Rightarrow> coordinatorOut \<Rightarrow> bool" where
  "isRefresh (RegisterRefresh _) x \<longleftrightarrow> x = Verdict True"
| "isRefresh _ x \<longleftrightarrow> False"

text \<open>An accepted answer to the pending request that leaves a fresh start possible.\<close>

fun isOffer :: "qt \<Rightarrow> nativeServices \<Rightarrow> coordinatorEvent \<Rightarrow> coordinatorOut \<Rightarrow> bool" where
  "isOffer Q N (Ingest input) x \<longleftrightarrow>
     x = Verdict True \<and> jstr (obj_value (decodeDiscovery Q N (q_jsonText Q input)) ''requestId'') \<noteq> []
     \<and> jstr (obj_value (decodeDiscovery Q N (q_jsonText Q input)) ''phase'')
         \<in> {''EMPTY'', ''IDLE_NATIVE'', ''BOUND_LEGACY''}"
| "isOffer Q N _ x \<longleftrightarrow> False"

fun isGrant :: "coordinatorEvent \<Rightarrow> coordinatorOut \<Rightarrow> bool" where
  "isGrant (TakeGrant _ _) x \<longleftrightarrow> x \<noteq> Taken noGrant"
| "isGrant _ x \<longleftrightarrow> False"

fun isStart :: "coordinatorEvent \<Rightarrow> coordinatorOut \<Rightarrow> bool" where
  "isStart (AuthorizeStart _) x \<longleftrightarrow> x = Verdict True"
| "isStart _ x \<longleftrightarrow> False"

lemmas coordinator_defs =
  verdict_def registerRefresh_def acknowledge_def ingest_def ingestLifecycle_def ingestAnswer_def takeGrant_def
  authorizeStart_def invalidateCoordinator_def Let_def

interpretation starts: credit_machine "coordinatorStep Q N" isGrant isStart co_dispatchAuthority for Q N
proof
  fix s e
  show "isStart e (snd (coordinatorStep Q N s e)) \<Longrightarrow>
      co_dispatchAuthority s \<and> \<not> co_dispatchAuthority (fst (coordinatorStep Q N s e))
      \<or> isGrant e (snd (coordinatorStep Q N s e)) \<and> \<not> co_dispatchAuthority (fst (coordinatorStep Q N s e))"
    by (cases e) (auto simp: verdict_def authorizeStart_def split: if_splits)
  show "co_dispatchAuthority (fst (coordinatorStep Q N s e)) \<Longrightarrow>
      co_dispatchAuthority s \<or> isGrant e (snd (coordinatorStep Q N s e))"
    by (cases e) (auto simp: coordinator_defs noGrant_def dest: uuid_not_Nil split: if_splits)
qed

interpretation grants: credit_machine "coordinatorStep Q N" "isOffer Q N" isGrant co_available for Q N
proof
  fix s e
  show "isGrant e (snd (coordinatorStep Q N s e)) \<Longrightarrow>
      co_available s \<and> \<not> co_available (fst (coordinatorStep Q N s e))
      \<or> isOffer Q N e (snd (coordinatorStep Q N s e)) \<and> \<not> co_available (fst (coordinatorStep Q N s e))"
    by (cases e) (auto simp: takeGrant_def Let_def split: if_splits)
  show "co_available (fst (coordinatorStep Q N s e)) \<Longrightarrow>
      co_available s \<or> isOffer Q N e (snd (coordinatorStep Q N s e))"
    by (cases e) (auto simp: coordinator_defs split: if_splits)
qed

interpretation refreshes: credit_machine "coordinatorStep Q N" isRefresh "isOffer Q N"
  "\<lambda>s. co_pending s \<noteq> [] \<and> \<not> co_terminal s" for Q N
proof
  fix s e
  let ?s' = "fst (coordinatorStep Q N s e)" and ?x = "snd (coordinatorStep Q N s e)"
  show "isOffer Q N e ?x \<Longrightarrow>
      (co_pending s \<noteq> [] \<and> \<not> co_terminal s) \<and> \<not> (co_pending ?s' \<noteq> [] \<and> \<not> co_terminal ?s')
      \<or> isRefresh e ?x \<and> \<not> (co_pending ?s' \<noteq> [] \<and> \<not> co_terminal ?s')"
    by (cases e) (auto simp: verdict_def ingest_def ingestAnswer_def Let_def split: if_splits)
  show "co_pending ?s' \<noteq> [] \<and> \<not> co_terminal ?s' \<Longrightarrow>
      (co_pending s \<noteq> [] \<and> \<not> co_terminal s) \<or> isRefresh e ?x"
    by (cases e) (auto simp: coordinator_defs split: if_splits)
qed

text \<open>
  C4. Fresh starts on Android are admitted along one chain. In every interleaving of refreshes,
  acknowledgements, messages of the service, grants, starts and invalidations, there are at most as many
  authorised starts as grants, at most as many grants as accepted answers that allow a start, and at most as
  many of those as registered refreshes: no message can be replayed into a second start.
\<close>

theorem android_start_chain:
  "occurrences isStart (coordinatorStep Q N) coordinator0 es \<le> occurrences isGrant (coordinatorStep Q N) coordinator0 es
   \<and> occurrences isGrant (coordinatorStep Q N) coordinator0 es \<le> occurrences (isOffer Q N) (coordinatorStep Q N) coordinator0 es
   \<and> occurrences (isOffer Q N) (coordinatorStep Q N) coordinator0 es \<le> occurrences isRefresh (coordinatorStep Q N) coordinator0 es"
  using starts.spent_within [of Q N coordinator0 es] grants.spent_within [of Q N coordinator0 es]
    refreshes.spent_within [of Q N coordinator0 es]
  by (simp add: coordinator0_def)

datatype ledgerEvent =
    RegisterStart Grant "64 word" "64 word"
  | Apply jobject "64 word" "64 word"
  | Timeout string string "64 word" "64 word"
  | Clear

fun ledgerStep :: "qt \<Rightarrow> nativeServices \<Rightarrow> Ledger \<Rightarrow> ledgerEvent \<Rightarrow> Ledger \<times> Outcome option" where
  "ledgerStep Q N l (RegisterStart g workerEpoch wrapper) =
     (case registerStart Q g workerEpoch wrapper l of (l', ok) \<Rightarrow> (l', if ok then None else Some Ignored))"
| "ledgerStep Q N l (Apply input workerEpoch wrapper) =
     map_prod id Some (applyOutcome Q N input workerEpoch wrapper l)"
| "ledgerStep Q N l (Timeout ident generation workerEpoch wrapper) =
     map_prod id Some (timeout ident generation workerEpoch wrapper l)"
| "ledgerStep Q N l Clear = (ledger0, None)"

fun isEntry :: "ledgerEvent \<Rightarrow> Outcome option \<Rightarrow> bool" where
  "isEntry (RegisterStart _ _ _) x \<longleftrightarrow> x = None"
| "isEntry _ x \<longleftrightarrow> False"

fun isSettlement :: "ledgerEvent \<Rightarrow> Outcome option \<Rightarrow> bool" where
  "isSettlement (Apply _ _ _) x \<longleftrightarrow> x \<noteq> Some Ignored"
| "isSettlement _ x \<longleftrightarrow> False"

interpretation settlements: credit_machine "ledgerStep Q N" isEntry isSettlement
  "\<lambda>l. le_state l = Unstarted \<or> le_state l = TimedOut" for Q N
proof
  fix l e
  let ?l' = "fst (ledgerStep Q N l e)" and ?x = "snd (ledgerStep Q N l e)"
  show "isSettlement e ?x \<Longrightarrow>
      (le_state l = Unstarted \<or> le_state l = TimedOut) \<and> \<not> (le_state ?l' = Unstarted \<or> le_state ?l' = TimedOut)
      \<or> isEntry e ?x \<and> \<not> (le_state ?l' = Unstarted \<or> le_state ?l' = TimedOut)"
    by (cases e; cases "le_state l") (auto simp: applyOutcome_def ledgerMatches_def Let_def split: if_splits)
  show "le_state ?l' = Unstarted \<or> le_state ?l' = TimedOut \<Longrightarrow>
      (le_state l = Unstarted \<or> le_state l = TimedOut) \<or> isEntry e ?x"
    by (cases e) (auto simp: applyOutcome_def timeout_def registerStart_def ledger0_def Let_def split: if_splits)
qed

text \<open>A registered start is settled at most once; a timeout does not settle it.\<close>

lemma ledger_settles_once:
  "occurrences isSettlement (ledgerStep Q N) ledger0 es \<le> occurrences isEntry (ledgerStep Q N) ledger0 es"
  using settlements.spent_within [of Q N ledger0 es] by (simp add: ledger0_def)

end
