(* ===== verification/Servers_Repository.thy ===== *)
theory Servers_Repository
  imports Managed_Policy Qt_Reference "HOL-Library.Countable"
begin

text \<open>
  The repository of server profiles (\<open>core/repositories/secureServersRepository.cpp\<close>) and the
  classification of a profile (\<open>core/utils/serverConfigUtils.cpp\<close>): the profiles by identifier,
  their order, the default server and the settings they are written to. Every operation that changes
  the repository is a function on this state; the signals it emits are its result. Settings are the
  texts stored under a key; \<open>sv_writable\<close> says whether a write reaches them.
\<close>

section \<open>Classification of a profile\<close>

datatype ConfigType = AmneziaFreeV2 | AmneziaFreeV3 | AmneziaPremiumV1 | AmneziaPremiumV2 | SelfHosted
  | ExternalPremium | SelfHostedAdmin | SelfHostedUser | Native | Invalid

text \<open>
  What the repository takes from outside: Qt, the two endpoint texts the build defines, the JSON text
  of an array with its reader, and \<open>QVariant::toInt\<close> of a stored setting.
\<close>

record repositoryServices =
  rs_qt :: qt
  rs_freeV2Endpoint :: string
  rs_premiumV1Endpoint :: string
  rs_arrayText :: "json list \<Rightarrow> string"
  rs_arrayParse :: "string \<Rightarrow> json list"
  rs_settingInt :: "string \<Rightarrow> int"

definition thirdPartyMember :: "string \<times> json \<Rightarrow> bool" where
  "thirdPartyMember kv \<longleftrightarrow> fst kv \<noteq> ''container''
     \<and> obj_contains (to_object (snd kv)) ''isThirdPartyConfig''
     \<and> to_bool False (obj_value (to_object (snd kv)) ''isThirdPartyConfig'')"

definition hasThirdPartyConfig :: "jobject \<Rightarrow> bool" where
  "hasThirdPartyConfig ob \<longleftrightarrow>
     list_ex (\<lambda>v. list_ex thirdPartyMember (to_object v)) (to_array (obj_value ob ''containers''))"

definition configFormatVersion :: "jobject \<Rightarrow> int" where
  "configFormatVersion ob = to_int 0 (obj_value ob ''format_version'')"

definition isConfigFormatVersionSupported :: "jobject \<Rightarrow> bool" where
  "isConfigFormatVersionSupported ob \<longleftrightarrow> configFormatVersion ob \<le> 1"

text \<open>\<open>SelfHostedAdminServerConfig::fromJson(...).hasCredentials()\<close>.\<close>

definition hasCredentials :: "jobject \<Rightarrow> bool" where
  "hasCredentials ob \<longleftrightarrow> jstr (obj_value ob ''userName'') \<noteq> [] \<and> jstr (obj_value ob ''password'') \<noteq> []
     \<and> (if obj_contains ob ''port'' then to_int 0 (obj_value ob ''port'') else 0) > 0"

definition gatewayType :: "jobject \<Rightarrow> ConfigType option" where
  "gatewayType ob =
     (let serviceType = jstr (obj_value (to_object (obj_value ob ''api_config'')) ''service_type'') in
      if serviceType = ''amnezia-premium'' then Some AmneziaPremiumV2
      else if serviceType = ''amnezia-free'' then Some AmneziaFreeV3
      else if serviceType = ''external-premium'' then Some ExternalPremium
      else None)"

definition telegramType :: "repositoryServices \<Rightarrow> jobject \<Rightarrow> ConfigType option" where
  "telegramType R ob =
     (let endpoint = jstr (obj_value ob ''api_endpoint'') in
      if has_infix (rs_premiumV1Endpoint R) endpoint then Some AmneziaPremiumV1
      else if has_infix (rs_freeV2Endpoint R) endpoint then Some AmneziaFreeV2
      else None)"

definition configTypeFromJson :: "repositoryServices \<Rightarrow> jobject \<Rightarrow> ConfigType" where
  "configTypeFromJson R ob =
     (let configVersion = to_int 0 (obj_value ob ''config_version'');
          api = (if configVersion = 1 then
                   (case telegramType R ob of Some t \<Rightarrow> Some t | None \<Rightarrow> gatewayType ob)
                 else if configVersion = 2 then gatewayType ob else None) in
      case api of
        Some t \<Rightarrow> t
      | None \<Rightarrow>
          if hasThirdPartyConfig ob then Native
          else if hasCredentials ob then SelfHostedAdmin else SelfHostedUser)"

section \<open>The repository\<close>

record serversRepository =
  m_serverJsonById :: "string \<rightharpoonup> jobject"
  m_orderedServerIds :: "string list"
  m_defaultServerId :: string
  m_unsupportedFormatConfigsCount :: nat
  sv_settings :: "string \<rightharpoonup> string"
  sv_writable :: bool

datatype repositorySignal =
    ServerAdded string
  | ServerEdited string
  | ServerRemoved string nat
  | DefaultServerChanged string

definition storageServerId :: string where "storageServerId = ''storageServerId''"

definition readStorageServerId :: "repositoryServices \<Rightarrow> jobject \<Rightarrow> string" where
  "readStorageServerId R ob = trimmed (rs_qt R) (jstr (obj_value ob storageServerId))"

definition withoutStorageServerId :: "jobject \<Rightarrow> jobject" where
  "withoutStorageServerId ob = obj_remove storageServerId ob"

definition embedStorageServerId :: "string \<Rightarrow> jobject \<Rightarrow> jobject" where
  "embedStorageServerId serverId ob = obj_insert storageServerId (JString serverId) ob"

definition setValue :: "string \<Rightarrow> string \<Rightarrow> serversRepository \<Rightarrow> serversRepository" where
  "setValue key v s = (if sv_writable s then s\<lparr>sv_settings := (sv_settings s)(key \<mapsto> v)\<rparr> else s)"

definition clearServerStateMaps :: "serversRepository \<Rightarrow> serversRepository" where
  "clearServerStateMaps s = s\<lparr>m_serverJsonById := Map.empty, m_orderedServerIds := []\<rparr>"

definition normalizedOrGeneratedServerId ::
  "repositoryServices \<Rightarrow> string \<Rightarrow> serversRepository \<Rightarrow> string \<Rightarrow> string" where
  "normalizedOrGeneratedServerId R uuid s candidateId =
     (let t = trimmed (rs_qt R) candidateId in
      if t \<noteq> [] \<and> m_serverJsonById s t = None then t else uuid)"

text \<open>\<open>QVector::indexOf\<close>, with \<open>None\<close> for the result minus one.\<close>

fun position :: "'a \<Rightarrow> 'a list \<Rightarrow> nat option" where
  "position x [] = None"
| "position x (y # ys) = (if x = y then Some 0 else map_option Suc (position x ys))"

definition indexOfServerId :: "serversRepository \<Rightarrow> string \<Rightarrow> nat option" where
  "indexOfServerId s serverId = position serverId (m_orderedServerIds s)"

definition serverIdAt :: "serversRepository \<Rightarrow> int \<Rightarrow> string" where
  "serverIdAt s index =
     (if index < 0 \<or> int (length (m_orderedServerIds s)) \<le> index then []
      else m_orderedServerIds s ! nat index)"

definition defaultServerIndex :: "serversRepository \<Rightarrow> nat" where
  "defaultServerIndex s =
     (if m_orderedServerIds s = [] then 0
      else case position (m_defaultServerId s) (m_orderedServerIds s) of Some i \<Rightarrow> i | None \<Rightarrow> 0)"

definition storedJson :: "serversRepository \<Rightarrow> string \<Rightarrow> jobject" where
  "storedJson s serverId = (case m_serverJsonById s serverId of Some ob \<Rightarrow> ob | None \<Rightarrow> [])"

definition serverJson :: "serversRepository \<Rightarrow> int \<Rightarrow> jobject" where
  "serverJson s index =
     (let serverId = serverIdAt s index in
      if serverId = [] then [] else withoutStorageServerId (storedJson s serverId))"

definition serverKind :: "repositoryServices \<Rightarrow> serversRepository \<Rightarrow> string \<Rightarrow> ConfigType" where
  "serverKind R s serverId =
     (case m_serverJsonById s serverId of
        None \<Rightarrow> Invalid
      | Some ob \<Rightarrow> configTypeFromJson R (withoutStorageServerId ob))"

definition persistDefaultServerFields :: "serversRepository \<Rightarrow> serversRepository" where
  "persistDefaultServerFields s =
     (let s = (if m_orderedServerIds s = [] then s\<lparr>m_defaultServerId := []\<rparr>
               else if m_defaultServerId s \<notin> set (m_orderedServerIds s)
               then s\<lparr>m_defaultServerId := hd (m_orderedServerIds s)\<rparr> else s)
      in setValue ''Servers/defaultServerId'' (m_defaultServerId s) s)"

definition storedServers :: "serversRepository \<Rightarrow> json list" where
  "storedServers s = map JObject (List.map_filter (m_serverJsonById s) (m_orderedServerIds s))"

definition syncToStorage :: "repositoryServices \<Rightarrow> serversRepository \<Rightarrow> serversRepository" where
  "syncToStorage R s =
     persistDefaultServerFields (setValue ''Servers/serversList'' (rs_arrayText R (storedServers s)) s)"

definition settingText :: "serversRepository \<Rightarrow> string \<Rightarrow> string" where
  "settingText s key = (case sv_settings s key of Some t \<Rightarrow> t | None \<Rightarrow> [])"

definition updateDefaultServerFromStorage ::
  "repositoryServices \<Rightarrow> serversRepository \<Rightarrow> serversRepository" where
  "updateDefaultServerFromStorage R s =
     (let storedDefaultId = settingText s ''Servers/defaultServerId'' in
      if storedDefaultId \<noteq> [] \<and> m_serverJsonById s storedDefaultId \<noteq> None
      then s\<lparr>m_defaultServerId := storedDefaultId\<rparr>
      else
        let storedDefaultIndex = (case sv_settings s ''Servers/defaultServerIndex'' of
              None \<Rightarrow> 0 | Some t \<Rightarrow> rs_settingInt R t) in
        if 0 \<le> storedDefaultIndex \<and> storedDefaultIndex < int (length (m_orderedServerIds s))
        then s\<lparr>m_defaultServerId := m_orderedServerIds s ! nat storedDefaultIndex\<rparr>
        else if m_orderedServerIds s \<noteq> [] then s\<lparr>m_defaultServerId := hd (m_orderedServerIds s)\<rparr>
        else s\<lparr>m_defaultServerId := []\<rparr>)"

text \<open>One stored entry; \<open>uuid\<close> is the identifier generated when its own is blank or taken.\<close>

definition loadEntry ::
  "repositoryServices \<Rightarrow> serversRepository \<Rightarrow> json \<times> string \<Rightarrow> serversRepository" where
  "loadEntry R s entry =
     (let ob = to_object (fst entry);
          serverId = normalizedOrGeneratedServerId R (snd entry) s (readStorageServerId R ob);
          stripped = withoutStorageServerId ob in
      if \<not> isConfigFormatVersionSupported stripped
      then s\<lparr>m_unsupportedFormatConfigsCount := Suc (m_unsupportedFormatConfigsCount s)\<rparr>
      else if m_serverJsonById s serverId \<noteq> None \<or> configTypeFromJson R stripped = Invalid then s
      else s\<lparr>m_serverJsonById := (m_serverJsonById s)(serverId \<mapsto> embedStorageServerId serverId stripped),
             m_orderedServerIds := m_orderedServerIds s @ [serverId]\<rparr>)"

definition loadFromStorage ::
  "repositoryServices \<Rightarrow> (nat \<Rightarrow> string) \<Rightarrow> serversRepository \<Rightarrow> serversRepository" where
  "loadFromStorage R uuids s =
     (let s = (clearServerStateMaps s)\<lparr>m_unsupportedFormatConfigsCount := 0\<rparr>;
          entries = rs_arrayParse R (settingText s ''Servers/serversList'') in
      updateDefaultServerFromStorage R
        (foldl (loadEntry R) s (zip entries (map uuids [0..<length entries]))))"

definition invalidateCache ::
  "repositoryServices \<Rightarrow> (nat \<Rightarrow> string) \<Rightarrow> serversRepository \<Rightarrow> serversRepository" where
  "invalidateCache R uuids s = loadFromStorage R uuids s"

definition emptyRepository :: "(string \<rightharpoonup> string) \<Rightarrow> serversRepository" where
  "emptyRepository settings = \<lparr>m_serverJsonById = Map.empty, m_orderedServerIds = [], m_defaultServerId = [],
     m_unsupportedFormatConfigsCount = 0, sv_settings = settings, sv_writable = True\<rparr>"

text \<open>The constructor, over the stored settings.\<close>

definition openRepository ::
  "repositoryServices \<Rightarrow> (nat \<Rightarrow> string) \<Rightarrow> bool \<Rightarrow> (string \<rightharpoonup> string) \<Rightarrow> serversRepository" where
  "openRepository R uuids persistDefaultSelection settings =
     (let s = loadFromStorage R uuids (emptyRepository settings) in
      if persistDefaultSelection then persistDefaultServerFields s else s)"

definition clearServers :: "repositoryServices \<Rightarrow> serversRepository \<Rightarrow> serversRepository" where
  "clearServers R s = syncToStorage R ((clearServerStateMaps s)\<lparr>m_defaultServerId := []\<rparr>)"

section \<open>Operations on profiles\<close>

definition addServer ::
  "repositoryServices \<Rightarrow> string \<Rightarrow> serversRepository \<Rightarrow> string \<Rightarrow> jobject \<Rightarrow> ConfigType
   \<Rightarrow> (serversRepository \<times> repositorySignal list) \<times> string" where
  "addServer R uuid s serverId ob kind =
     (let sid = normalizedOrGeneratedServerId R uuid s serverId;
          stripped = withoutStorageServerId ob in
      if m_serverJsonById s sid \<noteq> None \<or> kind = Invalid then ((s, []), sid)
      else if \<not> isConfigFormatVersionSupported stripped \<or> configTypeFromJson R stripped \<noteq> kind
      then ((s, []), sid)
      else
        let stripped = fst (refreshEffectiveContentMetadata (rs_qt R) stripped);
            s = s\<lparr>m_serverJsonById := (m_serverJsonById s)(sid \<mapsto> embedStorageServerId sid stripped),
                  m_orderedServerIds := m_orderedServerIds s @ [sid],
                  m_defaultServerId := (if m_defaultServerId s = [] then sid else m_defaultServerId s)\<rparr>
        in ((syncToStorage R s, [ServerAdded sid]), sid))"

definition editServer ::
  "repositoryServices \<Rightarrow> serversRepository \<Rightarrow> string \<Rightarrow> jobject \<Rightarrow> ConfigType
   \<Rightarrow> serversRepository \<times> repositorySignal list" where
  "editServer R s serverId ob kind =
     (if indexOfServerId s serverId = None \<or> kind = Invalid then (s, [])
      else case m_serverJsonById s serverId of
        None \<Rightarrow> (s, [])
      | Some oldJson \<Rightarrow>
          let strippedOld = withoutStorageServerId oldJson;
              oldKind = configTypeFromJson R strippedOld;
              removed = s\<lparr>m_serverJsonById := (m_serverJsonById s)(serverId := None)\<rparr>;
              strippedNew = withoutStorageServerId ob in
          if configTypeFromJson R strippedNew \<noteq> kind
          then ((if oldKind \<noteq> Invalid \<and> configTypeFromJson R strippedOld = oldKind
                 then removed\<lparr>m_serverJsonById :=
                        (m_serverJsonById removed)(serverId \<mapsto> embedStorageServerId serverId strippedOld)\<rparr>
                 else removed), [])
          else
            let strippedNew = fst (refreshEffectiveContentMetadata (rs_qt R) strippedNew);
                edited = removed\<lparr>m_serverJsonById :=
                  (m_serverJsonById removed)(serverId \<mapsto> embedStorageServerId serverId strippedNew)\<rparr>
            in (syncToStorage R edited, [ServerEdited serverId]))"

definition removeServer ::
  "repositoryServices \<Rightarrow> serversRepository \<Rightarrow> string \<Rightarrow> serversRepository \<times> repositorySignal list" where
  "removeServer R s serverId =
     (case (indexOfServerId s serverId, m_serverJsonById s serverId) of
        (Some removedIndex, Some _) \<Rightarrow>
          let ids = take removedIndex (m_orderedServerIds s) @ drop (Suc removedIndex) (m_orderedServerIds s);
              s' = s\<lparr>m_serverJsonById := (m_serverJsonById s)(serverId := None), m_orderedServerIds := ids,
                m_defaultServerId :=
                  (if ids = [] then []
                   else if m_defaultServerId s = serverId then ids ! (min removedIndex (length ids - 1))
                   else if m_defaultServerId s \<notin> set ids then hd ids else m_defaultServerId s)\<rparr>;
              changed = (if m_defaultServerId s \<noteq> m_defaultServerId s' \<or> defaultServerIndex s \<noteq> defaultServerIndex s'
                         then [DefaultServerChanged (m_defaultServerId s')] else [])
          in (syncToStorage R s', changed @ [ServerRemoved serverId removedIndex])
      | _ \<Rightarrow> (s, []))"

definition setDefaultServer ::
  "serversRepository \<Rightarrow> string \<Rightarrow> serversRepository \<times> repositorySignal list" where
  "setDefaultServer s serverId =
     (if m_orderedServerIds s = [] \<or> m_serverJsonById s serverId = None \<or> indexOfServerId s serverId = None
         \<or> m_defaultServerId s = serverId then (s, [])
      else let s = persistDefaultServerFields (s\<lparr>m_defaultServerId := serverId\<rparr>)
           in (s, [DefaultServerChanged (m_defaultServerId s)]))"

definition editServerJson ::
  "repositoryServices \<Rightarrow> serversRepository \<Rightarrow> int \<Rightarrow> jobject \<Rightarrow> serversRepository \<times> repositorySignal list" where
  "editServerJson R s index ob =
     (let serverId = serverIdAt s index in
      if serverId = [] then (s, []) else editServer R s serverId ob (configTypeFromJson R ob))"

text \<open>The lowercase SHA-256 of the compact text of an object.\<close>

definition digest :: "qt \<Rightarrow> jobject \<Rightarrow> string" where
  "digest Q ob = to_hex (q_sha256 Q (q_jsonText Q ob))"

definition compareAndSwapServer ::
  "repositoryServices \<Rightarrow> serversRepository \<Rightarrow> string \<Rightarrow> string \<Rightarrow> jobject
   \<Rightarrow> (serversRepository \<times> repositorySignal list) \<times> bool" where
  "compareAndSwapServer R s serverId expectedHash replacement =
     (case m_serverJsonById s serverId of
        None \<Rightarrow> ((s, []), False)
      | Some previous \<Rightarrow>
          if digest (rs_qt R) previous \<noteq> expectedHash
             \<or> configTypeFromJson R (withoutStorageServerId replacement)
                 \<noteq> configTypeFromJson R (withoutStorageServerId previous)
          then ((s, []), False)
          else
            let next = embedStorageServerId serverId (withoutStorageServerId replacement);
                s' = syncToStorage R (s\<lparr>m_serverJsonById := (m_serverJsonById s)(serverId \<mapsto> next)\<rparr>);
                persisted = list_ex (\<lambda>entry. to_object entry = next)
                  (rs_arrayParse R (settingText s' ''Servers/serversList'')) in
            if \<not> persisted
            then ((s'\<lparr>m_serverJsonById := (m_serverJsonById s')(serverId \<mapsto> previous)\<rparr>, []), False)
            else ((s', [ServerEdited serverId]), True))"

section \<open>Managed sites of a profile\<close>

definition managedSitesKeys :: "RouteMode \<Rightarrow> string list" where
  "managedSitesKeys mode =
     (case mode of
        VpnAllExceptSites \<Rightarrow> [''managedSplitTunnelExceptSourceSites'', ''managedSplitTunnelExceptSites'']
      | _ \<Rightarrow> [])"

definition managedItem :: "qt \<Rightarrow> jobject \<Rightarrow> json \<Rightarrow> jobject" where
  "managedItem Q sites item =
     (if \<not> is_object item then sites
      else
        let siteObject = to_object item;
            site = trimmed Q (to_string (jstr (obj_value siteObject ''url'')) (obj_value siteObject ''hostname'')) in
        if site \<noteq> [] then obj_insert site (JString (jstr (obj_value siteObject ''ip''))) sites else sites)"

definition normalizedManagedSites :: "qt \<Rightarrow> json \<Rightarrow> jobject" where
  "normalizedManagedSites Q v =
     (case v of JObject ob \<Rightarrow> ob | JArray items \<Rightarrow> foldl (managedItem Q) [] items | _ \<Rightarrow> [])"

definition sourceManagedVpnSites :: "qt \<Rightarrow> jobject \<Rightarrow> RouteMode \<Rightarrow> jobject" where
  "sourceManagedVpnSites Q serverConfig mode =
     (if mode \<noteq> VpnAllExceptSites then []
      else if obj_contains serverConfig ''managedSplitTunnelExceptSourceSites''
      then normalizedManagedSites Q (obj_value serverConfig ''managedSplitTunnelExceptSourceSites'')
      else if obj_contains serverConfig ''managedSplitTunnelExceptSites''
      then normalizedManagedSites Q (obj_value serverConfig ''managedSplitTunnelExceptSites'')
      else normalizedManagedSites Q (obj_value serverConfig ''serverExcept''))"

definition rawManagedVpnSites :: "repositoryServices \<Rightarrow> serversRepository \<Rightarrow> int \<Rightarrow> RouteMode \<Rightarrow> jobject" where
  "rawManagedVpnSites R s serverIndex mode =
     (if serverIndex < 0 \<or> int (length (m_orderedServerIds s)) \<le> serverIndex then []
      else sourceManagedVpnSites (rs_qt R) (serverJson s serverIndex) mode)"

definition managedVpnSites ::
  "repositoryServices \<Rightarrow> qdatetime \<Rightarrow> serversRepository \<Rightarrow> int \<Rightarrow> RouteMode \<Rightarrow> jobject" where
  "managedVpnSites R now s serverIndex mode =
     (if serverIndex < 0 \<or> int (length (m_orderedServerIds s)) \<le> serverIndex then []
      else if \<not> isEffective (rs_qt R) (serverJson s serverIndex) now then []
      else rawManagedVpnSites R s serverIndex mode)"

definition staleSiteKeys :: "string list" where
  "staleSiteKeys = [''serverExcept'', ''managedSplitTunnelClientResolvedExceptSites'',
     ''managedSplitTunnelClientResolvedAt'', ''managedSplitTunnelClientResolveRetryAfter'',
     ''managedSplitTunnelClientResolvePendingSites'', ''managedSplitTunnelClientResolvePendingSourceDigest'',
     ''managedSplitTunnelClientResolveLastFullSweepAt'']"

definition withManagedSites :: "RouteMode \<Rightarrow> jobject \<Rightarrow> jobject \<Rightarrow> jobject" where
  "withManagedSites mode sites config =
     foldl (\<lambda>c k. obj_remove k c)
       (foldl (\<lambda>c k. obj_insert k (JObject sites) c) config (managedSitesKeys mode)) staleSiteKeys"

definition setManagedVpnSites ::
  "repositoryServices \<Rightarrow> serversRepository \<Rightarrow> int \<Rightarrow> RouteMode \<Rightarrow> jobject
   \<Rightarrow> serversRepository \<times> repositorySignal list" where
  "setManagedVpnSites R s serverIndex mode sites =
     (if serverIndex < 0 \<or> int (length (m_orderedServerIds s)) \<le> serverIndex \<or> managedSitesKeys mode = []
      then (s, [])
      else
        let (jsonSites, valid) = canonicalSourceSites (rs_qt R) (JObject sites) in
        if \<not> valid then (s, [])
        else editServerJson R s serverIndex (withManagedSites mode jsonSites (serverJson s serverIndex)))"

definition addManagedVpnSite ::
  "repositoryServices \<Rightarrow> serversRepository \<Rightarrow> int \<Rightarrow> RouteMode \<Rightarrow> string \<Rightarrow> string
   \<Rightarrow> (serversRepository \<times> repositorySignal list) \<times> bool" where
  "addManagedVpnSite R s serverIndex mode site ip =
     (let sites = rawManagedVpnSites R s serverIndex mode in
      if obj_contains sites site \<and> ip = [] then ((s, []), False)
      else
        let sites = obj_insert site (JString ip) sites in
        if \<not> snd (canonicalSourceSites (rs_qt R) (JObject sites)) then ((s, []), False)
        else (setManagedVpnSites R s serverIndex mode sites, True))"

definition addManagedVpnSites ::
  "repositoryServices \<Rightarrow> serversRepository \<Rightarrow> int \<Rightarrow> RouteMode \<Rightarrow> (string \<times> string) list
   \<Rightarrow> serversRepository \<times> repositorySignal list" where
  "addManagedVpnSites R s serverIndex mode sites =
     setManagedVpnSites R s serverIndex mode
       (foldl (\<lambda>allSites (site, ip).
          if obj_contains allSites site \<and> obj_value allSites site = JString ip then allSites
          else obj_insert site (JString ip) allSites) (rawManagedVpnSites R s serverIndex mode) sites)"

definition removeManagedVpnSite ::
  "repositoryServices \<Rightarrow> serversRepository \<Rightarrow> int \<Rightarrow> RouteMode \<Rightarrow> string
   \<Rightarrow> serversRepository \<times> repositorySignal list" where
  "removeManagedVpnSite R s serverIndex mode site =
     (let sites = rawManagedVpnSites R s serverIndex mode in
      if \<not> obj_contains sites site then (s, [])
      else setManagedVpnSites R s serverIndex mode (obj_remove site sites))"

definition removeAllManagedVpnSites ::
  "repositoryServices \<Rightarrow> serversRepository \<Rightarrow> int \<Rightarrow> RouteMode \<Rightarrow> serversRepository \<times> repositorySignal list" where
  "removeAllManagedVpnSites R s serverIndex mode = setManagedVpnSites R s serverIndex mode []"

definition setManagedSplitTunnelingForceEnabled ::
  "repositoryServices \<Rightarrow> serversRepository \<Rightarrow> int \<Rightarrow> bool \<Rightarrow> serversRepository \<times> repositorySignal list" where
  "setManagedSplitTunnelingForceEnabled R s serverIndex enabled =
     (if serverIndex < 0 \<or> int (length (m_orderedServerIds s)) \<le> serverIndex then (s, [])
      else
        let config = serverJson s serverIndex in
        editServerJson R s serverIndex
          (if enabled then obj_insert ''managedSplitTunnelForceEnabled'' (JBool True) config
           else obj_remove ''managedSplitTunnelForceEnabled'' config))"

section \<open>The invariant of the repository\<close>

lemma wf_obj_remove: "wf_obj ob \<Longrightarrow> wf_obj (obj_remove k ob)"
  using wf_obj_insert [of ob k JUndefined] by (simp add: obj_insert_def)

lemma embed_without:
  assumes "wf_obj ob" "obj_value ob storageServerId = JString sid"
  shows "embedStorageServerId sid (withoutStorageServerId ob) = ob"
  using assms
  by (intro wf_obj_eqI) (auto simp: embedStorageServerId_def withoutStorageServerId_def wf_obj_insert wf_obj_remove)

lemma embed_facts [simp]:
  "obj_value (embedStorageServerId sid ob) storageServerId = JString sid"
  "\<not> obj_contains (withoutStorageServerId ob) storageServerId"
  "obj_value (withoutStorageServerId ob) storageServerId = JUndefined"
  "wf_obj ob \<Longrightarrow> wf_obj (withoutStorageServerId ob)"
  "wf_obj ob \<Longrightarrow> wf_obj (embedStorageServerId sid ob)"
  by (simp_all add: embedStorageServerId_def withoutStorageServerId_def wf_obj_remove wf_obj_insert
      obj_contains_def map_of_obj_remove)

lemma wf_refresh: "wf_obj ob \<Longrightarrow> wf_obj (fst (refreshEffectiveContentMetadata Q ob))"
  by (simp add: refreshEffectiveContentMetadata_def storeLastKnownGood_def Let_def wf_obj_insert
      split: option.split)

lemma configTypeFromJson_valid: "configTypeFromJson R ob \<noteq> Invalid"
  by (auto simp: configTypeFromJson_def telegramType_def gatewayType_def Let_def split: option.splits if_splits)

text \<open>
  Identifiers are distinct, neither blank nor padded, and are exactly those with a profile; every profile
  carries its own identifier.
\<close>

definition repoCore :: "repositoryServices \<Rightarrow> serversRepository \<Rightarrow> bool" where
  "repoCore R s \<longleftrightarrow> distinct (m_orderedServerIds s) \<and> dom (m_serverJsonById s) = set (m_orderedServerIds s)
     \<and> (\<forall>sid ob. m_serverJsonById s sid = Some ob \<longrightarrow> wf_obj ob \<and> obj_value ob storageServerId = JString sid)
     \<and> (\<forall>sid \<in> set (m_orderedServerIds s). sid \<noteq> [] \<and> trimmed (rs_qt R) sid = sid)"

definition repoDefault :: "serversRepository \<Rightarrow> bool" where
  "repoDefault s \<longleftrightarrow> (if m_orderedServerIds s = [] then m_defaultServerId s = []
                      else m_defaultServerId s \<in> set (m_orderedServerIds s))"

definition repoInv :: "repositoryServices \<Rightarrow> serversRepository \<Rightarrow> bool" where
  "repoInv R s \<longleftrightarrow> repoCore R s \<and> repoDefault s"

lemma setValue_simps [simp]:
  "m_serverJsonById (setValue k v s) = m_serverJsonById s"
  "m_orderedServerIds (setValue k v s) = m_orderedServerIds s"
  "m_defaultServerId (setValue k v s) = m_defaultServerId s"
  "sv_writable (setValue k v s) = sv_writable s"
  by (simp_all add: setValue_def)

lemma sync_simps [simp]:
  "m_serverJsonById (syncToStorage R s) = m_serverJsonById s"
  "m_orderedServerIds (syncToStorage R s) = m_orderedServerIds s"
  "m_serverJsonById (persistDefaultServerFields s) = m_serverJsonById s"
  "m_orderedServerIds (persistDefaultServerFields s) = m_orderedServerIds s"
  by (simp_all add: syncToStorage_def persistDefaultServerFields_def)

lemma repoDefault_persist: "repoDefault (persistDefaultServerFields s)"
  by (simp add: repoDefault_def persistDefaultServerFields_def)

lemma repoCore_cong:
  "m_serverJsonById s = m_serverJsonById t \<Longrightarrow> m_orderedServerIds s = m_orderedServerIds t
   \<Longrightarrow> repoCore R s = repoCore R t"
  by (simp add: repoCore_def)

lemma repoInv_sync: "repoCore R s \<Longrightarrow> repoInv R (syncToStorage R s)"
  unfolding repoInv_def using repoCore_cong [of "syncToStorage R s" s R]
  by (simp add: syncToStorage_def repoDefault_persist)

lemma repoCore_append:
  assumes "repoCore R s" "m_serverJsonById s sid = None" "sid \<noteq> []" "trimmed (rs_qt R) sid = sid" "wf_obj ob"
    and t: "m_serverJsonById t = (m_serverJsonById s)(sid \<mapsto> embedStorageServerId sid ob)"
      "m_orderedServerIds t = m_orderedServerIds s @ [sid]"
  shows "repoCore R t"
proof -
  have "sid \<notin> set (m_orderedServerIds s)" using assms(1,2) by (auto simp: repoCore_def)
  with assms show ?thesis by (auto simp: repoCore_def split: if_splits)
qed

lemma repoCore_replace:
  assumes "repoCore R s" "m_serverJsonById s sid \<noteq> None" "wf_obj ob"
    and t: "m_serverJsonById t = (m_serverJsonById s)(sid \<mapsto> embedStorageServerId sid ob)"
      "m_orderedServerIds t = m_orderedServerIds s"
  shows "repoCore R t"
  using assms by (auto simp: repoCore_def split: if_splits)

lemma repoInv_core: "repoInv R s \<Longrightarrow> repoCore R s"
  by (simp add: repoInv_def)

text \<open>An identifier the repository may generate: neither blank nor padded.\<close>

definition plainId :: "repositoryServices \<Rightarrow> string \<Rightarrow> bool" where
  "plainId R u \<longleftrightarrow> u \<noteq> [] \<and> trimmed (rs_qt R) u = u"

lemma normalized_plain:
  "plainId R uuid \<Longrightarrow> plainId R (normalizedOrGeneratedServerId R uuid s candidate)"
  by (simp add: normalizedOrGeneratedServerId_def plainId_def Let_def)

lemma addServer_inv:
  assumes "repoInv R s" "plainId R uuid" "wf_obj ob"
  shows "repoInv R (fst (fst (addServer R uuid s serverId ob kind)))"
proof -
  let ?sid = "normalizedOrGeneratedServerId R uuid s serverId"
  let ?new = "fst (refreshEffectiveContentMetadata (rs_qt R) (withoutStorageServerId ob))"
  let ?t = "s\<lparr>m_serverJsonById := (m_serverJsonById s)(?sid \<mapsto> embedStorageServerId ?sid ?new),
              m_orderedServerIds := m_orderedServerIds s @ [?sid],
              m_defaultServerId := (if m_defaultServerId s = [] then ?sid else m_defaultServerId s)\<rparr>"
  have sid: "?sid \<noteq> []" "trimmed (rs_qt R) ?sid = ?sid"
    using normalized_plain [OF assms(2)] by (simp_all add: plainId_def)
  have "repoInv R (syncToStorage R ?t)" if "m_serverJsonById s ?sid = None"
    by (intro repoInv_sync repoCore_append [OF repoInv_core [OF assms(1)] that sid, of ?new])
       (simp_all add: wf_refresh assms)
  then show ?thesis using assms(1) by (simp add: addServer_def Let_def)
qed

lemma editServer_inv:
  assumes "repoInv R s" "wf_obj ob"
  shows "repoInv R (fst (editServer R s serverId ob kind))"
proof (cases "indexOfServerId s serverId = None \<or> kind = Invalid \<or> m_serverJsonById s serverId = None")
  case False
  then obtain old where old: "m_serverJsonById s serverId = Some old" by auto
  let ?new = "fst (refreshEffectiveContentMetadata (rs_qt R) (withoutStorageServerId ob))"
  let ?t = "s\<lparr>m_serverJsonById := (m_serverJsonById s)(serverId \<mapsto> embedStorageServerId serverId ?new)\<rparr>"
  have emb: "embedStorageServerId serverId (withoutStorageServerId old) = old"
    using assms(1) old by (intro embed_without) (auto simp: repoInv_def repoCore_def)
  have "repoInv R (syncToStorage R ?t)"
    by (intro repoInv_sync repoCore_replace [OF repoInv_core [OF assms(1)], of serverId ?new])
       (simp_all add: wf_refresh assms old)
  moreover have "s\<lparr>m_serverJsonById := (m_serverJsonById s)(serverId \<mapsto> old)\<rparr> = s"
    using old by (simp add: map_upd_triv)
  ultimately show ?thesis using False old assms(1) emb
    by (simp add: editServer_def Let_def configTypeFromJson_valid)
qed (use assms in \<open>auto simp: editServer_def split: option.split\<close>)

lemma position_Some: "position x xs = Some i \<Longrightarrow> i < length xs \<and> xs ! i = x"
  by (induction xs arbitrary: i) (auto split: if_splits)

lemma position_None: "position x xs = None \<longleftrightarrow> x \<notin> set xs"
  by (induction xs) auto

lemma set_removeAt:
  "distinct xs \<Longrightarrow> i < length xs \<Longrightarrow> set (take i xs @ drop (Suc i) xs) = set xs - {xs ! i}
   \<and> distinct (take i xs @ drop (Suc i) xs)"
proof -
  assume a: "distinct xs" "i < length xs"
  then have "xs = take i xs @ xs ! i # drop (Suc i) xs" by (simp add: id_take_nth_drop)
  then have "distinct (take i xs @ xs ! i # drop (Suc i) xs)"
    and "set xs = insert (xs ! i) (set (take i xs) \<union> set (drop (Suc i) xs))"
    using a(1) by (metis, metis Un_insert_right list.simps(15) set_append)
  then show ?thesis by auto
qed

lemma repoCore_drop:
  assumes "repoCore R s" "indexOfServerId s sid = Some i"
    and t: "m_serverJsonById t = (m_serverJsonById s)(sid := None)"
      "m_orderedServerIds t = take i (m_orderedServerIds s) @ drop (Suc i) (m_orderedServerIds s)"
  shows "repoCore R t"
proof -
  have "i < length (m_orderedServerIds s)" "m_orderedServerIds s ! i = sid"
    using position_Some [of sid "m_orderedServerIds s" i] assms(2) by (simp_all add: indexOfServerId_def)
  then have ids: "set (m_orderedServerIds t) = set (m_orderedServerIds s) - {sid}" "distinct (m_orderedServerIds t)"
    using set_removeAt [of "m_orderedServerIds s" i] assms(1) unfolding t repoCore_def by blast+
  have "m_serverJsonById t = (m_serverJsonById s)(sid := None)" by (rule t)
  with ids assms(1) show ?thesis by (auto simp: repoCore_def split: if_splits)
qed

lemma removeServer_inv: "repoInv R s \<Longrightarrow> repoInv R (fst (removeServer R s serverId))"
  by (auto simp: removeServer_def Let_def split: option.splits
      intro!: repoInv_sync repoCore_drop [OF repoInv_core])

lemma repoInv_same:
  "\<lbrakk>repoInv R s; m_serverJsonById t = m_serverJsonById s; m_orderedServerIds t = m_orderedServerIds s;
    repoDefault t\<rbrakk> \<Longrightarrow> repoInv R t"
  using repoCore_cong [of t s R] by (simp add: repoInv_def)

lemma setDefaultServer_inv: "repoInv R s \<Longrightarrow> repoInv R (fst (setDefaultServer s serverId))"
  by (auto simp: setDefaultServer_def Let_def repoDefault_persist intro: repoInv_same)

lemma clearServers_inv: "repoInv R (clearServers R s)"
  unfolding clearServers_def by (rule repoInv_sync) (simp add: repoCore_def clearServerStateMaps_def)

lemma editServerJson_inv:
  "\<lbrakk>repoInv R s; wf_obj ob\<rbrakk> \<Longrightarrow> repoInv R (fst (editServerJson R s index ob))"
  by (simp add: editServerJson_def Let_def editServer_inv)

lemma compareAndSwapServer_inv:
  assumes "repoInv R s" "wf_obj ob"
  shows "repoInv R (fst (fst (compareAndSwapServer R s serverId expected ob)))"
proof (cases "m_serverJsonById s serverId")
  case (Some previous)
  let ?next = "withoutStorageServerId ob"
  let ?t = "syncToStorage R (s\<lparr>m_serverJsonById := (m_serverJsonById s)(serverId \<mapsto> embedStorageServerId serverId ?next)\<rparr>)"
  have new: "repoInv R ?t"
    by (intro repoInv_sync repoCore_replace [OF repoInv_core [OF assms(1)], of serverId ?next])
       (simp_all add: assms Some)
  have "(m_serverJsonById ?t)(serverId \<mapsto> previous) = m_serverJsonById s"
    using Some by (auto simp: fun_eq_iff)
  then have "repoInv R (?t\<lparr>m_serverJsonById := (m_serverJsonById ?t)(serverId \<mapsto> previous)\<rparr>)"
    using new by (intro repoInv_same [OF assms(1)]) (simp_all add: repoInv_def repoDefault_def split: if_splits)
  with new Some assms show ?thesis by (simp add: compareAndSwapServer_def Let_def)
qed (use assms in \<open>simp add: compareAndSwapServer_def\<close>)

lemma wf_foldl_insert: "wf_obj ob \<Longrightarrow> wf_obj (foldl (\<lambda>c k. obj_insert k v c) ob ks)"
  by (induction ks arbitrary: ob) (simp_all add: wf_obj_insert)

lemma wf_foldl_remove: "wf_obj ob \<Longrightarrow> wf_obj (foldl (\<lambda>c k. obj_remove k c) ob ks)"
  by (induction ks arbitrary: ob) (simp_all add: wf_obj_remove)

lemma wf_serverJson: "repoInv R s \<Longrightarrow> wf_obj (serverJson s index)"
  by (auto simp: serverJson_def Let_def storedJson_def repoInv_def repoCore_def split: option.split)

lemma setManagedVpnSites_inv: "repoInv R s \<Longrightarrow> repoInv R (fst (setManagedVpnSites R s index mode sites))"
  by (auto simp: setManagedVpnSites_def withManagedSites_def case_prod_beta
      intro!: editServerJson_inv wf_foldl_remove wf_foldl_insert wf_serverJson)

lemma addManagedVpnSite_inv: "repoInv R s \<Longrightarrow> repoInv R (fst (fst (addManagedVpnSite R s index mode site ip)))"
  by (simp add: addManagedVpnSite_def Let_def setManagedVpnSites_inv)

lemma removeManagedVpnSite_inv: "repoInv R s \<Longrightarrow> repoInv R (fst (removeManagedVpnSite R s index mode site))"
  by (simp add: removeManagedVpnSite_def Let_def setManagedVpnSites_inv)

lemma addManagedVpnSites_inv: "repoInv R s \<Longrightarrow> repoInv R (fst (addManagedVpnSites R s index mode sites))"
  by (simp add: addManagedVpnSites_def setManagedVpnSites_inv)

lemma removeAllManagedVpnSites_inv: "repoInv R s \<Longrightarrow> repoInv R (fst (removeAllManagedVpnSites R s index mode))"
  by (simp add: removeAllManagedVpnSites_def setManagedVpnSites_inv)

lemma setForceEnabled_inv:
  "repoInv R s \<Longrightarrow> repoInv R (fst (setManagedSplitTunnelingForceEnabled R s index enabled))"
  by (simp add: setManagedSplitTunnelingForceEnabled_def Let_def editServerJson_inv wf_obj_insert wf_obj_remove
      wf_serverJson)

section \<open>Loading the stored profiles\<close>

text \<open>
  What the theorems take from the JSON services: the reader only yields objects with sorted members, and
  reads back an array of such objects from its own text.
\<close>

definition services_ok :: "repositoryServices \<Rightarrow> bool" where
  "services_ok R \<longleftrightarrow>
     (\<forall>t. \<forall>e \<in> set (rs_arrayParse R t). wf_obj (to_object e))
   \<and> (\<forall>obs. list_all wf_obj obs \<longrightarrow> rs_arrayParse R (rs_arrayText R (map JObject obs)) = map JObject obs)"

lemma loadEntry_inv:
  assumes "repoCore R s" "plainId R uuid" "wf_obj (to_object e)"
  shows "repoCore R (loadEntry R s (e, uuid))"
proof -
  let ?ob = "to_object e"
  let ?sid = "normalizedOrGeneratedServerId R uuid s (readStorageServerId R ?ob)"
  have sid: "?sid \<noteq> []" "trimmed (rs_qt R) ?sid = ?sid"
    using normalized_plain [OF assms(2)] by (simp_all add: plainId_def)
  have "repoCore R (s\<lparr>m_serverJsonById := (m_serverJsonById s)(?sid \<mapsto> embedStorageServerId ?sid (withoutStorageServerId ?ob)),
             m_orderedServerIds := m_orderedServerIds s @ [?sid]\<rparr>)" if "m_serverJsonById s ?sid = None"
    by (intro repoCore_append [OF assms(1) that sid, of "withoutStorageServerId ?ob"]) (simp_all add: assms)
  moreover have "repoCore R (s\<lparr>m_unsupportedFormatConfigsCount := n\<rparr>)" for n
    using assms(1) by (simp add: repoCore_def)
  ultimately show ?thesis using assms(1) by (simp add: loadEntry_def Let_def)
qed

lemma loadEntries_inv:
  "\<lbrakk>repoCore R s; \<forall>(e, u) \<in> set es. wf_obj (to_object e) \<and> plainId R u\<rbrakk> \<Longrightarrow> repoCore R (foldl (loadEntry R) s es)"
  by (induction es arbitrary: s) (auto simp: loadEntry_inv)

lemma updateDefault_inv: "repoCore R s \<Longrightarrow> repoInv R (updateDefaultServerFromStorage R s)"
proof -
  assume core: "repoCore R s"
  let ?t = "updateDefaultServerFromStorage R s"
  have "m_serverJsonById ?t = m_serverJsonById s" "m_orderedServerIds ?t = m_orderedServerIds s"
    by (simp_all add: updateDefaultServerFromStorage_def Let_def)
  moreover have "repoDefault ?t"
    using core by (auto simp: updateDefaultServerFromStorage_def Let_def repoDefault_def repoCore_def
        nat_less_iff split: option.splits if_splits)
  ultimately show ?thesis using core repoCore_cong [of ?t s R] by (simp add: repoInv_def)
qed

lemma loadFromStorage_inv:
  assumes "services_ok R" "\<forall>n. plainId R (uuids n)"
  shows "repoInv R (loadFromStorage R uuids s)"
proof -
  have "wf_obj (to_object e) \<and> plainId R u"
    if "(e, u) \<in> set (zip (rs_arrayParse R t) (map uuids ns))" for e u t ns
    using assms set_zip_leftD [OF that] set_zip_rightD [OF that] by (auto simp: services_ok_def)
  then show ?thesis unfolding loadFromStorage_def Let_def
    by (intro updateDefault_inv loadEntries_inv) (auto simp: repoCore_def clearServerStateMaps_def)
qed

text \<open>Whether a stored profile has a format this version of the client reads.\<close>

definition supportedId :: "serversRepository \<Rightarrow> string \<Rightarrow> bool" where
  "supportedId s sid \<longleftrightarrow> isConfigFormatVersionSupported (withoutStorageServerId (storedJson s sid))"

lemma loadEntry_stored:
  assumes "repoCore R s" "sid \<in> set (m_orderedServerIds s)" "m_serverJsonById t sid = None"
  shows "loadEntry R t (JObject (storedJson s sid), u) =
    (if supportedId s sid
     then t\<lparr>m_serverJsonById := (m_serverJsonById t)(sid \<mapsto> storedJson s sid),
            m_orderedServerIds := m_orderedServerIds t @ [sid]\<rparr>
     else t\<lparr>m_unsupportedFormatConfigsCount := Suc (m_unsupportedFormatConfigsCount t)\<rparr>)"
proof -
  have "sid \<in> dom (m_serverJsonById s)" using assms(1,2) by (simp add: repoCore_def)
  then obtain ob where ob: "m_serverJsonById s sid = Some ob" by blast
  then have "wf_obj ob" "obj_value ob storageServerId = JString sid" using assms(1) by (auto simp: repoCore_def)
  moreover have "sid \<noteq> []" "trimmed (rs_qt R) sid = sid" using assms(1,2) by (auto simp: repoCore_def)
  ultimately show ?thesis using assms(3) ob
    by (simp add: loadEntry_def Let_def readStorageServerId_def normalizedOrGeneratedServerId_def
        storedJson_def supportedId_def configTypeFromJson_valid embed_without)
qed

lemma loadEntries_stored:
  assumes "repoCore R s" "distinct ids" "set ids \<subseteq> set (m_orderedServerIds s)"
    and "\<forall>sid \<in> set ids. m_serverJsonById t sid = None" "length us = length ids"
  shows "foldl (loadEntry R) t (zip (map (\<lambda>sid. JObject (storedJson s sid)) ids) us) =
    t\<lparr>m_serverJsonById := m_serverJsonById t ++ (m_serverJsonById s |` set (filter (supportedId s) ids)),
      m_orderedServerIds := m_orderedServerIds t @ filter (supportedId s) ids,
      m_unsupportedFormatConfigsCount := m_unsupportedFormatConfigsCount t
        + length (filter (\<lambda>sid. \<not> supportedId s sid) ids)\<rparr>"
  using assms(2-)
proof (induction ids arbitrary: t us)
  case (Cons sid ids)
  then obtain u us' where us: "us = u # us'" "length us' = length ids" by (cases us) auto
  have "sid \<in> dom (m_serverJsonById s)" using Cons.prems(2) assms(1) by (auto simp: repoCore_def)
  then have stored: "m_serverJsonById s sid = Some (storedJson s sid)" by (auto simp: storedJson_def)
  have step: "loadEntry R t (JObject (storedJson s sid), u) =
    (if supportedId s sid
     then t\<lparr>m_serverJsonById := (m_serverJsonById t)(sid \<mapsto> storedJson s sid),
            m_orderedServerIds := m_orderedServerIds t @ [sid]\<rparr>
     else t\<lparr>m_unsupportedFormatConfigsCount := Suc (m_unsupportedFormatConfigsCount t)\<rparr>)"
    using Cons.prems by (intro loadEntry_stored [OF assms(1)]) auto
  have "sid \<notin> set ids" using Cons.prems(1) by simp
  then have upd: "(m_serverJsonById t)(sid \<mapsto> storedJson s sid) ++ (m_serverJsonById s |` set (filter (supportedId s) ids))
      = m_serverJsonById t ++ (m_serverJsonById s |` insert sid (set (filter (supportedId s) ids)))"
    using stored by (auto simp: fun_eq_iff map_add_def restrict_map_def split: option.splits)
  have "foldl (loadEntry R) (loadEntry R t (JObject (storedJson s sid), u))
      (zip (map (\<lambda>sid. JObject (storedJson s sid)) ids) us') =
    (loadEntry R t (JObject (storedJson s sid), u))
    \<lparr>m_serverJsonById := m_serverJsonById (loadEntry R t (JObject (storedJson s sid), u))
         ++ (m_serverJsonById s |` set (filter (supportedId s) ids)),
      m_orderedServerIds := m_orderedServerIds (loadEntry R t (JObject (storedJson s sid), u)) @ filter (supportedId s) ids,
      m_unsupportedFormatConfigsCount := m_unsupportedFormatConfigsCount (loadEntry R t (JObject (storedJson s sid), u))
        + length (filter (\<lambda>sid. \<not> supportedId s sid) ids)\<rparr>"
    using Cons.prems us(2) \<open>sid \<notin> set ids\<close> by (intro Cons.IH) (auto simp: step)
  then show ?case using us(1) upd by (simp add: step)
qed simp

lemma storedServers_eq:
  assumes "repoCore R s"
  shows "storedServers s = map JObject (map (storedJson s) (m_orderedServerIds s))"
proof -
  have "List.map_filter (m_serverJsonById s) ids = map (storedJson s) ids"
    if "set ids \<subseteq> dom (m_serverJsonById s)" for ids
    using that by (induction ids) (auto simp: storedJson_def)
  with assms show ?thesis by (simp add: storedServers_def repoCore_def)
qed

lemma sync_list:
  assumes "repoCore R s" "sv_writable s"
  shows "settingText (syncToStorage R s) ''Servers/serversList''
      = rs_arrayText R (map JObject (map (storedJson s) (m_orderedServerIds s)))"
proof -
  have "sv_settings (persistDefaultServerFields u) ''Servers/serversList'' = sv_settings u ''Servers/serversList''" for u
    by (simp add: persistDefaultServerFields_def setValue_def Let_def)
  then show ?thesis using assms(2) by (simp add: syncToStorage_def settingText_def setValue_def storedServers_eq [OF assms(1)])
qed

lemma load_after_sync:
  assumes "services_ok R" "repoCore R s" "sv_writable s"
  shows "m_orderedServerIds (loadFromStorage R uuids (syncToStorage R s)) = filter (supportedId s) (m_orderedServerIds s)"
    and "m_serverJsonById (loadFromStorage R uuids (syncToStorage R s))
      = m_serverJsonById s |` {sid. supportedId s sid}"
    and "m_unsupportedFormatConfigsCount (loadFromStorage R uuids (syncToStorage R s))
      = length (filter (\<lambda>sid. \<not> supportedId s sid) (m_orderedServerIds s))"
proof -
  let ?ids = "m_orderedServerIds s" and ?y = "syncToStorage R s"
  let ?t = "(clearServerStateMaps ?y)\<lparr>m_unsupportedFormatConfigsCount := 0\<rparr>"
  have "list_all wf_obj (map (storedJson s) ?ids)"
    using assms(2) by (auto simp: list_all_iff repoCore_def storedJson_def split: option.split)
  then have parse: "rs_arrayParse R (settingText ?t ''Servers/serversList'') = map (\<lambda>sid. JObject (storedJson s sid)) ?ids"
    using sync_list [OF assms(2,3)] assms(1) [unfolded services_ok_def, THEN conjunct2, rule_format,
      of "map (storedJson s) ?ids"]
    by (simp add: settingText_def clearServerStateMaps_def comp_def)
  have core: "distinct ?ids" "dom (m_serverJsonById s) = set ?ids" using assms(2) by (simp_all add: repoCore_def)
  have fold: "foldl (loadEntry R) ?t (zip (map (\<lambda>sid. JObject (storedJson s sid)) ?ids) (map uuids [0..<length ?ids]))
     = ?t\<lparr>m_serverJsonById := m_serverJsonById ?t ++ (m_serverJsonById s |` set (filter (supportedId s) ?ids)),
      m_orderedServerIds := m_orderedServerIds ?t @ filter (supportedId s) ?ids,
      m_unsupportedFormatConfigsCount := m_unsupportedFormatConfigsCount ?t
        + length (filter (\<lambda>sid. \<not> supportedId s sid) ?ids)\<rparr>"
    by (rule loadEntries_stored [OF assms(2)]) (simp_all add: core clearServerStateMaps_def)
  have upd: "m_orderedServerIds (updateDefaultServerFromStorage R u) = m_orderedServerIds u"
    "m_serverJsonById (updateDefaultServerFromStorage R u) = m_serverJsonById u"
    "m_unsupportedFormatConfigsCount (updateDefaultServerFromStorage R u) = m_unsupportedFormatConfigsCount u" for u
    by (simp_all add: updateDefaultServerFromStorage_def Let_def)
  have "m_serverJsonById s |` set (filter (supportedId s) ?ids) = m_serverJsonById s |` {sid. supportedId s sid}"
    using domIff [of _ "m_serverJsonById s"] unfolding core(2) by (auto simp: fun_eq_iff restrict_map_def)
  moreover have "loadFromStorage R uuids ?y = updateDefaultServerFromStorage R (foldl (loadEntry R) ?t
      (zip (map (\<lambda>sid. JObject (storedJson s sid)) ?ids) (map uuids [0..<length ?ids])))"
    by (simp only: loadFromStorage_def Let_def parse length_map)
  ultimately show "m_orderedServerIds (loadFromStorage R uuids ?y) = filter (supportedId s) ?ids"
    "m_serverJsonById (loadFromStorage R uuids ?y) = m_serverJsonById s |` {sid. supportedId s sid}"
    "m_unsupportedFormatConfigsCount (loadFromStorage R uuids ?y)
      = length (filter (\<lambda>sid. \<not> supportedId s sid) ?ids)"
    unfolding fold by (simp_all add: upd clearServerStateMaps_def)
qed

lemma load_default_after_sync:
  assumes "services_ok R" "repoCore R s" "sv_writable s" "list_all (supportedId s) (m_orderedServerIds s)"
  shows "m_defaultServerId (loadFromStorage R uuids (syncToStorage R s)) = m_defaultServerId (syncToStorage R s)"
proof -
  let ?y = "syncToStorage R s"
  define u where "u = foldl (loadEntry R) ((clearServerStateMaps ?y)\<lparr>m_unsupportedFormatConfigsCount := 0\<rparr>)
    (zip (rs_arrayParse R (settingText ?y ''Servers/serversList''))
       (map uuids [0..<length (rs_arrayParse R (settingText ?y ''Servers/serversList''))]))"
  have load: "loadFromStorage R uuids ?y = updateDefaultServerFromStorage R u"
    by (simp add: loadFromStorage_def Let_def u_def settingText_def clearServerStateMaps_def)
  have keep: "sv_settings (foldl (loadEntry R) t es) = sv_settings t" for t es
    by (induction es arbitrary: t) (simp_all add: loadEntry_def Let_def)
  have settings: "settingText u ''Servers/defaultServerId'' = m_defaultServerId ?y"
    using assms(3) by (simp add: u_def settingText_def keep clearServerStateMaps_def syncToStorage_def
        persistDefaultServerFields_def setValue_def Let_def)
  have ids: "m_serverJsonById u = m_serverJsonById s" "m_orderedServerIds u = m_orderedServerIds s"
  proof -
    have upd: "m_orderedServerIds (updateDefaultServerFromStorage R u) = m_orderedServerIds u"
      "m_serverJsonById (updateDefaultServerFromStorage R u) = m_serverJsonById u"
      by (simp_all add: updateDefaultServerFromStorage_def Let_def)
    show "m_orderedServerIds u = m_orderedServerIds s"
      using load_after_sync(1) [OF assms(1-3), of uuids] assms(4) by (simp add: load upd list_all_iff)
    have "m_serverJsonById s |` {sid. supportedId s sid} = m_serverJsonById s"
    proof
      fix sid
      show "(m_serverJsonById s |` {sid. supportedId s sid}) sid = m_serverJsonById s sid"
        using assms(2,4) by (cases "m_serverJsonById s sid") (auto simp: repoCore_def list_all_iff restrict_map_def)
    qed
    then show "m_serverJsonById u = m_serverJsonById s"
      using load_after_sync(2) [OF assms(1-3), of uuids] by (simp add: load upd)
  qed
  have inv: "repoInv R ?y" using assms(2) by (rule repoInv_sync)
  show ?thesis
  proof (cases "m_orderedServerIds s = []")
    case True
    then have "m_defaultServerId ?y = []" using inv by (simp add: repoInv_def repoDefault_def)
    then show ?thesis using True by (auto simp: load updateDefaultServerFromStorage_def Let_def settings ids split: option.split)
  next
    case False
    then have "m_defaultServerId ?y \<in> dom (m_serverJsonById s)" "m_defaultServerId ?y \<noteq> []"
      using inv by (auto simp: repoInv_def repoDefault_def repoCore_def)
    then show ?thesis by (auto simp: load updateDefaultServerFromStorage_def Let_def settings ids)
  qed
qed

section \<open>Every sequence of operations\<close>

inductive repositoryStep :: "repositoryServices \<Rightarrow> serversRepository \<Rightarrow> serversRepository \<Rightarrow> bool" for R where
  step_add: "\<lbrakk>plainId R uuid; wf_obj ob\<rbrakk> \<Longrightarrow> repositoryStep R s (fst (fst (addServer R uuid s serverId ob kind)))"
| step_edit: "wf_obj ob \<Longrightarrow> repositoryStep R s (fst (editServer R s serverId ob kind))"
| step_editJson: "wf_obj ob \<Longrightarrow> repositoryStep R s (fst (editServerJson R s index ob))"
| step_remove: "repositoryStep R s (fst (removeServer R s serverId))"
| step_default: "repositoryStep R s (fst (setDefaultServer s serverId))"
| step_clear: "repositoryStep R s (clearServers R s)"
| step_swap: "wf_obj ob \<Longrightarrow> repositoryStep R s (fst (fst (compareAndSwapServer R s serverId expected ob)))"
| step_sites: "repositoryStep R s (fst (setManagedVpnSites R s index mode sites))"
| step_addSite: "repositoryStep R s (fst (fst (addManagedVpnSite R s index mode site ip)))"
| step_addSites: "repositoryStep R s (fst (addManagedVpnSites R s index mode added))"
| step_removeAll: "repositoryStep R s (fst (removeAllManagedVpnSites R s index mode))"
| step_removeSite: "repositoryStep R s (fst (removeManagedVpnSite R s index mode site))"
| step_force: "repositoryStep R s (fst (setManagedSplitTunnelingForceEnabled R s index enabled))"
| step_load: "\<lbrakk>services_ok R; \<forall>n. plainId R (uuids n)\<rbrakk> \<Longrightarrow> repositoryStep R s (invalidateCache R uuids s)"
| step_restart: "\<lbrakk>services_ok R; \<forall>n. plainId R (uuids n)\<rbrakk>
    \<Longrightarrow> repositoryStep R s (openRepository R uuids persist (sv_settings s))"
| step_storage: "repositoryStep R s (s\<lparr>sv_writable := b\<rparr>)"

lemma empty_inv: "repoInv R (emptyRepository settings)"
  by (simp add: repoInv_def repoCore_def repoDefault_def emptyRepository_def)

lemma invalidateCache_inv:
  "\<lbrakk>services_ok R; \<forall>n. plainId R (uuids n)\<rbrakk> \<Longrightarrow> repoInv R (invalidateCache R uuids s)"
  by (simp add: invalidateCache_def loadFromStorage_inv)

lemma openRepository_inv:
  assumes "services_ok R" "\<forall>n. plainId R (uuids n)"
  shows "repoInv R (openRepository R uuids persist settings)"
proof -
  have "repoInv R (loadFromStorage R uuids (emptyRepository settings))" by (rule loadFromStorage_inv [OF assms])
  then show ?thesis
    by (auto simp: openRepository_def Let_def persistDefaultServerFields_def setValue_def repoInv_def repoCore_def
        repoDefault_def)
qed

lemmas operation_inv = addServer_inv editServer_inv editServerJson_inv removeServer_inv setDefaultServer_inv
  clearServers_inv compareAndSwapServer_inv setManagedVpnSites_inv addManagedVpnSite_inv
  addManagedVpnSites_inv removeAllManagedVpnSites_inv removeManagedVpnSite_inv setForceEnabled_inv
  invalidateCache_inv openRepository_inv

lemma repositoryStep_inv: "repositoryStep R s t \<Longrightarrow> repoInv R s \<Longrightarrow> repoInv R t"
proof (induction rule: repositoryStep.induct)
  case (step_storage s b)
  then show ?case by (rule repoInv_same) (use step_storage in \<open>simp_all add: repoInv_def repoDefault_def\<close>)
qed (rule operation_inv; assumption)+

lemma repository_reachable_inv:
  "(repositoryStep R)\<^sup>*\<^sup>* s t \<Longrightarrow> repoInv R s \<Longrightarrow> repoInv R t"
  by (induction rule: rtranclp_induct) (auto intro: repositoryStep_inv)

text \<open>
  C9. Whatever sequence of operations runs from an empty repository, the identifiers stay distinct, non-blank
  and without padding, they are exactly those that have a profile, every profile carries its own identifier,
  and the default server is one of them, or empty exactly when there is none.
\<close>

theorem repository_consistent:
  assumes "(repositoryStep R)\<^sup>*\<^sup>* (emptyRepository settings) s"
  shows "distinct (m_orderedServerIds s) \<and> dom (m_serverJsonById s) = set (m_orderedServerIds s)
    \<and> (\<forall>sid ob. m_serverJsonById s sid = Some ob \<longrightarrow> obj_value ob storageServerId = JString sid)
    \<and> (\<forall>sid \<in> set (m_orderedServerIds s). sid \<noteq> [] \<and> trimmed (rs_qt R) sid = sid)
    \<and> (if m_orderedServerIds s = [] then m_defaultServerId s = []
       else m_defaultServerId s \<in> set (m_orderedServerIds s))"
  using repository_reachable_inv [OF assms empty_inv] unfolding repoInv_def repoCore_def repoDefault_def by blast

text \<open>
  C20. While the settings can be written, a restart after any sequence of operations that ends in a write
  gives back the same profiles in the same order with the same default server; only profiles of a newer
  format are left out, and they are counted.
\<close>

theorem repository_restart:
  fixes uuids :: "nat \<Rightarrow> string"
  assumes "services_ok R" "(repositoryStep R)\<^sup>*\<^sup>* (emptyRepository settings) s" "sv_writable s"
  defines "t \<equiv> syncToStorage R s"
  defines "u \<equiv> loadFromStorage R uuids t"
  shows "m_orderedServerIds u = filter (supportedId t) (m_orderedServerIds t)
    \<and> m_serverJsonById u = m_serverJsonById t |` {sid. supportedId t sid}
    \<and> m_unsupportedFormatConfigsCount u = length (filter (\<lambda>sid. \<not> supportedId t sid) (m_orderedServerIds t))
    \<and> (list_all (supportedId t) (m_orderedServerIds t) \<longrightarrow> m_defaultServerId u = m_defaultServerId t)"
proof -
  have core: "repoCore R s" using repository_reachable_inv [OF assms(2) empty_inv] by (simp add: repoInv_def)
  have "supportedId t = supportedId s" by (simp add: fun_eq_iff supportedId_def storedJson_def t_def)
  then show ?thesis
    using load_after_sync [OF assms(1) core assms(3), of uuids] load_default_after_sync [OF assms(1) core assms(3), of uuids]
    by (simp add: t_def u_def)
qed

section \<open>A concrete repository\<close>

instance qdouble :: countable
  by countable_datatype

instance json :: countable
  by countable_datatype

text \<open>Texts of arrays are numbered, which makes the reader the inverse of the printer.\<close>

definition rs_ref :: repositoryServices where
  "rs_ref = \<lparr>rs_qt = qt_ref, rs_freeV2Endpoint = ''free.example'', rs_premiumV1Endpoint = ''premium.example'',
     rs_arrayText = (\<lambda>xs. replicate (to_nat xs) CHR ''x''),
     rs_arrayParse = (\<lambda>t. let xs = from_nat (length t) in
        if list_all (\<lambda>e. wf_obj (to_object e)) xs then xs else []),
     rs_settingInt = (\<lambda>_. 0)\<rparr>"

lemma rs_ref_ok: "services_ok rs_ref"
  by (auto simp: services_ok_def rs_ref_def Let_def list_all_iff)

definition refProfile :: "string \<Rightarrow> jobject" where
  "refProfile name = [(''description'', JString name)]"

definition refRepository1 :: serversRepository where
  "refRepository1 =
     fst (fst (addServer rs_ref ''u1'' (emptyRepository Map.empty) ''a'' (refProfile ''home'') SelfHostedUser))"

definition refRepository2 :: serversRepository where
  "refRepository2 = fst (fst (addServer rs_ref ''u2'' refRepository1 '' a '' (refProfile ''work'') SelfHostedUser))"

definition refRepository :: serversRepository where
  "refRepository = fst (setDefaultServer refRepository2 ''u2'')"

lemma wf_refProfile [simp]: "wf_obj (refProfile name)"
  by (simp add: refProfile_def wf_obj_def)

lemma rs_ref_qt [simp]: "rs_qt rs_ref = qt_ref"
  by (simp add: rs_ref_def)

lemma ref_ids: "plainId rs_ref ''u1''" "plainId rs_ref ''u2''"
  "trimmed qt_ref ''a'' = ''a''" "trimmed qt_ref '' a '' = ''a''"
  by (simp_all add: plainId_def trimmed_def trim_where_def qt_ref_services ascii_space_def)

lemma refRepository_reachable: "(repositoryStep rs_ref)\<^sup>*\<^sup>* (emptyRepository Map.empty) refRepository"
proof -
  have "repositoryStep rs_ref (emptyRepository Map.empty) refRepository1"
    unfolding refRepository1_def by (intro step_add ref_ids wf_refProfile)
  moreover have "repositoryStep rs_ref refRepository1 refRepository2"
    unfolding refRepository2_def by (intro step_add ref_ids wf_refProfile)
  moreover have "repositoryStep rs_ref refRepository2 refRepository"
    unfolding refRepository_def by (rule step_default)
  ultimately show ?thesis by (meson r_into_rtranclp rtranclp_trans)
qed

lemma ref_kind: "isConfigFormatVersionSupported (refProfile name)" "configTypeFromJson R (refProfile name) = SelfHostedUser"
  "withoutStorageServerId (refProfile name) = refProfile name"
  "refreshEffectiveContentMetadata qt_ref (refProfile name) = (refProfile name, False)"
  by (simp_all add: isConfigFormatVersionSupported_def configFormatVersion_def configTypeFromJson_def
      hasThirdPartyConfig_def hasCredentials_def withoutStorageServerId_def storageServerId_def obj_remove_def
      refreshEffectiveContentMetadata_def lastKnownGood_def metadataFromJson_def stateKey_def refProfile_def obj_value_def)

lemma writable_sync [simp]: "sv_writable (syncToStorage R s) = sv_writable s"
  by (simp add: syncToStorage_def persistDefaultServerFields_def Let_def)

lemma default_sync: "repoDefault s \<Longrightarrow> m_defaultServerId (syncToStorage R s) = m_defaultServerId s"
  by (auto simp: syncToStorage_def persistDefaultServerFields_def repoDefault_def)

lemma refRepository1_eq:
  "m_orderedServerIds refRepository1 = [''a'']" "sv_writable refRepository1" "m_defaultServerId refRepository1 = ''a''"
  "m_serverJsonById refRepository1 = [''a'' \<mapsto> embedStorageServerId ''a'' (refProfile ''home'')]"
  by (simp_all add: refRepository1_def addServer_def Let_def normalizedOrGeneratedServerId_def emptyRepository_def ref_ids
      ref_kind default_sync repoDefault_def)

lemma refRepository2_eq:
  "m_orderedServerIds refRepository2 = [''a'', ''u2'']" "sv_writable refRepository2" "m_defaultServerId refRepository2 = ''a''"
  "m_serverJsonById refRepository2 = [''a'' \<mapsto> embedStorageServerId ''a'' (refProfile ''home''),
     ''u2'' \<mapsto> embedStorageServerId ''u2'' (refProfile ''work'')]"
  by (simp_all add: refRepository2_def addServer_def Let_def normalizedOrGeneratedServerId_def refRepository1_eq ref_ids
      ref_kind default_sync repoDefault_def)

lemma refRepository_eq:
  "m_orderedServerIds refRepository = [''a'', ''u2'']" "sv_writable refRepository" "m_defaultServerId refRepository = ''u2''"
  "m_serverJsonById refRepository = [''a'' \<mapsto> embedStorageServerId ''a'' (refProfile ''home''),
     ''u2'' \<mapsto> embedStorageServerId ''u2'' (refProfile ''work'')]"
  by (simp_all add: refRepository_def setDefaultServer_def indexOfServerId_def refRepository2_eq
      persistDefaultServerFields_def)

theorem repository_consistent_witness:
  "m_orderedServerIds refRepository = [''a'', ''u2'']
   \<and> dom (m_serverJsonById refRepository) = {''a'', ''u2''}
   \<and> m_defaultServerId refRepository \<in> set (m_orderedServerIds refRepository)"
  using repository_consistent [OF refRepository_reachable] by (simp add: refRepository_eq)

lemma ref_supported: "sid \<in> {''a'', ''u2''} \<Longrightarrow> supportedId (syncToStorage rs_ref refRepository) sid"
proof -
  have "withoutStorageServerId (embedStorageServerId sid (refProfile name)) = refProfile name" for sid name
    by (simp add: withoutStorageServerId_def embedStorageServerId_def obj_insert_def refProfile_def
        storageServerId_def obj_remove_def less_char_def)
  then show "sid \<in> {''a'', ''u2''} \<Longrightarrow> ?thesis" by (auto simp: supportedId_def storedJson_def refRepository_eq ref_kind)
qed

theorem repository_restart_witness:
  "m_orderedServerIds (loadFromStorage rs_ref (\<lambda>_. ''u3'') (syncToStorage rs_ref refRepository)) = [''a'', ''u2'']
   \<and> m_defaultServerId (loadFromStorage rs_ref (\<lambda>_. ''u3'') (syncToStorage rs_ref refRepository)) = ''u2''"
  using repository_restart [OF rs_ref_ok refRepository_reachable refRepository_eq(2), of "\<lambda>_. ''u3''"] ref_supported
  by (simp add: refRepository_eq default_sync repoDefault_def)

end
