(* ===== verification/Server_Routing.thy ===== *)
theory Server_Routing
  imports Policy_Lifecycle
begin

text \<open>
  The routing policy of the headless client (\<open>headless/serverRoutingPolicy.cpp\<close>): the admission of a
  policy payload, built on the managed route grammar and the policy lifecycle, and the bounded resolution
  of its domains. A look-up is a function of the domain to its outcome; the elapsed milliseconds at the
  start of each pass are a function of the number of the pass.
\<close>

section \<open>Parsing\<close>

definition MaximumPayloadBytes :: nat where "MaximumPayloadBytes = 1024 * 1024"
definition MinimumLookupTimeoutMs :: int where "MinimumLookupTimeoutMs = 50"

record ServerRoutingPolicySnapshot =
  sp_sourceSites :: jobject
  sp_resolvedSites :: jobject
  sp_routes :: "string list"
  sp_unresolvedSites :: "string list"
  sp_revision :: string
  sp_contentHash :: string
  sp_issuedAt :: qdatetime
  sp_expiresAt :: qdatetime
  sp_forceEnabled :: bool
  sp_source :: string
  sp_metadata :: ManagedRoutePolicyMetadata

text \<open>A failure is its code and message.\<close>

type_synonym 'a policyResult = "(string \<times> string) + 'a"

text \<open>When no key has a list, the result is the default QJsonValue, which is null and not undefined.\<close>

fun firstSiteValue :: "jobject \<Rightarrow> string list \<Rightarrow> json" where
  "firstSiteValue payload [] = JNull"
| "firstSiteValue payload (key # keys) =
     (let v = obj_value payload key in
      if is_object v \<or> is_array v then v else firstSiteValue payload keys)"

definition containsSiteValue :: "jobject \<Rightarrow> bool" where
  "containsSiteValue payload \<longleftrightarrow>
     firstSiteValue payload [''server.except'', ''serverExcept'', ''managedSplitTunnelExceptSourceSites'',
       ''managedSplitTunnelExceptSites''] \<noteq> JUndefined"

record routeScan =
  sc_routes :: "string list"
  sc_unresolved :: "string list"
  sc_valid :: bool

definition scanSite :: "qt \<Rightarrow> routeScan \<Rightarrow> string \<times> json \<Rightarrow> routeScan" where
  "scanSite Q sc kv =
     (let directRoute = canonicalManagedIpv4Route Q (fst kv) in
      if directRoute \<noteq> [] then sc\<lparr>sc_routes := sc_routes sc @ [directRoute]\<rparr>
      else (let (fallbackRoutes, valueValid) = validatedManagedRouteTokens Q (jstr (snd kv)) in
            if \<not> valueValid then sc\<lparr>sc_valid := False\<rparr>
            else if fallbackRoutes = [] then sc\<lparr>sc_unresolved := sc_unresolved sc @ [fst kv]\<rparr>
            else sc\<lparr>sc_routes := sc_routes sc @ fallbackRoutes\<rparr>))"

definition removeDuplicates :: "'a list \<Rightarrow> 'a list" where
  "removeDuplicates xs = foldl (\<lambda>acc x. add_new x acc) [] xs"

definition sortedRoutes :: "string list \<Rightarrow> string list" where
  "sortedRoutes routes = sort (removeDuplicates routes)"

definition routesFromSites :: "qt \<Rightarrow> jobject \<Rightarrow> string list \<times> string list \<times> bool" where
  "routesFromSites Q sites =
     (let sc = foldl (scanSite Q) \<lparr>sc_routes = [], sc_unresolved = [], sc_valid = True\<rparr> sites;
          (routes, routesValid) = validatedManagedRoutes Q (sc_routes sc);
          isValid = (sc_valid sc \<and> routesValid) in
      (if isValid then sortedRoutes routes else [], sc_unresolved sc, isValid))"

fun boundedLoop :: "jobject \<Rightarrow> jobject \<Rightarrow> jobject \<Rightarrow> jobject option" where
  "boundedLoop source bounded [] = Some bounded"
| "boundedLoop source bounded ((k, v) # rest) =
     (if obj_contains source k then boundedLoop source (obj_insert k v bounded) rest else None)"

definition boundedSites :: "jobject \<Rightarrow> jobject \<Rightarrow> jobject option" where
  "boundedSites source candidate = boundedLoop source [] candidate"

definition addLiterals :: "qt \<Rightarrow> jobject \<Rightarrow> jobject \<Rightarrow> jobject" where
  "addLiterals Q sourceSites resolvedSites =
     foldl (\<lambda>ob (k, v). if canonicalManagedIpv4Route Q k \<noteq> [] \<and> \<not> obj_contains ob k
                        then obj_insert k v ob else ob) resolvedSites sourceSites"

definition sourceKeys :: "string list" where
  "sourceKeys = [''managedSplitTunnelExceptSourceSites'', ''managedSplitTunnelExceptSites'', ''server.except'',
                 ''serverExcept'']"

definition resolvedKeys :: "string list" where
  "resolvedKeys = [''server.except'', ''serverExcept'', ''managedSplitTunnelExceptSites'',
                   ''managedSplitTunnelExceptSourceSites'']"

definition invalidPolicy :: "string \<Rightarrow> 'a policyResult" where
  "invalidPolicy message = Inl (''invalid_policy'', message)"

text \<open>The source and resolved sites of a payload.\<close>

definition policySites :: "qt \<Rightarrow> jobject \<Rightarrow> (jobject \<times> jobject) policyResult" where
  "policySites Q ob =
     (let (sourceSites, sourceValid) = canonicalSourceSites Q (firstSiteValue ob sourceKeys);
          (candidate, resolvedValid) = canonicalSourceSites Q (firstSiteValue ob resolvedKeys) in
      if \<not> sourceValid \<or> \<not> resolvedValid then invalidPolicy ''managed site list is invalid or oversized''
      else (case boundedSites sourceSites candidate of
              None \<Rightarrow> invalidPolicy ''resolved managed sites are not bound to source sites''
            | Some resolvedSites \<Rightarrow> Inr (sourceSites, addLiterals Q sourceSites resolvedSites)))"

definition parsePolicyPayload ::
  "qt \<Rightarrow> string \<Rightarrow> ManagedRoutePolicyMetadata option \<Rightarrow> string \<Rightarrow> int \<Rightarrow> ServerRoutingPolicySnapshot policyResult" where
  "parsePolicyPayload Q payload current source now =
     (if payload = [] \<or> MaximumPayloadBytes < length payload
      then Inl (''policy_too_large'', ''server routing policy exceeds the byte limit'')
      else case q_jsonParse Q payload of
        Some (JObject ob) \<Rightarrow>
          if \<not> containsSiteValue ob then invalidPolicy ''server routing policy has no managed site list''
          else (case policySites Q ob of
            Inl e \<Rightarrow> Inl e
          | Inr (sourceSites, resolvedSites) \<Rightarrow>
            (case validateCandidate Q ob current (Some now) now of
               Inl e \<Rightarrow> Inl (''stale_or_invalid_policy'',
                           if e = [] then ''server routing policy was rejected'' else e)
             | Inr metadata \<Rightarrow>
               (let (routes, unresolved, routesValid) = routesFromSites Q resolvedSites;
                    force = obj_value ob ''managedSplitTunnelForceEnabled'' in
                if \<not> routesValid then invalidPolicy ''managed route list is invalid or oversized''
                else if \<not> is_undefined force \<and> \<not> is_bool force
                then invalidPolicy ''managed routing force flag is malformed''
                else Inr \<lparr>sp_sourceSites = sourceSites, sp_resolvedSites = resolvedSites, sp_routes = routes,
                          sp_unresolvedSites = unresolved, sp_revision = pm_revision metadata,
                          sp_contentHash = pm_contentHash metadata, sp_issuedAt = pm_issuedAt metadata,
                          sp_expiresAt = pm_expiresAt metadata, sp_forceEnabled = to_bool False force,
                          sp_source = source, sp_metadata = metadata\<rparr>)))
      | _ \<Rightarrow> invalidPolicy ''server routing policy is not a JSON object'')"

section \<open>Resolution\<close>

datatype lookupOutcome = LookupTimedOut | LookupFailed | LookupAddresses "qhost list"

fun lookupRoutes :: "qt \<Rightarrow> string list \<Rightarrow> qhost list \<Rightarrow> string list" where
  "lookupRoutes Q found [] = found"
| "lookupRoutes Q found (h # hs) =
     (if \<not> is_v4 h then lookupRoutes Q found hs
      else (let route = canonicalManagedIpv4Route Q (q_hostText Q h);
                found = (if route \<noteq> [] \<and> route \<notin> set found then found @ [route] else found) in
            if maximumRoutesPerSite \<le> length found then found else lookupRoutes Q found hs))"

definition appendPreviousResolution ::
  "qt \<Rightarrow> jobject \<Rightarrow> string \<Rightarrow> ServerRoutingPolicySnapshot \<Rightarrow> ServerRoutingPolicySnapshot" where
  "appendPreviousResolution Q previous domain p =
     (let fallback = jstr (obj_value previous domain);
          (fallbackRoutes, fallbackValid) = validatedManagedRouteTokens Q fallback in
      if obj_contains (sp_sourceSites p) domain \<and> fallbackValid \<and> fallbackRoutes \<noteq> []
      then p\<lparr>sp_resolvedSites := obj_insert domain (JString fallback) (sp_resolvedSites p),
             sp_routes := sp_routes p @ fallbackRoutes\<rparr>
      else p)"

definition resolveDomain ::
  "qt \<Rightarrow> (string \<Rightarrow> lookupOutcome) \<Rightarrow> jobject \<Rightarrow> int \<Rightarrow> string \<Rightarrow> ServerRoutingPolicySnapshot
   \<Rightarrow> ServerRoutingPolicySnapshot" where
  "resolveDomain Q lookup previous remaining domain p =
     (if remaining < MinimumLookupTimeoutMs then appendPreviousResolution Q previous domain p
      else case lookup domain of
        LookupTimedOut \<Rightarrow> appendPreviousResolution Q previous domain p
      | LookupFailed \<Rightarrow> appendPreviousResolution Q previous domain p
      | LookupAddresses hosts \<Rightarrow>
          (let addresses = lookupRoutes Q [] hosts in
           if addresses = [] then appendPreviousResolution Q previous domain p
           else p\<lparr>sp_resolvedSites := obj_insert domain (JString (join '', '' addresses)) (sp_resolvedSites p),
                  sp_routes := sp_routes p @ addresses\<rparr>))"

fun resolveLoop ::
  "qt \<Rightarrow> (string \<Rightarrow> lookupOutcome) \<Rightarrow> (nat \<Rightarrow> int) \<Rightarrow> jobject \<Rightarrow> int \<Rightarrow> nat \<Rightarrow> string list
   \<Rightarrow> ServerRoutingPolicySnapshot \<Rightarrow> ServerRoutingPolicySnapshot" where
  "resolveLoop Q lookup elapsed previous deadline n [] p = p"
| "resolveLoop Q lookup elapsed previous deadline n (domain # domains) p =
     resolveLoop Q lookup elapsed previous deadline (Suc n) domains
       (resolveDomain Q lookup previous (deadline - elapsed n) domain p)"

definition resolvePolicy ::
  "qt \<Rightarrow> (string \<Rightarrow> lookupOutcome) \<Rightarrow> (nat \<Rightarrow> int) \<Rightarrow> ServerRoutingPolicySnapshot \<Rightarrow> int \<Rightarrow> jobject
   \<Rightarrow> ServerRoutingPolicySnapshot policyResult" where
  "resolvePolicy Q lookup elapsed p deadline previous =
     (if deadline < MinimumLookupTimeoutMs \<or> maximumSiteCount < length (sp_unresolvedSites p)
      then Inl (''invalid_resolution_deadline'', ''managed DNS resolution deadline is invalid'')
      else (let p = resolveLoop Q lookup elapsed previous deadline 0 (sp_unresolvedSites p) p;
                (routes, routesValid) = validatedManagedRoutes Q (sp_routes p) in
            if \<not> routesValid then invalidPolicy ''resolved managed routes exceed the safety boundary''
            else Inr (p\<lparr>sp_routes := sortedRoutes routes\<rparr>)))"

section \<open>A payload without a site list\<close>

lemma firstSiteValue_defined: "firstSiteValue payload keys \<noteq> JUndefined"
  by (induction keys) (auto simp: Let_def)

text \<open>
  The test for a site list always succeeds, because a missing list is null and the test asks for undefined;
  the payload is refused by the next test instead.
\<close>

lemma containsSiteValue_always: "containsSiteValue payload"
  by (simp only: containsSiteValue_def firstSiteValue_defined not_False_eq_True)

lemma missing_sites_refused:
  assumes "\<And>k. k \<in> set sourceKeys \<Longrightarrow> \<not> is_object (obj_value ob k) \<and> \<not> is_array (obj_value ob k)"
  shows "policySites Q ob = invalidPolicy ''managed site list is invalid or oversized''"
proof -
  have none: "\<forall>k\<in>set ks. \<not> is_object (obj_value ob k) \<and> \<not> is_array (obj_value ob k) \<Longrightarrow> firstSiteValue ob ks = JNull" for ks
    by (induction ks) (auto simp: Let_def)
  have "firstSiteValue ob sourceKeys = JNull" using assms by (intro none) blast
  then show ?thesis by (simp add: policySites_def canonicalSourceSites_def Let_def split: prod.split)
qed

section \<open>The routes of a set of resolved sites\<close>

text \<open>What a resolved site stands for: its own literal route, or the routes of its value.\<close>

definition siteRoutes :: "qt \<Rightarrow> string \<Rightarrow> json \<Rightarrow> string set" where
  "siteRoutes Q k v =
     (if canonicalManagedIpv4Route Q k \<noteq> [] then {canonicalManagedIpv4Route Q k}
      else set (fst (validatedManagedRouteTokens Q (jstr v))))"

definition resolvedRoutes :: "qt \<Rightarrow> jobject \<Rightarrow> string set" where
  "resolvedRoutes Q ob = {r. \<exists>k. obj_contains ob k \<and> r \<in> siteRoutes Q k (obj_value ob k)}"

lemma wf_obj_mem: "wf_obj ob \<Longrightarrow> (k, v) \<in> set ob \<longleftrightarrow> obj_contains ob k \<and> obj_value ob k = v"
proof -
  assume "wf_obj ob"
  then have "distinct (map fst ob)" by (simp add: wf_obj_def strict_sorted_iff)
  then have "(k, v) \<in> set ob \<longleftrightarrow> map_of ob k = Some v" by simp
  then show ?thesis by (auto simp: obj_contains_def obj_value_def split: option.splits)
qed

lemma resolvedRoutes_set: "wf_obj ob \<Longrightarrow> resolvedRoutes Q ob = (\<Union>(k, v) \<in> set ob. siteRoutes Q k v)"
proof -
  assume wf: "wf_obj ob"
  have "r \<in> (\<Union>(k, v) \<in> set ob. siteRoutes Q k v) \<longleftrightarrow> (\<exists>k v. (k, v) \<in> set ob \<and> r \<in> siteRoutes Q k v)" for r
    by auto
  then show ?thesis using wf by (auto simp: resolvedRoutes_def wf_obj_mem)
qed

lemma resolvedRoutes_insert:
  assumes "siteRoutes Q k (obj_value ob k) = {} \<or> \<not> obj_contains ob k" "v \<noteq> JUndefined"
  shows "resolvedRoutes Q (obj_insert k v ob) = resolvedRoutes Q ob \<union> siteRoutes Q k v"
  using assms by (auto simp: resolvedRoutes_def split: if_splits)

lemma tokens_allowed:
  "qt_routes_ok Q \<Longrightarrow> r \<in> set (fst (validatedManagedRouteTokens Q s)) \<Longrightarrow>
   canonicalManagedIpv4Route Q r = r \<and> r \<noteq> []"
  by (auto simp: tokens_unfold split: option.splits if_splits
      dest!: managed.collected_canonical)

lemma tokens_of_addresses:
  assumes "qt_routes_ok Q" "distinct rs" "\<forall>r \<in> set rs. canonicalManagedIpv4Route Q r = r \<and> r \<noteq> []" "length rs \<le> 64"
  shows "validatedManagedRouteTokens Q (join '', '' rs) = (rs, True)"
proof -
  have c: "collected (canonicalManagedIpv4Route Q) rs = Some rs" by (rule collected_id) (use assms in auto)
  have "length (join '', '' rs) \<le> 4096"
    using managed.rejoined_tokens(2) [OF assms(1) c] assms(4) by linarith
  then show ?thesis using managed.rejoined_tokens(1) [OF assms(1) c] c assms(4) by (simp add: tokens_unfold)
qed

definition canonicalRoutes :: "qt \<Rightarrow> string list \<Rightarrow> bool" where
  "canonicalRoutes Q rs \<longleftrightarrow> distinct rs \<and> (\<forall>r \<in> set rs. canonicalManagedIpv4Route Q r = r \<and> r \<noteq> [])"

lemma lookupRoutes_ok:
  assumes "qt_routes_ok Q"
  shows "canonicalRoutes Q found \<Longrightarrow> length found < 64 \<Longrightarrow>
    canonicalRoutes Q (lookupRoutes Q found hs) \<and> length (lookupRoutes Q found hs) \<le> 64"
proof (induction hs arbitrary: found)
  case (Cons h hs)
  define r where "r = canonicalManagedIpv4Route Q (q_hostText Q h)"
  define f where "f = (if r \<noteq> [] \<and> r \<notin> set found then found @ [r] else found)"
  have f: "canonicalRoutes Q f" "length f \<le> 64"
    using Cons.prems canonical_fixed [OF assms, of "q_hostText Q h"]
    by (auto simp: f_def r_def canonicalRoutes_def)
  have step: "lookupRoutes Q found (h # hs) =
      (if \<not> is_v4 h then lookupRoutes Q found hs else if 64 \<le> length f then f else lookupRoutes Q f hs)"
    by (simp add: f_def r_def Let_def maximumRoutesPerSite_def)
  then show ?case using Cons.IH [OF Cons.prems] Cons.IH [OF f(1)] f by auto
qed simp

lemma lookupRoutes_tokens:
  assumes "qt_routes_ok Q"
  shows "validatedManagedRouteTokens Q (join '', '' (lookupRoutes Q [] hs)) = (lookupRoutes Q [] hs, True)"
  using lookupRoutes_ok [OF assms, of "[]" hs] by (intro tokens_of_addresses [OF assms]) (auto simp: canonicalRoutes_def)

section \<open>The scan of the resolved sites\<close>

definition siteValid :: "qt \<Rightarrow> string \<times> json \<Rightarrow> bool" where
  "siteValid Q kv \<longleftrightarrow> canonicalManagedIpv4Route Q (fst kv) \<noteq> [] \<or> snd (validatedManagedRouteTokens Q (jstr (snd kv)))"

lemma scanSite_valid: "sc_valid (scanSite Q sc kv) \<longleftrightarrow> sc_valid sc \<and> siteValid Q kv"
  by (simp add: scanSite_def siteValid_def Let_def split: prod.splits)

lemma scanSite_ok:
  "siteValid Q kv \<Longrightarrow>
   set (sc_routes (scanSite Q sc kv)) = set (sc_routes sc) \<union> siteRoutes Q (fst kv) (snd kv)
   \<and> sc_unresolved (scanSite Q sc kv) = sc_unresolved sc @ (if siteRoutes Q (fst kv) (snd kv) = {} then [fst kv] else [])"
  by (cases "canonicalManagedIpv4Route Q (fst kv) = []"; cases "validatedManagedRouteTokens Q (jstr (snd kv))")
    (auto simp: scanSite_def siteValid_def siteRoutes_def)

lemma scan_run:
  "sc_valid (foldl (scanSite Q) sc sites) \<Longrightarrow>
   sc_valid sc \<and> set (sc_routes (foldl (scanSite Q) sc sites)) = set (sc_routes sc) \<union> (\<Union>(k, v) \<in> set sites. siteRoutes Q k v)
   \<and> sc_unresolved (foldl (scanSite Q) sc sites)
       = sc_unresolved sc @ map fst (filter (\<lambda>(k, v). siteRoutes Q k v = {}) sites)"
proof (induction sites arbitrary: sc)
  case (Cons kv sites)
  obtain k v where kv: "kv = (k, v)" by fastforce
  have "sc_valid (foldl (scanSite Q) (scanSite Q sc kv) sites)" using Cons.prems by simp
  note IH = Cons.IH [OF this]
  then have "siteValid Q kv" "sc_valid sc" by (simp_all add: scanSite_valid)
  with IH scanSite_ok [of Q kv sc] kv show ?case by auto
qed simp

lemma set_removeDuplicates: "set (removeDuplicates xs) = set xs" "distinct (removeDuplicates xs)"
proof -
  have "set (foldl (\<lambda>acc x. add_new x acc) acc xs) = set acc \<union> set xs" for acc
    by (induction xs arbitrary: acc) auto
  then show "set (removeDuplicates xs) = set xs" by (simp add: removeDuplicates_def)
  have "distinct acc \<Longrightarrow> distinct (foldl (\<lambda>acc x. add_new x acc) acc xs)" for acc
    by (induction xs arbitrary: acc) auto
  then show "distinct (removeDuplicates xs)" by (simp add: removeDuplicates_def)
qed

lemma sortedRoutes_facts: "set (sortedRoutes rs) = set rs" "sorted (sortedRoutes rs)" "distinct (sortedRoutes rs)"
  by (simp_all add: sortedRoutes_def set_removeDuplicates)

lemma validated_routes:
  assumes "qt_routes_ok Q" "validatedManagedRoutes Q vs = (rs, True)"
  shows "set rs = canonicalManagedIpv4Route Q ` set vs \<and> canonicalRoutes Q rs \<and> length rs \<le> 4096"
proof -
  have c: "collected (canonicalManagedIpv4Route Q) vs = Some rs" "length vs \<le> 4096"
    using assms(2) by (auto simp: routes_unfold split: option.splits if_splits)
  have "canonicalRoutes Q rs"
    unfolding canonicalRoutes_def using collected_distinct [OF c(1)] managed.collected_canonical [OF assms(1) c(1)] by blast
  moreover have "length rs \<le> 4096" using collected_length [OF c(1)] c(2) by simp
  ultimately show ?thesis using collected_set(1) [OF c(1)] by blast
qed

lemma siteRoutes_canonical:
  "qt_routes_ok Q \<Longrightarrow> r \<in> siteRoutes Q k v \<Longrightarrow> canonicalManagedIpv4Route Q r = r \<and> r \<noteq> []"
  by (auto simp: siteRoutes_def canonical_fixed tokens_allowed split: if_splits)

lemma canonical_image: "qt_routes_ok Q \<Longrightarrow> (\<And>r. r \<in> A \<Longrightarrow> canonicalManagedIpv4Route Q r = r) \<Longrightarrow> canonicalManagedIpv4Route Q ` A = A"
  by force

lemma routesFromSites_ok:
  assumes "qt_routes_ok Q" "wf_obj sites" "routesFromSites Q sites = (routes, unresolved, True)"
  shows "set routes = resolvedRoutes Q sites
    \<and> unresolved = map fst (filter (\<lambda>(k, v). siteRoutes Q k v = {}) sites)"
proof -
  define sc where "sc = foldl (scanSite Q) \<lparr>sc_routes = [], sc_unresolved = [], sc_valid = True\<rparr> sites"
  obtain rs where v: "sc_valid sc" "validatedManagedRoutes Q (sc_routes sc) = (rs, True)"
    and r: "routes = sortedRoutes rs" "unresolved = sc_unresolved sc"
    using assms(3) by (auto simp: routesFromSites_def sc_def [symmetric] Let_def split: prod.splits if_splits)
  have s: "set (sc_routes sc) = (\<Union>(k, v) \<in> set sites. siteRoutes Q k v)"
      "sc_unresolved sc = map fst (filter (\<lambda>(k, v). siteRoutes Q k v = {}) sites)"
    using scan_run [OF v(1) [unfolded sc_def]] by (simp_all add: sc_def)
  have "canonicalManagedIpv4Route Q ` set (sc_routes sc) = set (sc_routes sc)"
    by (rule canonical_image [OF assms(1)]) (use s(1) siteRoutes_canonical [OF assms(1)] in auto)
  then show ?thesis
    using s r validated_routes [OF assms(1) v(2)] resolvedRoutes_set [OF assms(2)] by (simp add: sortedRoutes_facts)
qed

section \<open>Invariant of the resolution loop\<close>

definition boundPolicy :: "qt \<Rightarrow> ServerRoutingPolicySnapshot \<Rightarrow> bool" where
  "boundPolicy Q p \<longleftrightarrow> set (sp_routes p) = resolvedRoutes Q (sp_resolvedSites p)
     \<and> (\<forall>k. obj_contains (sp_resolvedSites p) k \<longrightarrow> obj_contains (sp_sourceSites p) k)"

definition openSite :: "qt \<Rightarrow> ServerRoutingPolicySnapshot \<Rightarrow> string \<Rightarrow> bool" where
  "openSite Q p d \<longleftrightarrow> obj_contains (sp_resolvedSites p) d \<and> siteRoutes Q d (obj_value (sp_resolvedSites p) d) = {}"

lemma openSite_literal: "openSite Q p d \<Longrightarrow> canonicalManagedIpv4Route Q d = []"
  by (auto simp: openSite_def siteRoutes_def split: if_splits)

lemma setResolved_bound:
  assumes "boundPolicy Q p" "openSite Q p d" "validatedManagedRouteTokens Q s = (rs, True)"
  shows "boundPolicy Q (p\<lparr>sp_resolvedSites := obj_insert d (JString s) (sp_resolvedSites p), sp_routes := sp_routes p @ rs\<rparr>)"
proof -
  have "siteRoutes Q d (JString s) = set rs"
    using openSite_literal [OF assms(2)] assms(3) by (simp add: siteRoutes_def)
  then show ?thesis
    using assms(1,2) resolvedRoutes_insert [of Q d "sp_resolvedSites p" "JString s"]
    by (auto simp: boundPolicy_def openSite_def)
qed

lemma resolveDomain_cases:
  obtains (keep) "resolveDomain Q lookup previous n d p = p"
  | (prior) rs where "validatedManagedRouteTokens Q (jstr (obj_value previous d)) = (rs, True)"
      "resolveDomain Q lookup previous n d p =
         p\<lparr>sp_resolvedSites := obj_insert d (JString (jstr (obj_value previous d))) (sp_resolvedSites p),
           sp_routes := sp_routes p @ rs\<rparr>"
  | (looked) hs where "lookup d = LookupAddresses hs" "MinimumLookupTimeoutMs \<le> n"
      "resolveDomain Q lookup previous n d p =
         p\<lparr>sp_resolvedSites := obj_insert d (JString (join '', '' (lookupRoutes Q [] hs))) (sp_resolvedSites p),
           sp_routes := sp_routes p @ lookupRoutes Q [] hs\<rparr>"
proof -
  have "appendPreviousResolution Q previous d p = p
        \<or> (\<exists>rs. validatedManagedRouteTokens Q (jstr (obj_value previous d)) = (rs, True)
             \<and> appendPreviousResolution Q previous d p =
               p\<lparr>sp_resolvedSites := obj_insert d (JString (jstr (obj_value previous d))) (sp_resolvedSites p),
                 sp_routes := sp_routes p @ rs\<rparr>)"
    by (auto simp: appendPreviousResolution_def Let_def split: prod.splits)
  moreover have "resolveDomain Q lookup previous n d p = appendPreviousResolution Q previous d p
        \<or> (\<exists>hs. lookup d = LookupAddresses hs \<and> MinimumLookupTimeoutMs \<le> n \<and> resolveDomain Q lookup previous n d p =
         p\<lparr>sp_resolvedSites := obj_insert d (JString (join '', '' (lookupRoutes Q [] hs))) (sp_resolvedSites p),
           sp_routes := sp_routes p @ lookupRoutes Q [] hs\<rparr>)"
    by (cases "lookup d") (simp_all add: resolveDomain_def Let_def not_less)
  ultimately show thesis using keep prior looked by metis
qed

lemma resolveDomain_bound:
  assumes "qt_routes_ok Q" "boundPolicy Q p" "openSite Q p d"
  shows "boundPolicy Q (resolveDomain Q lookup previous n d p)
    \<and> (\<forall>d'. d' \<noteq> d \<longrightarrow> openSite Q p d' \<longrightarrow> openSite Q (resolveDomain Q lookup previous n d p) d')
    \<and> sp_sourceSites (resolveDomain Q lookup previous n d p) = sp_sourceSites p
    \<and> sp_metadata (resolveDomain Q lookup previous n d p) = sp_metadata p"
proof (cases Q lookup previous n d p rule: resolveDomain_cases)
  case keep
  then show ?thesis using assms by simp
next
  case (prior rs)
  then show ?thesis using setResolved_bound [OF assms(2,3) prior(1)] by (simp add: openSite_def)
next
  case (looked hs)
  then show ?thesis
    using setResolved_bound [OF assms(2,3) lookupRoutes_tokens [OF assms(1)]] by (simp add: openSite_def)
qed

lemma resolveLoop_bound:
  assumes "qt_routes_ok Q"
  shows "\<lbrakk>boundPolicy Q p; distinct ds; \<forall>d \<in> set ds. openSite Q p d\<rbrakk> \<Longrightarrow>
    boundPolicy Q (resolveLoop Q lookup elapsed previous deadline n ds p)
    \<and> sp_sourceSites (resolveLoop Q lookup elapsed previous deadline n ds p) = sp_sourceSites p
    \<and> sp_metadata (resolveLoop Q lookup elapsed previous deadline n ds p) = sp_metadata p"
proof (induction ds arbitrary: p n)
  case (Cons d ds)
  let ?p = "resolveDomain Q lookup previous (deadline - elapsed n) d p"
  have s: "boundPolicy Q ?p" "\<forall>d' \<in> set ds. openSite Q ?p d'" "sp_sourceSites ?p = sp_sourceSites p"
      "sp_metadata ?p = sp_metadata p"
    using resolveDomain_bound [OF assms Cons.prems(1), of d lookup previous "deadline - elapsed n"] Cons.prems by auto
  then show ?case using Cons.IH [OF s(1) _ s(2), of "Suc n"] Cons.prems(2) by simp
qed simp

section \<open>What parsing establishes\<close>

lemma boundedLoop_ok:
  "boundedLoop source b cand = Some r \<Longrightarrow> wf_obj b \<Longrightarrow> (\<forall>k. obj_contains b k \<longrightarrow> obj_contains source k) \<Longrightarrow>
   wf_obj r \<and> (\<forall>k. obj_contains r k \<longrightarrow> obj_contains source k)"
proof (induction source b cand rule: boundedLoop.induct)
  case (2 source b k v rest)
  have s: "obj_contains source k" "boundedLoop source (obj_insert k v b) rest = Some r"
    using 2(2) by (simp_all split: if_splits)
  have "\<forall>j. obj_contains (obj_insert k v b) j \<longrightarrow> obj_contains source j" using 2(4) s(1) by simp
  then show ?case using 2(1) [OF s(1,2) wf_obj_insert [OF 2(3)]] by blast
qed simp

lemma addLiterals_ok:
  assumes "wf_obj ob" "\<forall>k. obj_contains ob k \<longrightarrow> obj_contains source k" "wf_obj source"
  shows "wf_obj (addLiterals Q source ob) \<and> (\<forall>k. obj_contains (addLiterals Q source ob) k \<longrightarrow> obj_contains source k)"
proof -
  let ?f = "\<lambda>ob (k, v). if canonicalManagedIpv4Route Q k \<noteq> [] \<and> \<not> obj_contains ob k then obj_insert k v ob else ob"
  have "wf_obj (foldl ?f ob kvs) \<and> (\<forall>k. obj_contains (foldl ?f ob kvs) k \<longrightarrow> obj_contains source k)"
    if "set kvs \<subseteq> set source" "wf_obj ob" "\<forall>k. obj_contains ob k \<longrightarrow> obj_contains source k" for kvs ob
    using that
  proof (induction kvs arbitrary: ob)
    case (Cons kv kvs)
    obtain k v where kv: "kv = (k, v)" by fastforce
    have "obj_contains source k" using Cons.prems(1) kv wf_obj_mem [OF assms(3), of k v] by simp
    then have "wf_obj (?f ob kv)" "\<forall>j. obj_contains (?f ob kv) j \<longrightarrow> obj_contains source j"
      using Cons.prems(2,3) wf_obj_insert [of ob k v] kv by simp_all
    then show ?case using Cons.IH [of "?f ob kv"] Cons.prems(1) by simp
  qed simp
  from this [of source ob] show ?thesis using assms by (simp add: addLiterals_def)
qed

lemma policySites_ok:
  assumes "qt_policy_ok Q" "policySites Q ob = Inr (source, resolved)"
  shows "wf_obj source \<and> wf_obj resolved \<and> (\<forall>k. obj_contains resolved k \<longrightarrow> obj_contains source k)
    \<and> canonicalSourceSites Q (firstSiteValue ob sourceKeys) = (source, True)"
proof -
  obtain cand r where c: "canonicalSourceSites Q (firstSiteValue ob sourceKeys) = (source, True)"
      "boundedSites source cand = Some r" "resolved = addLiterals Q source r"
    using assms(2) by (auto simp: policySites_def invalidPolicy_def Let_def split: prod.splits if_splits option.splits)
  have w: "wf_obj source" using canonicalSourceSites_inv [OF assms(1) c(1)] by simp
  have "wf_obj r \<and> (\<forall>k. obj_contains r k \<longrightarrow> obj_contains source k)"
    using boundedLoop_ok [OF c(2) [unfolded boundedSites_def]] by simp
  then show ?thesis using addLiterals_ok [OF _ _ w, of r Q] c w by blast
qed

lemma parse_ok:
  assumes "parsePolicyPayload Q payload current source now = Inr p"
  obtains ob routes unresolved where "q_jsonParse Q payload = Some (JObject ob)"
    "policySites Q ob = Inr (sp_sourceSites p, sp_resolvedSites p)"
    "validateCandidate Q ob current (Some now) now = Inr (sp_metadata p)"
    "routesFromSites Q (sp_resolvedSites p) = (sp_routes p, sp_unresolvedSites p, True)"
  using assms
  by (auto simp: parsePolicyPayload_def invalidPolicy_def Let_def
      split: if_splits option.splits json.splits sum.splits prod.splits)

lemma parse_bound:
  assumes "qt_policy_ok Q" "parsePolicyPayload Q payload current source now = Inr p"
  shows "boundPolicy Q p \<and> distinct (sp_unresolvedSites p) \<and> (\<forall>d \<in> set (sp_unresolvedSites p). openSite Q p d)"
proof -
  obtain ob where s: "policySites Q ob = Inr (sp_sourceSites p, sp_resolvedSites p)"
      and r: "routesFromSites Q (sp_resolvedSites p) = (sp_routes p, sp_unresolvedSites p, True)"
    using parse_ok [OF assms(2)] by blast
  have routes: "qt_routes_ok Q" using assms(1) by (simp add: qt_policy_ok_def)
  have w: "wf_obj (sp_resolvedSites p)" "\<forall>k. obj_contains (sp_resolvedSites p) k \<longrightarrow> obj_contains (sp_sourceSites p) k"
    using policySites_ok [OF assms(1) s] by simp_all
  note f = routesFromSites_ok [OF routes w(1) r]
  have "distinct (map fst (sp_resolvedSites p))" using w(1) by (simp add: wf_obj_def strict_sorted_iff)
  then have "distinct (sp_unresolvedSites p)" using f by (simp add: distinct_map_filter)
  moreover have "openSite Q p d" if "d \<in> set (sp_unresolvedSites p)" for d
    using that f wf_obj_mem [OF w(1), of d] by (auto simp: openSite_def)
  ultimately show ?thesis using f w(2) by (simp add: boundPolicy_def)
qed

lemma resolve_bound:
  assumes "qt_policy_ok Q" "parsePolicyPayload Q payload current source now = Inr p"
    "resolvePolicy Q lookup elapsed p deadline previous = Inr p'"
  shows "boundPolicy Q p'" "canonicalRoutes Q (sp_routes p')" "sorted (sp_routes p')" "length (sp_routes p') \<le> 4096"
    "sp_sourceSites p' = sp_sourceSites p" "sp_metadata p' = sp_metadata p"
proof -
  have routes: "qt_routes_ok Q" using assms(1) by (simp add: qt_policy_ok_def)
  define q where "q = resolveLoop Q lookup elapsed previous deadline 0 (sp_unresolvedSites p) p"
  obtain rs where v: "validatedManagedRoutes Q (sp_routes q) = (rs, True)" and p': "p' = q\<lparr>sp_routes := sortedRoutes rs\<rparr>"
    using assms(3) by (auto simp: resolvePolicy_def invalidPolicy_def q_def [symmetric] Let_def split: if_splits prod.splits)
  have b: "boundPolicy Q q" "sp_sourceSites q = sp_sourceSites p" "sp_metadata q = sp_metadata p"
    using resolveLoop_bound [OF routes] parse_bound [OF assms(1,2)] unfolding q_def by simp_all
  have "canonicalManagedIpv4Route Q ` set (sp_routes q) = set (sp_routes q)"
    by (rule canonical_image [OF routes])
      (use b(1) siteRoutes_canonical [OF routes] in \<open>auto simp: boundPolicy_def resolvedRoutes_def\<close>)
  then have rs: "set rs = set (sp_routes q)" "canonicalRoutes Q rs" "length rs \<le> 4096"
    using validated_routes [OF routes v] by simp_all
  have "length (sortedRoutes rs) = length rs"
    using rs(2) sortedRoutes_facts [of rs] by (metis canonicalRoutes_def distinct_card)
  then show "boundPolicy Q p'" "canonicalRoutes Q (sp_routes p')" "sorted (sp_routes p')" "length (sp_routes p') \<le> 4096"
    "sp_sourceSites p' = sp_sourceSites p" "sp_metadata p' = sp_metadata p"
    using p' b rs sortedRoutes_facts [of rs] by (simp_all add: boundPolicy_def canonicalRoutes_def)
qed


definition refReader :: "string \<Rightarrow> json option" where
  "refReader s = Some (JObject (refPayload 3))"

definition refSnapshot :: ServerRoutingPolicySnapshot where
  "refSnapshot =
    \<lparr>sp_sourceSites = refSites, sp_resolvedSites = refSites, sp_routes = [''10.0.0.0/8''], sp_unresolvedSites = [],
     sp_revision = decimal_int 3, sp_contentHash = pm_contentHash (refMetadata 3), sp_issuedAt = Some 1000000,
     sp_expiresAt = Some 2000000, sp_forceEnabled = False, sp_source = [], sp_metadata = refMetadata 3\<rparr>"

lemma ref_snapshot: "parsePolicyPayload (qt_ref_with refReader) ''p'' None [] 1500000 = Inr refSnapshot"
proof -
  let ?Q = "qt_ref_with refReader"
  have v: "validateCandidate ?Q (refPayload 3) None (Some 1500000) 1500000 = Inr (refMetadata 3)"
    by (rule ref_validate) auto
  have sites: "canonicalSourceSites ?Q (JObject refSites) = (refSites, True)"
    unfolding refSites_def by (rule canonicalSourceSites_fixed [OF qt_ref_policy ref_site])
  have vals: "firstSiteValue (refPayload 3) sourceKeys = JObject refSites"
    "firstSiteValue (refPayload 3) resolvedKeys = JObject refSites" "containsSiteValue (refPayload 3)"
    "obj_value (refPayload 3) ''managedSplitTunnelForceEnabled'' = JUndefined"
    by (simp_all add: refPayload_def sourceKeys_def resolvedKeys_def containsSiteValue_def obj_value_def Let_def)
  have "boundedSites refSites refSites = Some refSites" "addLiterals ?Q refSites refSites = refSites"
    by (simp_all add: boundedSites_def refSites_def obj_contains_def obj_insert_def addLiterals_def)
  then have p: "policySites ?Q (refPayload 3) = Inr (refSites, refSites)"
    by (simp add: policySites_def vals sites)
  have r: "routesFromSites ?Q refSites = ([''10.0.0.0/8''], [], True)"
    by (simp add: routesFromSites_def scanSite_def refSites_def ref_canonical routes_unfold collected_def add_new_def
        non_empty_def sortedRoutes_def removeDuplicates_def)
  have "pm_revision (refMetadata 3) = decimal_int 3" "pm_issuedAt (refMetadata 3) = Some 1000000"
      "pm_expiresAt (refMetadata 3) = Some 2000000"
    by (simp_all add: refMetadata_def)
  then show ?thesis
    by (simp add: parsePolicyPayload_def MaximumPayloadBytes_def refReader_def [of "''p''"] vals v p r is_undefined_def
        refSnapshot_def)
qed


end
