(* ===== verification/Managed_Routing.thy ===== *)
theory Managed_Routing
  imports Servers_Repository Managed_Resolve Server_Routing
begin

text \<open>
  From a stored profile to the routes of the privileged service: the merge of the managed sites with their
  resolutions, the route mode (\<open>core/repositories/secureServersRepository.cpp\<close>) and the list of routes the connection
  controller sends (\<open>core/controllers/connectionController.cpp\<close>). The text of a number that a site map holds in
  place of a string is a parameter.
\<close>

section \<open>Definitions\<close>

text \<open>\<open>QVariant::toString\<close> of a member that came out of JSON.\<close>

fun variantText :: "(qdouble \<Rightarrow> string) \<Rightarrow> json \<Rightarrow> string" where
  "variantText numberText (JString s) = s"
| "variantText numberText (JBool b) = (if b then ''true'' else ''false'')"
| "variantText numberText (JDouble d) = numberText d"
| "variantText numberText _ = []"

definition mergeSitesMap :: "jobject \<Rightarrow> jobject \<Rightarrow> jobject" where
  "mergeSitesMap target source = foldl (\<lambda>sites (k, v). obj_insert k v sites) target source"

text \<open>The repository and the controller read a stored value with the same \<open>splitTunnelStoredIps\<close>.\<close>

fun mergeStoredIps :: "string list \<Rightarrow> string list \<Rightarrow> string list option" where
  "mergeStoredIps ips [] = Some ips"
| "mergeStoredIps ips (ip # rest) =
     (if ip \<in> set ips then mergeStoredIps ips rest
      else let ips = ips @ [ip] in
           if maximumRoutesPerSite < length ips then None else mergeStoredIps ips rest)"

fun mergeValues :: "qt \<Rightarrow> string list \<Rightarrow> string list \<Rightarrow> string list option" where
  "mergeValues Q ips [] = Some ips"
| "mergeValues Q ips (v # vs) =
     (let (storedIps, valueValid) = validatedManagedRouteTokens Q v in
      if \<not> valueValid then None
      else case mergeStoredIps ips storedIps of None \<Rightarrow> None | Some ips \<Rightarrow> mergeValues Q ips vs)"

definition mergeSplitTunnelIpValues :: "qt \<Rightarrow> string list \<Rightarrow> string option" where
  "mergeSplitTunnelIpValues Q values = map_option (join '', '') (mergeValues Q [] values)"

fun mergedSites ::
  "qt \<Rightarrow> (qdouble \<Rightarrow> string) \<Rightarrow> jobject \<Rightarrow> jobject \<Rightarrow> jobject \<Rightarrow> jobject \<Rightarrow> jobject option" where
  "mergedSites Q numberText resolved clientResolved sites [] = Some sites"
| "mergedSites Q numberText resolved clientResolved sites ((site, v) # rest) =
     (case mergeSplitTunnelIpValues Q [variantText numberText v, variantText numberText (obj_value resolved site),
             variantText numberText (obj_value clientResolved site)] of
        None \<Rightarrow> None
      | Some mergedIps \<Rightarrow>
          mergedSites Q numberText resolved clientResolved (obj_insert site (JString mergedIps) sites) rest)"

definition validSites :: "qt \<Rightarrow> jobject \<Rightarrow> jobject" where
  "validSites Q sites = (let (canonical, valid) = canonicalSourceSites Q (JObject sites) in if valid then canonical else [])"

definition hasSourceList :: "jobject \<Rightarrow> bool" where
  "hasSourceList serverConfig \<longleftrightarrow> obj_contains serverConfig ''managedSplitTunnelExceptSourceSites''
     \<or> obj_contains serverConfig ''managedSplitTunnelExceptSites''"

definition routingManagedVpnSites :: "qt \<Rightarrow> (qdouble \<Rightarrow> string) \<Rightarrow> jobject \<Rightarrow> RouteMode \<Rightarrow> jobject" where
  "routingManagedVpnSites Q numberText serverConfig mode =
     (if mode \<noteq> VpnAllExceptSites then []
      else
        let (sourceSites, sourceSitesValid) = canonicalSourceSites Q (JObject (sourceManagedVpnSites Q serverConfig mode));
            resolvedSites = normalizedManagedSites Q (obj_value serverConfig ''serverExcept'');
            clientResolvedSites = normalizedManagedSites Q
              (obj_value serverConfig ''managedSplitTunnelClientResolvedExceptSites'') in
        if \<not> sourceSitesValid then []
        else if hasSourceList serverConfig then
          (case mergedSites Q numberText resolvedSites clientResolvedSites [] sourceSites of
             None \<Rightarrow> [] | Some sites \<Rightarrow> validSites Q sites)
        else validSites Q (mergeSitesMap (mergeSitesMap sourceSites resolvedSites) clientResolvedSites))"

definition managedVpnSitesForRouting ::
  "repositoryServices \<Rightarrow> (qdouble \<Rightarrow> string) \<Rightarrow> qdatetime \<Rightarrow> serversRepository \<Rightarrow> int \<Rightarrow> RouteMode \<Rightarrow> jobject" where
  "managedVpnSitesForRouting R numberText instant s serverIndex mode =
     (if serverIndex < 0 \<or> int (length (m_orderedServerIds s)) \<le> serverIndex then []
      else
        let config = serverJson s serverIndex in
        if \<not> isEffective (rs_qt R) config instant then []
        else routingManagedVpnSites (rs_qt R) numberText config mode)"

definition hasSplitTunnelRouteValues :: "qt \<Rightarrow> (qdouble \<Rightarrow> string) \<Rightarrow> jobject \<Rightarrow> bool" where
  "hasSplitTunnelRouteValues Q numberText sites \<longleftrightarrow>
     list_ex (\<lambda>(k, v). checkIpSubnetFormat Q k \<or> splitTunnelStoredIps Q (variantText numberText v) \<noteq> []) sites"

definition rawManagedSplitTunnelingForceEnabled :: "serversRepository \<Rightarrow> int \<Rightarrow> bool" where
  "rawManagedSplitTunnelingForceEnabled s serverIndex \<longleftrightarrow>
     0 \<le> serverIndex \<and> serverIndex < int (length (m_orderedServerIds s))
     \<and> to_bool False (obj_value (serverJson s serverIndex) ''managedSplitTunnelForceEnabled'')"

definition isManagedSplitTunnelingForceEnabled ::
  "repositoryServices \<Rightarrow> qdatetime \<Rightarrow> serversRepository \<Rightarrow> int \<Rightarrow> bool" where
  "isManagedSplitTunnelingForceEnabled R instant s serverIndex \<longleftrightarrow>
     0 \<le> serverIndex \<and> serverIndex < int (length (m_orderedServerIds s))
     \<and> isEffective (rs_qt R) (serverJson s serverIndex) instant \<and> rawManagedSplitTunnelingForceEnabled s serverIndex"

definition effectiveSiteRouteMode ::
  "repositoryServices \<Rightarrow> (qdouble \<Rightarrow> string) \<Rightarrow> qdatetime \<Rightarrow> serversRepository \<Rightarrow> int \<Rightarrow> bool \<Rightarrow> RouteMode \<Rightarrow> RouteMode" where
  "effectiveSiteRouteMode R numberText instant s serverIndex splitEnabled chosenMode =
     (if splitEnabled then
        (if chosenMode = VpnAllSites then VpnOnlyForwardSites else chosenMode)
      else if isManagedSplitTunnelingForceEnabled R instant s serverIndex
        \<and> hasSplitTunnelRouteValues (rs_qt R) numberText
            (managedVpnSitesForRouting R numberText instant s serverIndex VpnAllExceptSites)
      then VpnAllExceptSites
      else VpnAllSites)"

definition managedRoutePolicyMetadata ::
  "repositoryServices \<Rightarrow> serversRepository \<Rightarrow> int \<Rightarrow> ManagedRoutePolicyMetadata option" where
  "managedRoutePolicyMetadata R s serverIndex =
     (if serverIndex < 0 \<or> int (length (m_orderedServerIds s)) \<le> serverIndex then None
      else lastKnownGoodForEffectiveContent (rs_qt R) (serverJson s serverIndex))"

definition siteIps :: "qt \<Rightarrow> (qdouble \<Rightarrow> string) \<Rightarrow> jobject \<Rightarrow> string list" where
  "siteIps Q numberText sites =
     concat (map (\<lambda>(k, v). (if checkIpSubnetFormat Q k then [k] else []) @ splitTunnelStoredIps Q (variantText numberText v)) sites)"

definition managedSplitTunnelIpsForSync ::
  "repositoryServices \<Rightarrow> (qdouble \<Rightarrow> string) \<Rightarrow> qdatetime \<Rightarrow> serversRepository \<Rightarrow> int \<Rightarrow> RouteMode \<Rightarrow> string list" where
  "managedSplitTunnelIpsForSync R numberText instant s serverIndex routeMode =
     (if routeMode = VpnAllSites then []
      else
        let ips = removeDuplicates (siteIps (rs_qt R) numberText
              (managedVpnSitesForRouting R numberText instant s serverIndex routeMode));
            (ips, routesValid) = validatedManagedRoutes (rs_qt R) ips in
        if \<not> routesValid then [] else sort ips)"

section \<open>The merged sites are canonical and bound to the source\<close>

definition canonicalSites :: "qt \<Rightarrow> jobject \<Rightarrow> bool" where
  "canonicalSites Q sites \<longleftrightarrow>
     wf_obj sites \<and> sitesCost Q sites \<le> maximumTotalRouteCount \<and> (\<forall>(k, v) \<in> set sites. siteOk Q k v)"

lemma canonicalSites_Nil [simp]: "canonicalSites Q []"
  by (simp add: canonicalSites_def sitesCost_def)

lemma canonicalSourceSites_canonical:
  "qt_policy_ok Q \<Longrightarrow> canonicalSites Q (fst (canonicalSourceSites Q v))"
  using canonicalSourceSites_inv [of Q v "fst (canonicalSourceSites Q v)" "snd (canonicalSourceSites Q v)"]
  unfolding canonicalSites_def by simp

lemma validSites_canonical: "qt_policy_ok Q \<Longrightarrow> canonicalSites Q (validSites Q sites)"
  using canonicalSourceSites_canonical [of Q "JObject sites"] by (auto simp: validSites_def split: prod.split)

lemma routing_canonical: "qt_policy_ok Q \<Longrightarrow> canonicalSites Q (routingManagedVpnSites Q numberText config mode)"
  by (auto simp: routingManagedVpnSites_def Let_def validSites_canonical split: prod.split option.split)

lemma forRouting_canonical:
  "qt_policy_ok (rs_qt R) \<Longrightarrow> canonicalSites (rs_qt R) (managedVpnSitesForRouting R numberText instant s index mode)"
  by (simp add: managedVpnSitesForRouting_def Let_def routing_canonical)

text \<open>Canonical keys stay as they are when their values change.\<close>

definition fixedKey :: "qt \<Rightarrow> string \<Rightarrow> bool" where
  "fixedKey Q k \<longleftrightarrow> q_toLower Q (trimmed Q k) = k \<and> (canonicalManagedIpv4Route Q k \<noteq> [] \<longrightarrow> canonicalManagedIpv4Route Q k = k)"

lemma siteOk_fixedKey: "siteOk Q k v \<Longrightarrow> fixedKey Q k"
  by (auto simp: siteOk_def fixedKey_def)

lemma keys_obj_insert: "fst ` set (obj_insert k w ob) \<subseteq> insert k (fst ` set ob)"
proof -
  have "set (obj_insert k w ob) \<subseteq> insert (k, w) (set ob)"
    by (cases "w = JUndefined") (auto simp: obj_insert_def obj_remove_def set_obj_put)
  from image_mono [OF this, of fst] show ?thesis by simp
qed

lemma insertSite_keys:
  assumes "fixedKey Q k"
  shows "fst ` set (sl_sites (insertSite Q st k v)) \<subseteq> insert k (fst ` set (sl_sites st))"
proof -
  have site: "q_toLower Q (trimmed Q k) = k"
    "(if canonicalManagedIpv4Route Q k \<noteq> [] then canonicalManagedIpv4Route Q k else k) = k"
    using assms by (auto simp: fixedKey_def)
  have "sl_sites (insertSite Q st k v) = sl_sites st \<or> (\<exists>w. sl_sites (insertSite Q st k v) = obj_insert k w (sl_sites st))"
    unfolding insertSite_def Let_def site by (simp split: prod.split) blast
  then show ?thesis using keys_obj_insert [of k _ "sl_sites st"] by (elim disjE exE) (simp_all add: subset_insertI)
qed

lemma canonicalSourceSites_keys:
  assumes "\<forall>(k, v) \<in> set ob. fixedKey Q k"
  shows "fst ` set (fst (canonicalSourceSites Q (JObject ob))) \<subseteq> fst ` set ob"
proof -
  have "fst ` set (sl_sites (run (siteStep Q) st ob)) \<subseteq> fst ` set (sl_sites st) \<union> fst ` set ob" for st
    using assms
  proof (induction ob arbitrary: st)
    case (Cons kv ob)
    obtain k v where kv: "kv = (k, v)" by (cases kv)
    have "fixedKey Q k" using Cons.prems kv by simp
    note key = insertSite_keys [OF this, of st v]
    have "fst ` set (sl_sites (run (siteStep Q) (insertSite Q st k v) ob))
        \<subseteq> fst ` set (sl_sites (insertSite Q st k v)) \<union> fst ` set ob"
      using Cons.prems by (intro Cons.IH) simp
    also have "\<dots> \<subseteq> fst ` set (sl_sites st) \<union> fst ` set (kv # ob)" using key by (auto simp only: kv list.set image_insert fst_conv)
    finally show ?case by (simp add: kv siteStep_def [of Q st])
  qed simp
  from this [of "\<lparr>sl_sites = [], sl_isValid = length ob \<le> maximumSiteCount, sl_totalRouteBudget = 0\<rparr>"]
  show ?thesis by (simp add: canonicalSourceSites_run Let_def)
qed

lemma mergedSites_keys:
  "mergedSites Q numberText resolved clientResolved sites source = Some out
   \<Longrightarrow> fst ` set out \<subseteq> fst ` set sites \<union> fst ` set source"
proof (induction source arbitrary: sites)
  case (Cons kv source)
  obtain k v where kv: "kv = (k, v)" by (cases kv)
  obtain ips where "mergedSites Q numberText resolved clientResolved (obj_insert k (JString ips) sites) source = Some out"
    using Cons.prems by (auto simp: kv split: option.splits)
  from Cons.IH [OF this] keys_obj_insert [of k "JString ips" sites] show ?case by (auto simp only: kv list.set image_insert fst_conv)
qed simp

lemma routing_bound:
  assumes "qt_policy_ok Q" "hasSourceList config"
  shows "fst ` set (routingManagedVpnSites Q numberText config mode)
    \<subseteq> fst ` set (fst (canonicalSourceSites Q (JObject (sourceManagedVpnSites Q config mode))))"
proof -
  obtain source valid where src: "canonicalSourceSites Q (JObject (sourceManagedVpnSites Q config mode)) = (source, valid)"
    by fastforce
  have fixed: "fixedKey Q k" if "k \<in> fst ` set source" for k
    using canonicalSourceSites_inv [OF assms(1) src] that siteOk_fixedKey [of Q k] by fastforce
  have "fst ` set (validSites Q out) \<subseteq> fst ` set source"
    if "mergedSites Q numberText resolved clientResolved [] source = Some out" for resolved clientResolved out
  proof -
    have keys: "fst ` set out \<subseteq> fst ` set source" using mergedSites_keys [OF that] by simp
    then have "\<forall>(k, v) \<in> set out. fixedKey Q k" using fixed by force
    then have "fst ` set (fst (canonicalSourceSites Q (JObject out))) \<subseteq> fst ` set source"
      by (rule order_trans [OF canonicalSourceSites_keys keys])
    then show ?thesis by (cases "snd (canonicalSourceSites Q (JObject out))") (simp_all add: validSites_def case_prod_beta)
  qed
  note merged = this
  show ?thesis
  proof (cases "mode = VpnAllExceptSites \<and> valid")
    case True
    let ?merged = "mergedSites Q numberText (normalizedManagedSites Q (obj_value config ''serverExcept''))
      (normalizedManagedSites Q (obj_value config ''managedSplitTunnelClientResolvedExceptSites'')) [] source"
    from True show ?thesis using assms(2) src merged
      by (cases ?merged) (simp_all add: routingManagedVpnSites_def Let_def)
  next
    case False
    then show ?thesis using src by (auto simp: routingManagedVpnSites_def Let_def)
  qed
qed

section \<open>The routes of canonical sites\<close>

lemma siteOk_ips:
  assumes "qt_routes_ok Q" "siteOk Q k v"
  shows "variantText numberText v = jstr v"
    and "splitTunnelStoredIps Q (jstr v) = fst (validatedManagedRouteTokens Q (jstr v))"
    and "checkIpSubnetFormat Q k \<Longrightarrow> canonicalManagedIpv4Route Q k = k \<and> k \<noteq> []"
proof -
  obtain routes where v: "v = JString (join '', '' routes)" "validatedManagedRouteTokens Q (join '', '' routes) = (routes, True)"
    and k: "canonicalManagedIpv4Route Q k \<noteq> [] \<longrightarrow> canonicalManagedIpv4Route Q k = k" "isAllowedManagedSiteKey Q k"
      "q_toLower Q (trimmed Q k) = k"
    using assms(2) by (auto simp: siteOk_def)
  show "variantText numberText v = jstr v" "splitTunnelStoredIps Q (jstr v) = fst (validatedManagedRouteTokens Q (jstr v))"
    by (simp_all add: v splitTunnelStoredIps_def)
  assume c: "checkIpSubnetFormat Q k"
  have "CHR ''/'' \<in> set k \<or> q_parseHost Q k \<noteq> QHostNull"
    using c by (auto simp: checkIpSubnetFormat_def checkIPv4Format_def split: if_splits)
  then have "isAllowedManagedIpv4Route Q k" "k \<noteq> []"
    using k(2) by (auto simp: isAllowedManagedSiteKey_def k(3) Let_def split: if_splits)
  then show "canonicalManagedIpv4Route Q k = k \<and> k \<noteq> []"
    using k(1) canonical_Nil_iff [OF assms(1), of k] by simp
qed

lemma siteIps_cost:
  "qt_routes_ok Q \<Longrightarrow> \<forall>(k, v) \<in> set sites. siteOk Q k v \<Longrightarrow> length (siteIps Q numberText sites) \<le> sitesCost Q sites"
proof (induction sites)
  case (Cons kv sites)
  obtain k v where kv: "kv = (k, v)" by (cases kv)
  then have "siteOk Q k v" using Cons.prems(2) by simp
  note ips = siteOk_ips(1,2) [OF Cons.prems(1) this]
  have "length (siteIps Q numberText sites) \<le> sitesCost Q sites" using Cons by simp
  then show ?case by (simp add: kv siteIps_def sitesCost_def siteCost_def ips)
qed (simp add: siteIps_def)

lemma siteIps_canonical:
  assumes "qt_routes_ok Q" "\<forall>(k, v) \<in> set sites. siteOk Q k v" "r \<in> set (siteIps Q numberText sites)"
  shows "canonicalManagedIpv4Route Q r = r \<and> r \<noteq> []"
proof -
  obtain k v where kv: "(k, v) \<in> set sites"
    and r: "checkIpSubnetFormat Q k \<and> r = k \<or> r \<in> set (splitTunnelStoredIps Q (variantText numberText v))"
    using assms(3) by (auto simp: siteIps_def split: if_splits)
  then have "siteOk Q k v" using assms(2) by blast
  note ips = siteOk_ips [OF assms(1) this]
  from r show ?thesis using ips(3) tokens_allowed [OF assms(1), of r "jstr v"] by (auto simp: ips(1,2))
qed

lemma length_removeDuplicates: "length (removeDuplicates xs) \<le> length xs"
proof -
  have "length (removeDuplicates xs) = card (set xs)"
    using set_removeDuplicates [of xs] distinct_card [of "removeDuplicates xs"] by simp
  then show ?thesis using card_length [of xs] by simp
qed

text \<open>Canonical sites always pass the final validation, so that no route of theirs is lost.\<close>

lemma canonicalSites_validated:
  assumes "qt_policy_ok Q" "canonicalSites Q sites"
  obtains rs where "validatedManagedRoutes Q (removeDuplicates (siteIps Q numberText sites)) = (rs, True)"
    "set rs = set (siteIps Q numberText sites)" "distinct rs" "length rs \<le> 4096"
proof -
  let ?ips = "removeDuplicates (siteIps Q numberText sites)"
  have ok: "qt_routes_ok Q" using assms(1) by (simp add: qt_policy_ok_def)
  have sites: "\<forall>(k, v) \<in> set sites. siteOk Q k v" "sitesCost Q sites \<le> 4096"
    using assms(2) by (simp_all add: canonicalSites_def maximumTotalRouteCount_def)
  have canonical: "canonicalManagedIpv4Route Q r = r \<and> r \<noteq> []" if "r \<in> set ?ips" for r
    using siteIps_canonical [OF ok sites(1)] that by (simp add: set_removeDuplicates)
  have len: "length ?ips \<le> 4096"
    using length_removeDuplicates [of "siteIps Q numberText sites"] siteIps_cost [OF ok sites(1), of numberText] sites(2) by simp
  obtain rs valid where v: "validatedManagedRoutes Q ?ips = (rs, valid)" by fastforce
  have "\<forall>r \<in> set ?ips. isAllowedManagedIpv4Route Q r" using canonical canonical_Nil_iff [OF ok] by metis
  with validatedManagedRoutes_correct [OF ok v] len have "valid" "distinct rs" "set rs = canonicalManagedIpv4Route Q ` set ?ips"
    "length rs \<le> 4096" by auto
  moreover have "canonicalManagedIpv4Route Q ` set ?ips = set (siteIps Q numberText sites)"
    using canonical_image [OF ok, of "set ?ips"] canonical by (simp add: set_removeDuplicates)
  ultimately show thesis using that v by simp
qed

lemma forRouting_other: "m \<noteq> VpnAllExceptSites \<Longrightarrow> managedVpnSitesForRouting R numberText instant s index m = []"
  by (simp add: managedVpnSitesForRouting_def routingManagedVpnSites_def Let_def)

lemma ips_of_sites:
  assumes "qt_policy_ok (rs_qt R)"
  shows "set (managedSplitTunnelIpsForSync R numberText instant s index m)
       = set (siteIps (rs_qt R) numberText (managedVpnSitesForRouting R numberText instant s index m))
    \<and> sorted (managedSplitTunnelIpsForSync R numberText instant s index m)
    \<and> distinct (managedSplitTunnelIpsForSync R numberText instant s index m)
    \<and> length (managedSplitTunnelIpsForSync R numberText instant s index m) \<le> 4096"
proof (cases "m = VpnAllSites")
  case True
  then show ?thesis using forRouting_other [of m] by (simp add: managedSplitTunnelIpsForSync_def siteIps_def)
next
  case False
  let ?ips = "siteIps (rs_qt R) numberText (managedVpnSitesForRouting R numberText instant s index m)"
  obtain rs where "validatedManagedRoutes (rs_qt R) (removeDuplicates ?ips) = (rs, True)" "set rs = set ?ips"
    "distinct rs" "length rs \<le> 4096"
    by (rule canonicalSites_validated [OF assms forRouting_canonical [OF assms]])
  then show ?thesis using False by (simp add: managedSplitTunnelIpsForSync_def)
qed

text \<open>
  C3. The routes that go to the privileged service are exactly those of the managed sites. The list is sorted,
  without duplicates, at most 4096 long and every route passes the safety filter; no route of an effective
  policy is dropped by the last validation. It is empty unless the bypass mode is asked for and the
  stored policy is effective at that instant. When the profile has a source list, every site is one of that list,
  whatever the stored resolutions contain. And without a local choice, the bypass mode is forced exactly when
  the effective policy asks for it and there is a route to apply.
\<close>

theorem managed_ips_exact:
  fixes s :: serversRepository and R :: repositoryServices and index :: int and instant :: qdatetime
    and mode :: RouteMode and numberText :: "qdouble \<Rightarrow> string"
  assumes "qt_policy_ok (rs_qt R)"
  defines "Q \<equiv> rs_qt R" and "config \<equiv> serverJson s index"
  defines "sites \<equiv> managedVpnSitesForRouting R numberText instant s index mode"
  defines "ips \<equiv> managedSplitTunnelIpsForSync R numberText instant s index"
  shows "set (ips mode) = set (siteIps Q numberText sites)
    \<and> sorted (ips mode) \<and> distinct (ips mode) \<and> length (ips mode) \<le> 4096 \<and> list_all (isAllowedManagedIpv4Route Q) (ips mode)
    \<and> (ips mode \<noteq> [] \<longrightarrow> mode = VpnAllExceptSites \<and> isEffective Q config instant)
    \<and> (hasSourceList config \<longrightarrow>
         fst ` set sites \<subseteq> fst ` set (fst (canonicalSourceSites Q (JObject (sourceManagedVpnSites Q config mode)))))
    \<and> (effectiveSiteRouteMode R numberText instant s index False chosen = VpnAllExceptSites
         \<longleftrightarrow> isManagedSplitTunnelingForceEnabled R instant s index \<and> ips VpnAllExceptSites \<noteq> [])"
proof -
  have ok: "qt_routes_ok Q" using assms(1) by (simp add: qt_policy_ok_def Q_def)
  have can: "canonicalSites Q (managedVpnSitesForRouting R numberText instant s index m)" for m
    unfolding Q_def by (rule forRouting_canonical [OF assms(1)])
  note none = forRouting_other [of _ R numberText instant s index]
  have ips: "set (ips m) = set (siteIps Q numberText (managedVpnSitesForRouting R numberText instant s index m))
      \<and> sorted (ips m) \<and> distinct (ips m) \<and> length (ips m) \<le> 4096" for m
    unfolding ips_def Q_def by (rule ips_of_sites [OF assms(1)])
  have some: "siteIps Q numberText xs \<noteq> [] \<longleftrightarrow> hasSplitTunnelRouteValues Q numberText xs" for xs
    by (induction xs) (auto simp: siteIps_def hasSplitTunnelRouteValues_def)
  have "ips m \<noteq> [] \<longleftrightarrow> hasSplitTunnelRouteValues Q numberText (managedVpnSitesForRouting R numberText instant s index m)" for m
    using ips [of m] some by (metis set_empty)
  then have forced: "effectiveSiteRouteMode R numberText instant s index False chosen = VpnAllExceptSites
      \<longleftrightarrow> isManagedSplitTunnelingForceEnabled R instant s index \<and> ips VpnAllExceptSites \<noteq> []"
    by (simp add: effectiveSiteRouteMode_def Q_def)
  have effective: "mode = VpnAllExceptSites \<and> isEffective Q config instant" if "ips mode \<noteq> []"
  proof -
    have "siteIps Q numberText sites \<noteq> []" using that ips [of mode] unfolding sites_def by (metis set_empty)
    then have "sites \<noteq> []" by (auto simp: siteIps_def)
    then show ?thesis using none [of mode] unfolding sites_def by (auto simp: managedVpnSitesForRouting_def Let_def Q_def config_def split: if_splits)
  qed
  have "canonicalManagedIpv4Route Q r \<noteq> []" if "r \<in> set (ips mode)" for r
    using siteIps_canonical [OF ok, of sites r numberText] can [of mode] that ips [of mode]
    by (simp add: canonicalSites_def sites_def)
  then have "list_all (isAllowedManagedIpv4Route Q) (ips mode)" using canonical_Nil_iff [OF ok] by (auto simp: list_all_iff)
  moreover have "fst ` set sites \<subseteq> fst ` set (fst (canonicalSourceSites Q (JObject (sourceManagedVpnSites Q config mode))))"
    if "hasSourceList config"
    using routing_bound [OF assms(1), of config numberText mode] that
    by (simp add: sites_def managedVpnSitesForRouting_def Let_def config_def Q_def)
  ultimately show ?thesis using ips [of mode] effective forced unfolding sites_def by blast
qed

section \<open>A concrete profile\<close>

definition refManaged :: jobject where
  "refManaged = [(''managedSplitTunnelExceptSites'', JObject [(''10.0.0.0/8'', JString [])]), (''storageServerId'', JString ''a'')]"

definition refManagedRepository :: serversRepository where
  "refManagedRepository = (emptyRepository Map.empty)\<lparr>m_serverJsonById := [''a'' \<mapsto> refManaged], m_orderedServerIds := [''a''],
     m_defaultServerId := ''a''\<rparr>"

lemma ref_managed_json:
  "serverJson refManagedRepository 0 = [(''managedSplitTunnelExceptSites'', JObject [(''10.0.0.0/8'', JString [])])]"
  by (simp add: serverJson_def serverIdAt_def refManagedRepository_def emptyRepository_def storedJson_def refManaged_def
      withoutStorageServerId_def storageServerId_def obj_remove_def Let_def)

lemma ref_managed_sites:
  "managedVpnSitesForRouting rs_ref numberText instant refManagedRepository 0 VpnAllExceptSites = [(''10.0.0.0/8'', JString [])]"
proof -
  note fixed = canonicalSourceSites_fixed [OF qt_ref_policy ref_site]
  have qt: "rs_qt rs_ref = qt_ref" by (simp add: rs_ref_def)
  have source: "sourceManagedVpnSites qt_ref (serverJson refManagedRepository 0) VpnAllExceptSites = [(''10.0.0.0/8'', JString [])]"
    by (simp add: ref_managed_json sourceManagedVpnSites_def normalizedManagedSites_def obj_contains_def obj_value_def)
  have empty: "validatedManagedRouteTokens qt_ref [] = ([], True)"
    by (simp add: tokens_unfold tokens_where_def collected_def)
  have effective: "isEffective qt_ref (serverJson refManagedRepository 0) instant"
    using fixed by (simp add: ref_managed_json isEffective_def stateKey_def obj_value_def obj_contains_def
        canonicalSourcePolicyContent_def sourceSitesValue_def sourceSitesKeys_def containsSourceSites_def Let_def)
  have "mergedSites qt_ref numberText [] [] [] [(''10.0.0.0/8'', JString [])] = Some [(''10.0.0.0/8'', JString [])]"
    by (simp add: mergeSplitTunnelIpValues_def empty obj_value_def obj_insert_def)
  moreover have "normalizedManagedSites qt_ref (obj_value (serverJson refManagedRepository 0) k) = []"
    if "k \<noteq> ''managedSplitTunnelExceptSites''" for k
    using that by (simp add: ref_managed_json normalizedManagedSites_def obj_value_def)
  moreover have "hasSourceList (serverJson refManagedRepository 0)"
    by (simp add: ref_managed_json hasSourceList_def obj_contains_def)
  moreover have "length (m_orderedServerIds refManagedRepository) = 1" by (simp add: refManagedRepository_def)
  ultimately show ?thesis
    by (simp add: managedVpnSitesForRouting_def routingManagedVpnSites_def Let_def qt effective source fixed validSites_def)
qed

lemma distinct_singleton: "set xs = {x} \<Longrightarrow> distinct xs \<Longrightarrow> xs = [x]"
  by (cases xs; cases "tl xs") auto

lemma ref_literal: "checkIpSubnetFormat qt_ref ''10.0.0.0/8''"
proof -
  have "split_on CHR ''/'' ''10.0.0.0/8'' = [''10.0.0.0'', ''8'']" using split_on_two [of "CHR ''/''" "''10.0.0.0''" "''8''"] by simp
  moreover have "digit_value CHR ''8'' = 8" "is_ascii_digit CHR ''8''" by code_simp+
  then have "parse_unsigned 2147483648 ''8'' = Some 8" by (simp add: parse_unsigned_def undecimal_def)
  moreover have "quad_text 0x0a000000 = ''10.0.0.0''" by (simp add: quad_text_def decimal.simps text_simps)
  then have "is_v4 (q_parseHost qt_ref ''10.0.0.0'')"
    using host_text_facts(1) [OF qt_ref_routes, where a = "0x0a000000"] by simp
  ultimately show ?thesis by (simp add: checkIpSubnetFormat_def checkIPv4Format_def)
qed

theorem managed_ips_exact_witness:
  "managedSplitTunnelIpsForSync rs_ref (\<lambda>_. []) None refManagedRepository 0 VpnAllExceptSites = [''10.0.0.0/8'']"
proof -
  let ?ips = "managedSplitTunnelIpsForSync rs_ref (\<lambda>_. []) None refManagedRepository 0 VpnAllExceptSites"
  have qt: "rs_qt rs_ref = qt_ref" by (simp add: rs_ref_def)
  have "siteIps qt_ref (\<lambda>_. []) [(''10.0.0.0/8'', JString [])] = [''10.0.0.0/8'']"
    using ref_literal by (simp add: siteIps_def splitTunnelStoredIps_def tokens_unfold tokens_where_def collected_def)
  then have "set ?ips = {''10.0.0.0/8''}" "distinct ?ips"
    using managed_ips_exact [where R = rs_ref and s = refManagedRepository and index = 0 and numberText = "\<lambda>_. []"
        and instant = None and mode = VpnAllExceptSites] qt_ref_policy
    by (simp_all add: qt ref_managed_sites)
  then show ?thesis by (rule distinct_singleton)
qed

end
