(* ===== verification/Migration_Offer.thy ===== *)
theory Migration_Offer
  imports Servers_Repository Json_Scanner
begin

text \<open>
  The wire side of the migration of a connection to a new transport: the signed offer
  (\<open>common/awgMigration.h\<close>), the authorization of a repeated attempt
  (\<open>common/awgMigrationRecovery.h\<close>), the framing of a control reply
  (\<open>common/awgMigrationTransport.h\<close>), the digests of the running backend
  (\<open>common/awgBackendObservation.h\<close>), and the profile a migration would store
  (\<open>patchClient\<close> and \<open>committedProfile\<close> of \<open>awgMigrationController.cpp\<close>).
\<close>

section \<open>Envelopes\<close>

text \<open>
  Services beside those of the repository: Base64 in both directions (\<open>fromBase64Encoding\<close> with
  \<open>AbortOnBase64DecodingErrors\<close>), \<open>toLatin1\<close>, \<open>fromUtf8\<close>, \<open>fromHex\<close>, an Ed25519 check of a signature over a message,
  and the number readers \<open>QString::toLongLong\<close> and \<open>QByteArray::toLongLong\<close> with their \<open>ok\<close> flag.
\<close>

record migrationServices =
  mg_repository :: repositoryServices
  mg_fromBase64 :: "string \<Rightarrow> string option"
  mg_toBase64 :: "string \<Rightarrow> string"
  mg_toLatin1 :: "string \<Rightarrow> string"
  mg_fromUtf8 :: "string \<Rightarrow> string"
  mg_fromHex :: "string \<Rightarrow> string"
  mg_verify :: "string \<Rightarrow> string \<Rightarrow> string \<Rightarrow> bool"
  mg_toLongLong :: "string \<Rightarrow> int option"
  mg_byteNumber :: "string \<Rightarrow> int option"

abbreviation mg_qt :: "migrationServices \<Rightarrow> qt" where
  "mg_qt M \<equiv> rs_qt (mg_repository M)"

definition Schema :: int where "Schema = 1"
definition MaximumDocumentBytes :: nat where "MaximumDocumentBytes = 32768"

definition parameterKeys :: "string list" where
  "parameterKeys = [''Jc'', ''Jmin'', ''Jmax'', ''S1'', ''S2'', ''S3'', ''S4'', ''H1'', ''H2'', ''H3'', ''H4'',
     ''I1'', ''I2'', ''I3'', ''I4'', ''I5'', ''HeaderProtectionKey'', ''ContentPaddingAddition'',
     ''RekeyAfterTime'', ''RekeyTimeout'', ''RejectAfterTime'', ''KeepaliveTimeout'',
     ''MaxHandshakeAttempts'', ''RandomTrailers'', ''DisableCookies'']"

definition identityFields :: "string list" where
  "identityFields = parameterKeys @ [''hostName'', ''port'', ''client_ip'', ''client_pub_key'', ''server_pub_key'']"

definition textHash :: "qt \<Rightarrow> string \<Rightarrow> string" where
  "textHash Q s = to_hex (q_sha256 Q (q_toUtf8 Q s))"

definition sourceFingerprint :: "qt \<Rightarrow> jobject \<Rightarrow> string" where
  "sourceFingerprint Q client =
     (let identity = foldl (\<lambda>ob name. if obj_contains client name then obj_insert name (obj_value client name) ob else ob)
            [] identityFields;
          identity = (if jstr (obj_value client ''psk_key'') \<noteq> []
            then obj_insert ''pskHash'' (JString (textHash Q (jstr (obj_value client ''psk_key'')))) identity else identity)
      in digest Q identity)"

definition hasExactKeys :: "jobject \<Rightarrow> string list \<Rightarrow> bool" where
  "hasExactKeys ob keys \<longleftrightarrow> set (obj_keys ob) = set keys"

text \<open>The empty text stands for a refusal, and \<open>None\<close> for the default \<open>expectedBytes = -1\<close>.\<close>

definition strictBase64 :: "migrationServices \<Rightarrow> string \<Rightarrow> nat option \<Rightarrow> string" where
  "strictBase64 M v expectedBytes =
     (let encoded = mg_toLatin1 M v in
      case mg_fromBase64 M encoded of
        None \<Rightarrow> []
      | Some decoded \<Rightarrow>
          if mg_toBase64 M decoded \<noteq> encoded
             \<or> (case expectedBytes of Some n \<Rightarrow> length decoded \<noteq> n | None \<Rightarrow> False) then []
          else decoded)"

definition verifyEnvelope :: "migrationServices \<Rightarrow> jobject \<Rightarrow> string \<Rightarrow> jobject option" where
  "verifyEnvelope M envelope pinnedKey =
     (if \<not> hasExactKeys envelope [''payload'', ''signature''] \<or> length pinnedKey \<noteq> 32 then None
      else if \<not> is_string (obj_value envelope ''payload'') \<or> \<not> is_string (obj_value envelope ''signature'')
        \<or> length (jstr (obj_value envelope ''payload'')) > MaximumDocumentBytes * 2 then None
      else
        let bytes = strictBase64 M (jstr (obj_value envelope ''payload'')) None;
            signature = strictBase64 M (jstr (obj_value envelope ''signature'')) (Some 64) in
        if bytes = [] \<or> length bytes > MaximumDocumentBytes \<or> signature = [] then None
        else if \<not> mg_verify M pinnedKey signature bytes then None
        else case q_jsonParse (mg_qt M) bytes of
            Some (JObject payload) \<Rightarrow> Some payload
          | _ \<Rightarrow> None)"

section \<open>Offers\<close>

record Binding =
  b_serverPublicKey :: string
  b_peerPublicKey :: string
  b_containerId :: string
  b_sourceFingerprint :: string
  b_nonce :: string
  b_highestGeneration :: int

text \<open>
  The two patterns of an offer. A dollar sign matches at the end of the text and before a final
  newline, so one trailing newline is admitted.
\<close>

definition dollarText :: "string \<Rightarrow> string" where
  "dollarText s = (if s \<noteq> [] \<and> last s = newline then butlast s else s)"

definition is_host_char :: "char \<Rightarrow> bool" where
  "is_host_char c \<longleftrightarrow> is_ascii_digit c \<or> (CHR ''A'' \<le> c \<and> c \<le> CHR ''Z'') \<or> (CHR ''a'' \<le> c \<and> c \<le> CHR ''z'')
     \<or> c = CHR ''.'' \<or> c = CHR ''-''"

definition endpointPort :: "string \<Rightarrow> string option" where
  "endpointPort s =
     (let t = dollarText s; host = takeWhile (\<lambda>c. c \<noteq> CHR '':'') t; port = drop (Suc (length host)) t in
      if CHR '':'' \<in> set t \<and> list_all is_host_char host \<and> 1 \<le> length host \<and> length host \<le> 253
         \<and> list_all is_ascii_digit port \<and> 1 \<le> length port \<and> length port \<le> 5
      then Some port else None)"

definition addressMatches :: "string \<Rightarrow> bool" where
  "addressMatches s \<longleftrightarrow>
     (let t = dollarText s; address = takeWhile (\<lambda>c. c \<noteq> CHR ''/'') t; rest = drop (length address) t in
      list_all is_dotted address \<and> 7 \<le> length address \<and> length address \<le> 15
      \<and> (rest = [] \<or> (list_all is_ascii_digit (tl rest) \<and> 2 \<le> length rest \<and> length rest \<le> 3)))"

definition offerKeys :: "string list" where
  "offerKeys = [''schema'', ''serverPublicKey'', ''peerPublicKey'', ''containerId'', ''sourceFingerprint'',
     ''nonce'', ''generation'', ''expiresAt'', ''target'', ''challenge'']"

definition MaximumGeneration :: int where "MaximumGeneration = 9007199254740991"

definition parameterOk :: "string \<times> json \<Rightarrow> bool" where
  "parameterOk kv \<longleftrightarrow> fst kv \<in> set parameterKeys \<and> is_string (snd kv) \<and> length (jstr (snd kv)) \<le> 4096
     \<and> newline \<notin> set (jstr (snd kv)) \<and> CHR 0x0D \<notin> set (jstr (snd kv))"

definition paddingOk :: "qt \<Rightarrow> jobject \<Rightarrow> string \<Rightarrow> bool" where
  "paddingOk Q parameters name =
     (case q_toInt Q (jstr (obj_value parameters name)) of
        None \<Rightarrow> False | Some v \<Rightarrow> 12 \<le> v \<and> v \<le> 65535)"

definition portOk :: "qt \<Rightarrow> string \<Rightarrow> bool" where
  "portOk Q endpoint =
     (case endpointPort endpoint of
        None \<Rightarrow> False
      | Some port \<Rightarrow> let n = (case q_toInt Q port of Some v \<Rightarrow> v | None \<Rightarrow> 0) in 1 \<le> n \<and> n \<le> 65535)"

definition offerTarget :: "jobject \<Rightarrow> jobject" where
  "offerTarget offer = to_object (obj_value offer ''target'')"

definition offerParameters :: "jobject \<Rightarrow> jobject" where
  "offerParameters offer = to_object (obj_value (offerTarget offer) ''parameters'')"

text \<open>The error is the reason a rejected offer is recorded with.\<close>

definition validateOffer :: "migrationServices \<Rightarrow> jobject \<Rightarrow> Binding \<Rightarrow> int \<Rightarrow> string + unit" where
  "validateOffer M offer binding now =
     (let Q = mg_qt M; generation = to_double (dbl_int (-1)) (obj_value offer ''generation'');
          target = offerTarget offer; parameters = offerParameters offer;
          challenge = to_object (obj_value offer ''challenge'') in
      if \<not> hasExactKeys offer offerKeys then Inl ''offer_fields''
      else if to_int (-1) (obj_value offer ''schema'') \<noteq> Schema then Inl ''offer_schema''
      else if dbl_le generation (dbl_int (b_highestGeneration binding)) \<or> dbl_less (dbl_int MaximumGeneration) generation
        \<or> \<not> dbl_eq generation (dbl_int (dbl_to_int generation)) then Inl ''offer_generation''
      else if dbl_le (to_double (dbl_int (-1)) (obj_value offer ''expiresAt'')) (dbl_int now) then Inl ''offer_expired''
      else if jstr (obj_value offer ''serverPublicKey'') \<noteq> b_serverPublicKey binding
        \<or> jstr (obj_value offer ''peerPublicKey'') \<noteq> b_peerPublicKey binding
        \<or> jstr (obj_value offer ''containerId'') \<noteq> b_containerId binding
        \<or> jstr (obj_value offer ''sourceFingerprint'') \<noteq> b_sourceFingerprint binding
        \<or> jstr (obj_value offer ''nonce'') \<noteq> b_nonce binding then Inl ''offer_binding''
      else if \<not> hasExactKeys target [''endpoint'', ''clientAddress'', ''parameters''] then Inl ''target_fields''
      else if \<not> portOk Q (jstr (obj_value target ''endpoint'')) then Inl ''endpoint_invalid''
      else if \<not> addressMatches (jstr (obj_value target ''clientAddress'')) then Inl ''address_invalid''
      else if parameters = [] then Inl ''parameters_empty''
      else if \<not> list_all parameterOk parameters then Inl ''parameter_invalid''
      else if strictBase64 M (jstr (obj_value parameters ''HeaderProtectionKey'')) (Some 32) = [] then Inl ''header_key_invalid''
      else if \<not> list_all (paddingOk Q parameters) [''S1'', ''S2'', ''S3'', ''S4''] then Inl ''padding_invalid''
      else if \<not> hasExactKeys challenge [''address'', ''port'', ''nonce'']
        \<or> jstr (obj_value challenge ''nonce'') = [] then Inl ''challenge_fields''
      else Inr ())"

section \<open>Authorization of a repeated attempt\<close>

definition cleanupAuthorizationAllowed ::
  "string \<Rightarrow> string \<Rightarrow> string \<Rightarrow> string \<Rightarrow> 64 word \<Rightarrow> string \<Rightarrow> bool" where
  "cleanupAuthorizationAllowed serverId expectedServerId token expectedToken teardownEpoch lastCleanupToken \<longleftrightarrow>
     serverId \<noteq> [] \<and> serverId = expectedServerId \<and> token \<noteq> [] \<and> token = expectedToken
     \<and> teardownEpoch \<noteq> 0 \<and> token \<noteq> lastCleanupToken"

definition rollbackRecoveryAllowed :: "string \<Rightarrow> string \<Rightarrow> string \<Rightarrow> string \<Rightarrow> bool" where
  "rollbackRecoveryAllowed state currentHash sourceHash candidateHash \<longleftrightarrow>
     state = ''recovery_required'' \<and> currentHash \<noteq> [] \<and> sourceHash \<noteq> [] \<and> currentHash = sourceHash
     \<and> (candidateHash = [] \<or> candidateHash \<noteq> currentHash)"

definition recoveryCredentialHash :: "qt \<Rightarrow> string \<Rightarrow> string" where
  "recoveryCredentialHash Q v = textHash Q v"

text \<open>\<open>toULongLong\<close> with the flag, as the test that the number is valid and not zero.\<close>

definition epochPositive :: "qt \<Rightarrow> json \<Rightarrow> bool" where
  "epochPositive Q v = (case q_toULongLong Q (jstr v) of None \<Rightarrow> False | Some n \<Rightarrow> n \<noteq> 0)"

definition generationWhole :: "qdouble \<Rightarrow> bool" where
  "generationWhole g \<longleftrightarrow> dbl_less (dbl_int 0) g \<and> dbl_le g (dbl_int MaximumGeneration) \<and> dbl_eq (dbl_floor g) g"

definition createRecoveryAuthorization :: "qt \<Rightarrow> jobject \<Rightarrow> jobject" where
  "createRecoveryAuthorization Q journal =
     (let offer = to_object (obj_value journal ''offer'');
          sourceHash = jstr (obj_value journal ''sourceHash'');
          signer = jstr (obj_value journal ''signingPublicKey'');
          nonce = jstr (obj_value journal ''nonce'');
          grant = jstr (obj_value journal ''grant'');
          generation = to_double (dbl_int (-1)) (obj_value offer ''generation'') in
      if sourceHash = [] \<or> signer = [] \<or> nonce = [] \<or> grant = []
         \<or> jstr (obj_value journal ''lastRecoveryCleanupToken'') = []
         \<or> \<not> epochPositive Q (obj_value journal ''lastRecoveryCleanupEpoch'')
         \<or> offerTarget offer = [] \<or> dbl_le generation (dbl_int 0) \<or> dbl_less (dbl_int MaximumGeneration) generation
         \<or> \<not> dbl_eq (dbl_floor generation) generation
         \<or> \<not> dbl_eq generation (to_double (dbl_int (-2)) (obj_value journal ''highestGeneration''))
         \<or> \<not> dbl_eq generation (to_double (dbl_int (-3)) (obj_value journal ''stagedGeneration''))
         \<or> digest Q (offerTarget offer) \<noteq> jstr (obj_value journal ''stagedTargetHash'')
      then []
      else obj_of [(''sourceHash'', JString sourceHash), (''generation'', JDouble generation),
        (''targetHash'', JString (digest Q (offerTarget offer))), (''signingPublicKey'', JString signer),
        (''previousNonceHash'', JString (recoveryCredentialHash Q nonce)),
        (''previousGrantHash'', JString (recoveryCredentialHash Q grant)),
        (''cleanupToken'', obj_value journal ''lastRecoveryCleanupToken''),
        (''cleanupEpoch'', obj_value journal ''lastRecoveryCleanupEpoch'')])"

definition authorizationKeys :: "string list" where
  "authorizationKeys = [''sourceHash'', ''generation'', ''targetHash'', ''signingPublicKey'',
     ''previousNonceHash'', ''previousGrantHash'', ''cleanupToken'', ''cleanupEpoch'']"

definition sameGenerationRecoveryAllowed :: "qt \<Rightarrow> jobject \<Rightarrow> jobject \<Rightarrow> string \<Rightarrow> bool" where
  "sameGenerationRecoveryAllowed Q journal offer currentSourceHash \<longleftrightarrow>
     (let authorization = to_object (obj_value journal ''recoveryAuthorization'');
          nonce = jstr (obj_value journal ''nonce'');
          grant = jstr (obj_value journal ''grant'');
          generation = to_double (dbl_int (-1)) (obj_value authorization ''generation'');
          sourceHash = jstr (obj_value authorization ''sourceHash'');
          signer = jstr (obj_value authorization ''signingPublicKey'') in
      hasExactKeys authorization authorizationKeys
      \<and> epochPositive Q (obj_value authorization ''cleanupEpoch'')
      \<and> jstr (obj_value authorization ''cleanupToken'') \<noteq> []
      \<and> obj_value authorization ''cleanupToken'' = obj_value journal ''lastRecoveryCleanupToken''
      \<and> obj_value authorization ''cleanupEpoch'' = obj_value journal ''lastRecoveryCleanupEpoch''
      \<and> sourceHash \<noteq> [] \<and> sourceHash = currentSourceHash \<and> sourceHash = jstr (obj_value journal ''sourceHash'')
      \<and> signer \<noteq> [] \<and> signer = jstr (obj_value journal ''signingPublicKey'')
      \<and> generationWhole generation
      \<and> dbl_eq generation (to_double (dbl_int (-2)) (obj_value journal ''highestGeneration''))
      \<and> dbl_eq generation (to_double (dbl_int (-4)) (obj_value journal ''stagedGeneration''))
      \<and> dbl_eq generation (to_double (dbl_int (-3)) (obj_value offer ''generation''))
      \<and> offerTarget offer \<noteq> []
      \<and> jstr (obj_value authorization ''targetHash'') = digest Q (offerTarget offer)
      \<and> jstr (obj_value authorization ''targetHash'') = jstr (obj_value journal ''stagedTargetHash'')
      \<and> nonce \<noteq> [] \<and> nonce = jstr (obj_value offer ''nonce'') \<and> grant \<noteq> []
      \<and> jstr (obj_value authorization ''previousNonceHash'') \<noteq> []
      \<and> jstr (obj_value authorization ''previousGrantHash'') \<noteq> []
      \<and> recoveryCredentialHash Q nonce \<noteq> jstr (obj_value authorization ''previousNonceHash'')
      \<and> recoveryCredentialHash Q grant \<noteq> jstr (obj_value authorization ''previousGrantHash''))"

definition retiredKeys :: "string list" where
  "retiredKeys = [''grant'', ''grantExpiresAt'', ''nonce'', ''offer'', ''challengeReceipt'', ''candidateHash'',
     ''recoveryAuthorization'']"

definition removeKeys :: "string list \<Rightarrow> jobject \<Rightarrow> jobject" where
  "removeKeys ks ob = foldl (\<lambda>ob k. obj_remove k ob) ob ks"

definition recoveryJournalAfterCleanup :: "qt \<Rightarrow> jobject \<Rightarrow> string \<Rightarrow> 64 word \<Rightarrow> jobject" where
  "recoveryJournalAfterCleanup Q journal token epoch =
     (let journal = obj_insert ''lastRecoveryCleanupToken'' (JString token) journal;
          journal = obj_insert ''lastRecoveryCleanupEpoch'' (JString (decimal (unat epoch))) journal;
          authorization = createRecoveryAuthorization Q journal;
          journal = removeKeys retiredKeys journal;
          journal = (if authorization \<noteq> [] then obj_insert ''recoveryAuthorization'' (JObject authorization) journal
                     else journal)
      in obj_insert ''state'' (JString ''rolled_back'') journal)"

definition recoveryJournalForTrial :: "jobject \<Rightarrow> json \<Rightarrow> jobject" where
  "recoveryJournalForTrial journal generation =
     obj_insert ''state'' (JString ''trial'')
       (obj_remove ''recoveryAuthorization'' (obj_insert ''highestGeneration'' generation journal))"

section \<open>Control replies\<close>

definition passiveMigrationRequestAllowed :: "string \<Rightarrow> bool" where
  "passiveMigrationRequestAllowed state \<longleftrightarrow> state = [] \<or> state = ''enrolling'' \<or> state = ''enrolled''
     \<or> state = ''expired'' \<or> state = ''rolled_back''"

datatype ControlState = Pending | Complete | Failed

record ControlReply =
  cr_state :: ControlState
  cr_reason :: string
  cr_httpStatus :: int
  cr_payload :: jobject

definition pendingReply :: ControlReply where
  "pendingReply = \<lparr>cr_state = Pending, cr_reason = [], cr_httpStatus = 0, cr_payload = []\<rparr>"

definition failReply :: "ControlReply \<Rightarrow> string \<Rightarrow> ControlReply" where
  "failReply r reason = r\<lparr>cr_state := Failed, cr_reason := reason\<rparr>"

text \<open>\<open>QByteArray::trimmed\<close> and \<open>toLower\<close> work on ASCII.\<close>

definition bytesTrimmed :: "string \<Rightarrow> string" where
  "bytesTrimmed s = trim_where ascii_space s"

fun contentLength :: "migrationServices \<Rightarrow> nat \<Rightarrow> int \<Rightarrow> string list \<Rightarrow> string + int" where
  "contentLength M maximum len [] = Inr len"
| "contentLength M maximum len (header # headers) =
     (let lower = map ascii_lower header in
      if starts_with ''transfer-encoding:'' lower then Inl ''control_response_transfer_encoding''
      else if starts_with ''content-length:'' lower then
        (case mg_byteNumber M (bytesTrimmed (drop 15 header)) of
           None \<Rightarrow> Inl ''control_response_invalid_length''
         | Some parsed \<Rightarrow>
             if len \<ge> 0 \<or> parsed \<le> 0 \<or> parsed > int maximum then Inl ''control_response_invalid_length''
             else contentLength M maximum parsed headers)
      else contentLength M maximum len headers)"

text \<open>The status line and the header block, with the HTTP status seen so far.\<close>

definition statusLine :: "migrationServices \<Rightarrow> string \<Rightarrow> int option" where
  "statusLine M line =
     (let status = split_on CHR '' '' (bytesTrimmed line) in
      if length status < 3 \<or> (status ! 0 \<noteq> ''HTTP/1.0'' \<and> status ! 0 \<noteq> ''HTTP/1.1'') \<or> length (status ! 1) \<noteq> 3
      then None else Some (case mg_byteNumber M (status ! 1) of Some n \<Rightarrow> n | None \<Rightarrow> 0))"

definition headerBlock :: "migrationServices \<Rightarrow> nat \<Rightarrow> string \<Rightarrow> ControlReply + int \<times> ControlReply" where
  "headerBlock M maximum block =
     (let headers = split_on newline block in
      case statusLine M (hd headers) of
        None \<Rightarrow> Inl (failReply pendingReply ''control_response_invalid_status'')
      | Some httpStatus \<Rightarrow>
          let result = pendingReply\<lparr>cr_httpStatus := httpStatus\<rparr> in
          if httpStatus < 100 \<or> httpStatus > 599 then Inl (failReply result ''control_response_invalid_status'')
          else if httpStatus \<noteq> 200 then Inl (failReply result ''control_http_rejected'')
          else case contentLength M maximum (-1) (tl headers) of
              Inl reason \<Rightarrow> Inl (failReply result reason)
            | Inr len \<Rightarrow>
                if len < 0 then Inl (failReply result ''control_response_missing_length'') else Inr (len, result))"

definition headerEnd :: string where "headerEnd = [CHR 0x0D, newline, CHR 0x0D, newline]"

definition parseControlReply :: "migrationServices \<Rightarrow> nat \<Rightarrow> string \<Rightarrow> ControlReply" where
  "parseControlReply M maximum bytes =
     (if length bytes > maximum + 8192 then failReply pendingReply ''control_response_too_large''
      else case index_of headerEnd bytes of
        None \<Rightarrow> pendingReply
      | Some boundary \<Rightarrow>
          if boundary > 8192 then failReply pendingReply ''control_response_headers_too_large''
          else case headerBlock M maximum (take boundary bytes) of
              Inl failed \<Rightarrow> failed
            | Inr (len, result) \<Rightarrow>
                if int (length bytes) < int boundary + 4 + len then result
                else if int (length bytes) \<noteq> int boundary + 4 + len then failReply result ''control_response_extra_bytes''
                else case q_jsonParse (mg_qt M) (drop (boundary + 4) bytes) of
                    Some (JObject payload) \<Rightarrow> result\<lparr>cr_state := Complete, cr_payload := payload\<rparr>
                  | _ \<Rightarrow> failReply result ''control_response_invalid_json'')"

section \<open>Digests of the running backend\<close>

definition normalizedObservation :: "qt \<Rightarrow> string \<Rightarrow> string \<Rightarrow> string" where
  "normalizedObservation Q key v =
     (let v = trimmed Q v in
      if key = ''RandomTrailers'' \<or> key = ''DisableCookies'' then
        let v = q_toLower Q v in
        if v = ''false'' \<or> v = ''off'' \<or> v = ''0'' then ''0''
        else if v = ''true'' \<or> v = ''on'' \<or> v = ''1'' then ''1'' else v
      else v)"

definition observationDigest :: "qt \<Rightarrow> string \<Rightarrow> string \<Rightarrow> string" where
  "observationDigest Q key v = textHash Q (normalizedObservation Q key v)"

definition backendNames :: "(string \<times> string) list" where
  "backendNames = [(''jc'', ''Jc''), (''jmin'', ''Jmin''), (''jmax'', ''Jmax''),
     (''s1'', ''S1''), (''s2'', ''S2''), (''s3'', ''S3''), (''s4'', ''S4''),
     (''h1'', ''H1''), (''h2'', ''H2''), (''h3'', ''H3''), (''h4'', ''H4''),
     (''i1'', ''I1''), (''i2'', ''I2''), (''i3'', ''I3''), (''i4'', ''I4''), (''i5'', ''I5''),
     (''header_protection_key'', ''HeaderProtectionKey''), (''content_padding_addition'', ''ContentPaddingAddition''),
     (''rekey_after_time'', ''RekeyAfterTime''), (''rekey_timeout'', ''RekeyTimeout''),
     (''reject_after_time'', ''RejectAfterTime''), (''keepalive_timeout'', ''KeepaliveTimeout''),
     (''max_handshake_attempts'', ''MaxHandshakeAttempts''), (''random_trailers'', ''RandomTrailers''),
     (''disable_cookies'', ''DisableCookies'')]"

text \<open>\<open>section(c, 0, 0)\<close> and \<open>section(c, 1)\<close>: the text before the first separator and after it.\<close>

definition beforeFirst :: "char \<Rightarrow> string \<Rightarrow> string" where
  "beforeFirst c s = takeWhile (\<lambda>x. x \<noteq> c) s"

definition afterFirst :: "char \<Rightarrow> string \<Rightarrow> string" where
  "afterFirst c s = drop (Suc (length (beforeFirst c s))) s"

definition digestLine :: "migrationServices \<Rightarrow> jobject \<Rightarrow> string \<Rightarrow> jobject" where
  "digestLine M result line =
     (case map_of backendNames (beforeFirst CHR ''='' line) of
        None \<Rightarrow> result
      | Some key \<Rightarrow>
          let v = trimmed (mg_qt M) (afterFirst CHR ''='' line);
              v = (if key = ''HeaderProtectionKey'' then mg_toBase64 M (mg_fromHex M (q_toUtf8 (mg_qt M) v)) else v)
          in obj_insert key (JString (observationDigest (mg_qt M) key v)) result)"

definition parameterDigests :: "migrationServices \<Rightarrow> string \<Rightarrow> jobject" where
  "parameterDigests M reply =
     (let result = foldl (\<lambda>ob key. obj_insert key (JString (observationDigest (mg_qt M) key ''0'')) ob) []
            [''Jc'', ''Jmin'', ''Jmax'', ''S1'', ''S2'', ''S3'', ''S4'', ''ContentPaddingAddition''];
          result = foldl (\<lambda>ob key. obj_insert key (JString (observationDigest (mg_qt M) key [])) ob) result
            [''I1'', ''I2'', ''I3'', ''I4'', ''I5'']
      in foldl (digestLine M) result (split_on newline reply))"

section \<open>The profile of a target\<close>

definition putMembers :: "jobject \<Rightarrow> jobject \<Rightarrow> jobject" where
  "putMembers members ob = foldl (\<lambda>ob (k, v). obj_insert k v ob) ob members"

text \<open>The position of the last colon.\<close>

definition lastColon :: "string \<Rightarrow> nat option" where
  "lastColon s = (if CHR '':'' \<in> set s
     then Some (length s - Suc (length (takeWhile (\<lambda>c. c \<noteq> CHR '':'') (rev s)))) else None)"

definition patchLine :: "qt \<Rightarrow> string \<Rightarrow> string \<Rightarrow> jobject \<Rightarrow> string \<Rightarrow> string list" where
  "patchLine Q endpoint address parameters line =
     (let key = trimmed Q (beforeFirst CHR ''='' line) in
      if key \<in> set parameterKeys then []
      else if key = ''Endpoint'' then [''Endpoint = '' @ endpoint]
      else if key = ''Address'' \<and> beforeFirst CHR ''/'' (trimmed Q (afterFirst CHR ''='' line)) \<noteq> beforeFirst CHR ''/'' address
      then [''Address = '' @ address]
      else line # (if trimmed Q line = ''[Interface]''
                   then map (\<lambda>(k, v). k @ '' = '' @ jstr v) parameters else []))"

definition patchClient :: "qt \<Rightarrow> jobject \<Rightarrow> jobject \<Rightarrow> jobject" where
  "patchClient Q current offer =
     (let target = offerTarget offer; endpoint = jstr (obj_value target ''endpoint'');
          parameters = offerParameters offer; address = jstr (obj_value target ''clientAddress'') in
      case lastColon endpoint of
        None \<Rightarrow> []
      | Some split \<Rightarrow>
          if split = 0 then []
          else
            let current = obj_insert ''hostName'' (JString (take split endpoint)) current;
                current = obj_insert ''port''
                  (jint (case q_toInt Q (drop (Suc split) endpoint) of Some n \<Rightarrow> n | None \<Rightarrow> 0)) current;
                current = (if beforeFirst CHR ''/'' (jstr (obj_value current ''client_ip'')) \<noteq> beforeFirst CHR ''/'' address
                           then obj_insert ''client_ip'' (JString address) current else current);
                current = putMembers parameters (removeKeys parameterKeys current);
                patchedLines = concat (map (patchLine Q endpoint address parameters)
                  (split_on newline (jstr (obj_value current ''config''))))
            in obj_insert ''config'' (JString (join [newline] patchedLines)) current)"

text \<open>One container: skipped, patched, or the refusal of the whole profile.\<close>

datatype containerResult = KeepContainer | PatchedContainer jobject | RefuseProfile

definition patchContainer :: "migrationServices \<Rightarrow> jobject \<Rightarrow> jobject \<Rightarrow> json \<Rightarrow> containerResult" where
  "patchContainer M profile offer v =
     (let container = to_object v in
      if obj_value container ''container'' \<noteq> obj_value profile ''defaultContainer'' then KeepContainer
      else
        let awg = to_object (obj_value container ''awg'') in
        if awg = [] then KeepContainer
        else
          let cached = (case q_jsonParse (mg_qt M) (q_toUtf8 (mg_qt M) (jstr (obj_value awg ''last_config''))) of
                Some (JObject ob) \<Rightarrow> ob | _ \<Rightarrow> []) in
          if cached = [] then KeepContainer
          else
            let cached = patchClient (mg_qt M) cached offer in
            if cached = [] then RefuseProfile
            else
              let awg = obj_insert ''last_config'' (JString (mg_fromUtf8 M (q_jsonText (mg_qt M) cached))) awg;
                  awg = putMembers (offerParameters offer) (removeKeys parameterKeys awg);
                  awg = obj_insert ''protocol_version'' (JString ''3.1'') awg;
                  awg = obj_insert ''port'' (JString (decimal_int (to_int 0 (obj_value cached ''port'')))) awg
              in PatchedContainer (obj_insert ''awg'' (JObject awg) container))"

fun patchContainers :: "migrationServices \<Rightarrow> jobject \<Rightarrow> jobject \<Rightarrow> json list \<Rightarrow> (json list \<times> bool) option" where
  "patchContainers M profile offer [] = Some ([], False)"
| "patchContainers M profile offer (v # vs) =
     (case patchContainer M profile offer v of
        RefuseProfile \<Rightarrow> None
      | KeepContainer \<Rightarrow> map_option (\<lambda>(ws, patched). (v # ws, patched)) (patchContainers M profile offer vs)
      | PatchedContainer ob \<Rightarrow> map_option (\<lambda>(ws, _). (JObject ob # ws, True)) (patchContainers M profile offer vs))"

definition committedProfile :: "migrationServices \<Rightarrow> jobject \<Rightarrow> jobject \<Rightarrow> jobject" where
  "committedProfile M profile offer =
     (case patchContainers M profile offer (to_array (obj_value profile ''containers'')) of
        Some (containers, True) \<Rightarrow> obj_insert ''containers'' (JArray containers) profile
      | _ \<Rightarrow> [])"

section \<open>A reply completes at one length only\<close>

lemma index_of_Some:
  "index_of p s = Some i \<Longrightarrow> take (length p) (drop i s) = p \<and> i \<le> length s"
  by (induction s arbitrary: i) (auto simp: starts_with_def split: if_splits)

lemma starts_with_take: "starts_with p (take n s) \<longleftrightarrow> starts_with p s \<and> length p \<le> n"
proof (cases "length p \<le> n")
  case False
  then have "length (take (length p) (take n s)) < length p" by simp
  with False show ?thesis by (auto simp: starts_with_def)
qed (simp add: starts_with_def min_absorb1)

lemma index_of_short: "length u < length p \<Longrightarrow> index_of p u = None"
  by (induction u) (auto simp: starts_with_def dest: arg_cong [where f = length])

lemma index_of_prefix:
  assumes "index_of p s = Some i" "p \<noteq> []"
  shows "index_of p (take n s) = (if i + length p \<le> n then Some i else None)"
  using assms(1)
proof (induction s arbitrary: i n)
  case Nil
  then show ?case using assms(2) by simp
next
  case (Cons x s)
  show ?case
  proof (cases n)
    case 0
    then show ?thesis using assms(2) by simp
  next
    case (Suc m)
    show ?thesis
    proof (cases "starts_with p (x # s)")
      case True
      then have "i = 0" using Cons.prems by simp
      with True Suc show ?thesis
        using starts_with_take [of p n "x # s"] index_of_short [of "take n (x # s)" p] by auto
    next
      case False
      then obtain j where j: "index_of p s = Some j" "i = Suc j" using Cons.prems by auto
      have "\<not> starts_with p (x # take m s)" using False starts_with_take [of p n "x # s"] Suc by simp
      then show ?thesis using Cons.IH [OF j(1), of m] j(2) Suc by simp
    qed
  qed
qed

lemma index_of_bound: "index_of p s = Some i \<Longrightarrow> p \<noteq> [] \<Longrightarrow> i + length p \<le> length s"
  using index_of_prefix [of p s i "length s"] by (auto split: if_splits)

lemma index_of_append: "index_of p s = Some i \<Longrightarrow> index_of p (s @ t) = Some i"
proof (induction s arbitrary: i)
  case Nil
  then show ?case by (cases t) (auto simp: starts_with_def split: if_splits)
next
  case (Cons x s)
  have "starts_with p (x # s) \<Longrightarrow> starts_with p (x # s @ t)"
    using starts_with_take [of p "length (x # s)" "(x # s) @ t"] by simp
  moreover have "starts_with p (x # s @ t) \<Longrightarrow> \<not> starts_with p (x # s) \<Longrightarrow> False"
    if "index_of p s = Some j" for j
  proof -
    assume a: "starts_with p (x # s @ t)" "\<not> starts_with p (x # s)"
    have "length p \<le> length (x # s)" using that index_of_bound [of p s j] by (cases "p = []") auto
    with a show False using starts_with_take [of p "length (x # s)" "(x # s) @ t"] by simp
  qed
  ultimately show ?case using Cons by (auto split: if_splits)
qed

lemma headerEnd_len [simp]: "length headerEnd = 4" "headerEnd \<noteq> []"
  by (simp_all add: headerEnd_def)

text \<open>What a complete reply has: a header block with the length of the body that follows it.\<close>

lemma complete_shape:
  assumes "cr_state (parseControlReply M maximum bytes) = Complete"
  obtains b len result where "length bytes \<le> maximum + 8192" "index_of headerEnd bytes = Some b" "b \<le> 8192"
    "headerBlock M maximum (take b bytes) = Inr (len, result)" "int (length bytes) = int b + 4 + len"
proof -
  have failed: "cr_state r = Failed" if "headerBlock M maximum block = Inl r" for block r
    using that by (auto simp: headerBlock_def failReply_def Let_def split: option.splits if_splits sum.splits)
  have pend: "cr_state r = Pending" if "headerBlock M maximum block = Inr (len, r)" for block len r
    using that by (auto simp: headerBlock_def pendingReply_def Let_def split: option.splits if_splits sum.splits)
  show ?thesis
    using assms that failed pend unfolding parseControlReply_def
    by (auto simp: failReply_def pendingReply_def split: if_splits option.splits sum.splits prod.splits)
qed

text \<open>
  C23. A control reply is recognised exactly once while it arrives: if some received bytes form a complete reply
  then every shorter prefix of them is still pending and every longer stream with them in front is refused.
  How the network cuts the stream into pieces therefore cannot change the accepted document.
\<close>

theorem reply_framing_exact:
  assumes "cr_state (parseControlReply M maximum bytes) = Complete"
  shows "(\<forall>n < length bytes. cr_state (parseControlReply M maximum (take n bytes)) = Pending)
    \<and> (\<forall>more. more \<noteq> [] \<longrightarrow> cr_state (parseControlReply M maximum (bytes @ more)) = Failed)"
proof -
  obtain b len result where shape: "length bytes \<le> maximum + 8192" "index_of headerEnd bytes = Some b" "b \<le> 8192"
    "headerBlock M maximum (take b bytes) = Inr (len, result)" "int (length bytes) = int b + 4 + len"
    by (rule complete_shape [OF assms])
  have pend: "cr_state result = Pending"
    using shape(4) by (auto simp: headerBlock_def pendingReply_def Let_def split: option.splits if_splits sum.splits)
  have "cr_state (parseControlReply M maximum (take n bytes)) = Pending" if n: "n < length bytes" for n
  proof (cases "b + 4 \<le> n")
    case True
    then have "take b (take n bytes) = take b bytes" by (simp add: min_absorb1)
    with True n shape pend show ?thesis
      by (simp add: parseControlReply_def index_of_prefix [OF shape(2)])
  next
    case False
    with n shape(1) show ?thesis
      by (simp add: parseControlReply_def index_of_prefix [OF shape(2)] pendingReply_def)
  qed
  moreover have "cr_state (parseControlReply M maximum (bytes @ more)) = Failed" if "more \<noteq> []" for more
  proof -
    have "b \<le> length bytes" using index_of_bound [OF shape(2)] by simp
    then show ?thesis using that shape
      by (auto simp: parseControlReply_def index_of_append [OF shape(2)] failReply_def)
  qed
  ultimately show ?thesis by blast
qed

section \<open>The client configuration of an accepted offer\<close>

lemma obj_value_removeKeys [simp]:
  "obj_value (removeKeys ks ob) k = (if k \<in> set ks then JUndefined else obj_value ob k)"
proof (induction ks arbitrary: ob)
  case (Cons x ks)
  then show ?case by (simp add: removeKeys_def)
qed (simp add: removeKeys_def)

lemma obj_value_putMembers:
  "distinct (map fst ms) \<Longrightarrow> obj_value (putMembers ms ob) k = (if k \<in> fst ` set ms then obj_value ms k else obj_value ob k)"
proof (induction ms arbitrary: ob)
  case (Cons m ms)
  obtain x v where m: "m = (x, v)" by (cases m)
  have "obj_value (putMembers (m # ms) ob) k = obj_value (putMembers ms (obj_insert x v ob)) k"
    by (simp add: putMembers_def m)
  also have "\<dots> = (if k \<in> fst ` set ms then obj_value ms k else if k = x then v else obj_value ob k)"
    using Cons by simp
  finally show ?case using Cons.prems by (auto simp: m obj_value_def)
qed (simp add: putMembers_def)

lemma wf_obj_distinct: "wf_obj ob \<Longrightarrow> distinct (map fst ob)"
  by (simp add: wf_obj_def strict_sorted_iff)

lemma lastColon_eq: "CHR '':'' \<notin> set t \<Longrightarrow> lastColon (h @ CHR '':'' # t) = Some (length h)"
proof -
  assume "CHR '':'' \<notin> set t"
  then have "takeWhile (\<lambda>c. c \<noteq> CHR '':'') (rev t @ CHR '':'' # rev h) = rev t"
    by (simp add: takeWhile_append)
  then show ?thesis by (simp add: lastColon_def)
qed

lemma digit_not_colon: "is_ascii_digit c \<Longrightarrow> c \<noteq> CHR '':''"
  by (auto simp: is_ascii_digit_def)

lemma endpointPort_shape:
  assumes "endpointPort s = Some port"
  obtains host rest where "s = host @ CHR '':'' # rest" "CHR '':'' \<notin> set rest" "host \<noteq> []"
    "list_all is_host_char host" "rest = port \<or> rest = port @ [newline]"
proof -
  define t where "t = dollarText s"
  define host where "host = takeWhile (\<lambda>c. c \<noteq> CHR '':'') t"
  define tail where "tail = dropWhile (\<lambda>c. c \<noteq> CHR '':'') t"
  have port: "port = drop (Suc (length host)) t" "list_all is_ascii_digit port" "host \<noteq> []"
    "list_all is_host_char host" "CHR '':'' \<in> set t"
    using assms by (auto simp: endpointPort_def Let_def t_def host_def split: if_splits)
  have t: "t = host @ tail" by (simp add: host_def tail_def)
  have "tail \<noteq> []" using port(5) by (auto simp: tail_def dropWhile_eq_Nil_conv)
  then have "hd tail = CHR '':''" using hd_dropWhile [of "\<lambda>c. c \<noteq> CHR '':''" t] by (simp add: tail_def)
  with \<open>tail \<noteq> []\<close> obtain ys where tail: "tail = CHR '':'' # ys" by (cases tail) auto
  then have "ys = port" using port(1) t by simp
  with t tail have t: "t = host @ CHR '':'' # port" by simp
  have colon: "CHR '':'' \<notin> set port" using port(2) digit_not_colon by (auto simp: list_all_iff)
  show ?thesis
  proof (cases "s \<noteq> [] \<and> last s = newline")
    case True
    then have "s = t @ [newline]" using append_butlast_last_id [of s] by (simp add: t_def dollarText_def)
    with t have "s = host @ CHR '':'' # (port @ [newline])" by simp
    then show ?thesis using that [of host "port @ [newline]"] port colon by (simp add: newline_def)
  next
    case False
    then have "s = t" unfolding t_def dollarText_def by presburger
    with t have "s = host @ CHR '':'' # port" by simp
    then show ?thesis using that [of host port] port colon by simp
  qed
qed

lemma offer_accepted:
  assumes "validateOffer M offer binding now = Inr ()"
  shows "portOk (mg_qt M) (jstr (obj_value (offerTarget offer) ''endpoint''))"
    and "list_all parameterOk (offerParameters offer)"
    and "\<exists>g. to_double (dbl_int (-1)) (obj_value offer ''generation'') = dbl_int g
      \<and> b_highestGeneration binding < g \<and> g \<le> MaximumGeneration"
proof -
  show "portOk (mg_qt M) (jstr (obj_value (offerTarget offer) ''endpoint''))"
    "list_all parameterOk (offerParameters offer)"
    using assms by (auto simp: validateOffer_def Let_def split: if_splits)
  let ?g = "to_double (dbl_int (-1)) (obj_value offer ''generation'')"
  have "\<not> dbl_le ?g (dbl_int (b_highestGeneration binding))" "\<not> dbl_less (dbl_int MaximumGeneration) ?g"
    "dbl_eq ?g (dbl_int (dbl_to_int ?g))"
    using assms by (auto simp: validateOffer_def Let_def split: if_splits)
  then show "\<exists>g. ?g = dbl_int g \<and> b_highestGeneration binding < g \<and> g \<le> MaximumGeneration"
    by (cases ?g) (auto simp: dbl_int_def dbl_le_def not_less order_le_less)
qed


section \<open>Concrete services, a reply and an offer\<close>

definition mg_ref :: migrationServices where
  "mg_ref = \<lparr>mg_repository = \<lparr>rs_qt = (qt_ref_with (\<lambda>s. if s = ''{}'' then Some (JObject []) else None))
         \<lparr>q_toInt := (\<lambda>s. if s = ''51822'' then Some 51822 else if s = ''16'' then Some 16 else None)\<rparr>,
       rs_freeV2Endpoint = ''free.example'', rs_premiumV1Endpoint = ''premium.example'',
       rs_arrayText = (\<lambda>_. []), rs_arrayParse = (\<lambda>_. []), rs_settingInt = (\<lambda>_. 0)\<rparr>,
     mg_fromBase64 = Some, mg_toBase64 = (\<lambda>s. s), mg_toLatin1 = (\<lambda>s. s), mg_fromUtf8 = (\<lambda>s. s),
     mg_fromHex = (\<lambda>s. s), mg_verify = (\<lambda>_ _ _. True),
     mg_toLongLong = (\<lambda>_. None),
     mg_byteNumber = (\<lambda>s. if s = ''200'' then Some 200 else if s = ''2'' then Some 2 else None)\<rparr>"

definition refHeaders :: string where
  "refHeaders = ''HTTP/1.1 200 OK'' @ [CHR 0x0D, newline] @ ''Content-Length: 2''"

definition refReply :: string where
  "refReply = refHeaders @ headerEnd @ ''{}''"

lemma refReply_boundary: "index_of headerEnd refReply = Some 34" "length refReply = 40"
  "take 34 refReply = refHeaders" "drop 38 refReply = ''{}''"
  by (simp_all add: refReply_def refHeaders_def headerEnd_def newline_def starts_with_def)

lemma ref_lower: "ascii_lower CHR ''C'' = CHR ''c''" "ascii_lower CHR ''L'' = CHR ''l''"
  "\<not> (CHR ''A'' \<le> c \<and> c \<le> CHR ''Z'') \<Longrightarrow> ascii_lower c = c"
  by (code_simp, code_simp, auto simp: ascii_lower_def)

lemma refReply_headers: "headerBlock mg_ref 64 refHeaders = Inr (2, pendingReply\<lparr>cr_httpStatus := 200\<rparr>)"
  by (simp add: refHeaders_def headerBlock_def split_on_def newline_def statusLine_def bytesTrimmed_def trim_where_def
      ascii_space_def Let_def mg_ref_def starts_with_def ref_lower)

lemma refReply_complete: "cr_state (parseControlReply mg_ref 64 refReply) = Complete"
  by (simp add: parseControlReply_def refReply_boundary refReply_headers) (simp add: mg_ref_def)

theorem reply_framing_exact_witness:
  "cr_state (parseControlReply mg_ref 64 (take 20 refReply)) = Pending
   \<and> cr_state (parseControlReply mg_ref 64 (refReply @ ''x'')) = Failed"
proof -
  have "20 < length refReply" by (simp add: refReply_boundary)
  then show ?thesis using reply_framing_exact [OF refReply_complete] by simp
qed

definition refParameters :: jobject where
  "refParameters = [(''HeaderProtectionKey'', JString (replicate 32 CHR ''h'')),
     (''S1'', JString ''16''), (''S2'', JString ''16''), (''S3'', JString ''16''), (''S4'', JString ''16'')]"

definition refTarget :: jobject where
  "refTarget = [(''clientAddress'', JString ''10.8.1.2/32''), (''endpoint'', JString ''new.example:51822''),
     (''parameters'', JObject refParameters)]"

definition refChallenge :: jobject where
  "refChallenge = [(''address'', JString ''172.29.172.251''), (''nonce'', JString ''c''), (''port'', jint 18082)]"

definition refOffer :: jobject where
  "refOffer = [(''challenge'', JObject refChallenge), (''containerId'', JString ''amnezia-awg''), (''expiresAt'', jint 1000),
     (''generation'', jint 8), (''nonce'', JString ''n''), (''peerPublicKey'', JString ''p''), (''schema'', jint 1),
     (''serverPublicKey'', JString ''s''), (''sourceFingerprint'', JString ''f''), (''target'', JObject refTarget)]"

definition refBinding :: Binding where
  "refBinding = \<lparr>b_serverPublicKey = ''s'', b_peerPublicKey = ''p'', b_containerId = ''amnezia-awg'',
     b_sourceFingerprint = ''f'', b_nonce = ''n'', b_highestGeneration = 7\<rparr>"

definition refClient :: jobject where
  "refClient = [(''Jc'', JString ''4''), (''client_ip'', JString ''10.8.1.2/32''), (''client_priv_key'', JString ''secret''),
     (''hostName'', JString ''old.example''), (''port'', jint 51820)]"

lemma refOffer_values:
  "obj_value refOffer ''generation'' = jint 8" "obj_value refOffer ''schema'' = jint 1"
  "obj_value refOffer ''expiresAt'' = jint 1000" "obj_value refOffer ''serverPublicKey'' = JString ''s''"
  "obj_value refOffer ''peerPublicKey'' = JString ''p''" "obj_value refOffer ''containerId'' = JString ''amnezia-awg''"
  "obj_value refOffer ''sourceFingerprint'' = JString ''f''" "obj_value refOffer ''nonce'' = JString ''n''"
  "obj_value refOffer ''challenge'' = JObject refChallenge" "offerTarget refOffer = refTarget"
  "offerParameters refOffer = refParameters" "obj_value refTarget ''endpoint'' = JString ''new.example:51822''"
  "obj_value refTarget ''clientAddress'' = JString ''10.8.1.2/32''" "obj_value refChallenge ''nonce'' = JString ''c''"
  by (simp_all add: offerTarget_def offerParameters_def refOffer_def refTarget_def refChallenge_def obj_value_def)

lemma refOffer_keys: "hasExactKeys refOffer offerKeys" "hasExactKeys refTarget [''endpoint'', ''clientAddress'', ''parameters'']"
  "hasExactKeys refChallenge [''address'', ''port'', ''nonce'']"
  by (auto simp: hasExactKeys_def obj_keys_def refOffer_def refTarget_def refChallenge_def offerKeys_def)

lemma refOffer_texts: "endpointPort ''new.example:51822'' = Some ''51822''" "addressMatches ''10.8.1.2/32''"
  by code_simp+

lemma refOffer_parameters: "list_all parameterOk refParameters" "refParameters \<noteq> []"
  "strictBase64 mg_ref (jstr (obj_value refParameters ''HeaderProtectionKey'')) (Some 32) \<noteq> []"
  "list_all (paddingOk (mg_qt mg_ref) refParameters) [''S1'', ''S2'', ''S3'', ''S4'']"
  by (simp_all add: refParameters_def parameterOk_def parameterKeys_def newline_def strictBase64_def mg_ref_def
      obj_value_def paddingOk_def)

lemma refOffer_accepted: "validateOffer mg_ref refOffer refBinding 100 = Inr ()"
proof -
  have "portOk (mg_qt mg_ref) ''new.example:51822''" by (simp add: portOk_def refOffer_texts mg_ref_def)
  then show ?thesis
    using refOffer_parameters
    by (simp add: validateOffer_def Let_def refOffer_values refOffer_keys refOffer_texts refBinding_def
        Schema_def MaximumGeneration_def dbl_int_def dbl_le_def)
qed

lemma refOffer_wf: "wf_obj (offerParameters refOffer)"
  by (simp add: refOffer_values refParameters_def wf_obj_def less_char_def)


text \<open>The dollar sign of the two patterns admits a final newline, which the parameters may not contain.\<close>

lemma endpoint_newline: "endpointPort (''host:1'' @ [newline]) = Some ''1''" "addressMatches (''10.0.0.1'' @ [newline])"
  by code_simp+

end
