(* ===== verification/Migration_Controller.thy ===== *)
theory Migration_Controller
  imports Migration_Offer
begin

text \<open>
  The controller of a migration (\<open>core/controllers/awgMigrationController.cpp\<close>) as a machine over its fields,
  the server repository and the durable journals. A handler runs at one instant: the clock, the random numbers,
  the outcome of each journal write, whether the journal can be read and what the socket layer answers
  are the record \<open>migrationInstant\<close>. A journal write that reports failure leaves the stored
  journal as it was. Requests, reconnects and what the theorems observe are effects.
\<close>

section \<open>State and effects\<close>

datatype requestKind =
    BootstrapRequest jobject jobject
  | OfferRequest
  | ChallengeRequest jobject jobject
  | RenewRequest jobject string
  | AckRequest

datatype migrationEffect =
    RequestSent string jobject requestKind "64 word" string
  | ReconnectLegacy jobject
  | ConnectWith jobject
  | TrialStarted string qdouble qdouble
  | CleanupAccepted string
  | ProfileSwapped string

record migrationController =
  c_repository :: serversRepository
  c_journals :: "string \<Rightarrow> jobject"
  c_writes :: nat
  c_effects :: "migrationEffect list"
  m_serverId :: string
  m_activationToken :: string
  m_pendingActivationToken :: string
  m_pendingActivationServerId :: string
  m_originalConnection :: jobject
  m_sourceProfile :: jobject
  m_journal :: jobject
  m_observation :: jobject
  m_deadline :: bool
  m_epoch :: "64 word"
  m_callbackGeneration :: "64 word"
  m_startedAt :: int
  m_pollAfter :: int
  m_initialRx :: qdouble
  m_initialTx :: qdouble
  m_trial :: bool
  m_busy :: bool
  m_cancelled :: bool
  m_committingProfile :: bool
  m_allowTrial :: bool

text \<open>The socket layer either opens the request or names what refused it.\<close>

record migrationInstant =
  i_ms :: int
  i_stored :: "nat \<Rightarrow> bool"
  i_readable :: bool
  i_nonce :: string
  i_uuid :: string
  i_socket :: "string option"
  i_logToken :: string

definition secs :: "migrationInstant \<Rightarrow> int" where
  "secs E = i_ms E div 1000"

definition emit :: "migrationEffect \<Rightarrow> migrationController \<Rightarrow> migrationController" where
  "emit x s = s\<lparr>c_effects := c_effects s @ [x]\<rparr>"

section \<open>The journal\<close>

definition unavailableJournal :: jobject where
  "unavailableJournal = [(''state'', JString ''secret_store_unavailable'')]"

definition migrationJournal :: "migrationInstant \<Rightarrow> migrationController \<Rightarrow> string \<Rightarrow> jobject" where
  "migrationJournal E s serverId = (if i_readable E then c_journals s serverId else unavailableJournal)"

definition writeMigrationJournal ::
  "migrationInstant \<Rightarrow> jobject \<Rightarrow> migrationController \<Rightarrow> migrationController \<times> bool" where
  "writeMigrationJournal E journal s =
     (let stored = i_stored E (c_writes s); s = s\<lparr>c_writes := Suc (c_writes s)\<rparr> in
      if stored then (s\<lparr>c_journals := (c_journals s)(m_serverId s := journal)\<rparr>, True) else (s, False))"

definition storeRecoveryJournal ::
  "migrationInstant \<Rightarrow> jobject \<Rightarrow> migrationController \<Rightarrow> migrationController \<times> bool" where
  "storeRecoveryJournal E next s =
     (case writeMigrationJournal E next s of
        (s, True) \<Rightarrow> (s\<lparr>m_journal := next\<rparr>, True)
      | (s, False) \<Rightarrow> (s, False))"

definition putJournal :: "string \<Rightarrow> json \<Rightarrow> migrationController \<Rightarrow> migrationController" where
  "putJournal k v s = s\<lparr>m_journal := obj_insert k v (m_journal s)\<rparr>"

definition dropJournal :: "string list \<Rightarrow> migrationController \<Rightarrow> migrationController" where
  "dropJournal ks s = s\<lparr>m_journal := removeKeys ks (m_journal s)\<rparr>"

definition journalState :: "migrationController \<Rightarrow> json" where
  "journalState s = obj_value (m_journal s) ''state''"

text \<open>Inserting an undefined value removes the member, which restores a missing state.\<close>

definition persist :: "migrationInstant \<Rightarrow> string \<Rightarrow> migrationController \<Rightarrow> migrationController \<times> bool" where
  "persist E state s =
     (let previousState = journalState s; s = putJournal ''state'' (JString state) s in
      case writeMigrationJournal E (m_journal s) s of
        (s, True) \<Rightarrow> (s, True)
      | (s, False) \<Rightarrow> (putJournal ''state'' previousState s, False))"

definition recordFailure ::
  "qt \<Rightarrow> migrationInstant \<Rightarrow> string \<Rightarrow> int \<Rightarrow> migrationController \<Rightarrow> migrationController" where
  "recordFailure Q E reason httpStatus s =
     (if m_serverId s = [] \<or> m_cancelled s then s
      else if jstr (obj_value (m_journal s) ''lastFailureReason'') = reason
        \<and> to_int 0 (obj_value (m_journal s) ''lastHttpStatus'') = httpStatus then s
      else
        let s = putJournal ''lastFailureReason'' (JString reason) s;
            s = putJournal ''lastHttpStatus'' (jint httpStatus) s;
            s = putJournal ''lastFailureAt'' (JString (q_isoMs Q (i_ms E))) s
        in fst (writeMigrationJournal E (m_journal s) s))"

definition clearFailure :: "migrationInstant \<Rightarrow> migrationController \<Rightarrow> migrationController" where
  "clearFailure E s =
     (if \<not> obj_contains (m_journal s) ''lastFailureReason'' then s
      else
        let s = dropJournal [''lastFailureReason'', ''lastHttpStatus'', ''lastFailureAt''] s
        in fst (writeMigrationJournal E (m_journal s) s))"

definition trialEvidence :: "string list" where
  "trialEvidence = [''grant'', ''grantExpiresAt'', ''nonce'', ''offer'', ''challengeReceipt'', ''candidateHash'']"

definition clearTrialEvidence :: "migrationController \<Rightarrow> migrationController" where
  "clearTrialEvidence s = dropJournal trialEvidence s"

definition journalOffer :: "migrationController \<Rightarrow> jobject" where
  "journalOffer s = to_object (obj_value (m_journal s) ''offer'')"

definition journalText :: "migrationController \<Rightarrow> string \<Rightarrow> string" where
  "journalText s k = jstr (obj_value (m_journal s) k)"

section \<open>Profiles and receipts\<close>

definition profileOf :: "migrationController \<Rightarrow> string \<Rightarrow> jobject" where
  "profileOf s serverId =
     serverJson (c_repository s)
       (case indexOfServerId (c_repository s) serverId of None \<Rightarrow> -1 | Some i \<Rightarrow> int i)"

definition clientOf :: "jobject \<Rightarrow> jobject" where
  "clientOf connection = to_object (obj_value connection ''awg_config_data'')"

definition receiptKeys :: "string list" where
  "receiptKeys = [''schema'', ''serverPublicKey'', ''containerId'', ''peerPublicKey'', ''generation'',
     ''expiresAt'', ''nonce'', ''targetAddress'']"

definition pinnedSigner :: "migrationServices \<Rightarrow> migrationController \<Rightarrow> string" where
  "pinnedSigner M s = strictBase64 M (journalText s ''signingPublicKey'') (Some 32)"

definition receiptMatches :: "jobject \<Rightarrow> json \<Rightarrow> jobject \<Rightarrow> bool" where
  "receiptMatches offer challengeNonce receipt \<longleftrightarrow> hasExactKeys receipt receiptKeys
     \<and> to_int 0 (obj_value receipt ''schema'') = Schema
     \<and> obj_value receipt ''nonce'' = challengeNonce
     \<and> obj_value receipt ''generation'' = obj_value offer ''generation''
     \<and> obj_value receipt ''peerPublicKey'' = obj_value offer ''peerPublicKey''
     \<and> obj_value receipt ''serverPublicKey'' = obj_value offer ''serverPublicKey''
     \<and> obj_value receipt ''containerId'' = obj_value offer ''containerId''
     \<and> jstr (obj_value receipt ''targetAddress'')
         = beforeFirst CHR ''/'' (jstr (obj_value (offerTarget offer) ''clientAddress''))"

definition validChallengeReceipt ::
  "migrationServices \<Rightarrow> migrationInstant \<Rightarrow> migrationController \<Rightarrow> jobject \<Rightarrow> bool \<Rightarrow> bool" where
  "validChallengeReceipt M E s envelope requireUnexpired =
     (case verifyEnvelope M envelope (pinnedSigner M s) of
        None \<Rightarrow> False
      | Some receipt \<Rightarrow>
          receiptMatches (journalOffer s)
            (obj_value (to_object (obj_value (journalOffer s) ''challenge'')) ''nonce'') receipt
          \<and> (\<not> requireUnexpired
             \<or> dbl_less (dbl_int (secs E)) (to_double (dbl_int 0) (obj_value receipt ''expiresAt''))))"

definition committedProfileMatches :: "qt \<Rightarrow> migrationController \<Rightarrow> bool" where
  "committedProfileMatches Q s \<longleftrightarrow>
     (let candidateHash = journalText s ''candidateHash'' in
      indexOfServerId (c_repository s) (m_serverId s) \<noteq> None \<and> candidateHash \<noteq> []
      \<and> candidateHash = digest Q (m_sourceProfile s) \<and> candidateHash = digest Q (profileOf s (m_serverId s)))"

definition parametersObserved :: "qt \<Rightarrow> jobject \<Rightarrow> jobject \<Rightarrow> bool" where
  "parametersObserved Q parameters observed \<longleftrightarrow>
     list_all (\<lambda>(k, v). jstr (obj_value observed k) = observationDigest Q k (jstr v)) parameters"

definition targetObservationMatches :: "migrationServices \<Rightarrow> migrationController \<Rightarrow> bool" where
  "targetObservationMatches M s \<longleftrightarrow>
     (let Q = mg_qt M; target = offerTarget (journalOffer s); parameters = offerParameters (journalOffer s);
          key = strictBase64 M (jstr (obj_value parameters ''HeaderProtectionKey'')) (Some 32) in
      key \<noteq> [] \<and> parameters \<noteq> []
      \<and> beforeFirst CHR ''/'' (jstr (obj_value (m_observation s) ''deviceIpv4Address''))
          = beforeFirst CHR ''/'' (jstr (obj_value target ''clientAddress''))
      \<and> jstr (obj_value (m_observation s) ''headerProtectionKeyHash'') = to_hex (q_sha256 Q key)
      \<and> parametersObserved Q parameters (to_object (obj_value (m_observation s) ''parameterDigests'')))"

section \<open>Requests\<close>

definition hasLineBreak :: "string \<Rightarrow> bool" where
  "hasLineBreak s \<longleftrightarrow> CHR 0x0D \<in> set s \<or> newline \<in> set s"

definition request ::
  "qt \<Rightarrow> migrationInstant \<Rightarrow> string \<Rightarrow> jobject \<Rightarrow> requestKind \<Rightarrow> migrationController \<Rightarrow> migrationController" where
  "request Q E path body kind s =
     (if \<not> is_v4 (q_parseHost Q (beforeFirst CHR ''/'' (jstr (obj_value (m_observation s) ''deviceIpv4Address''))))
      then recordFailure Q E ''control_source_address_unavailable'' 0 s
      else case i_socket E of
        Some reason \<Rightarrow> recordFailure Q E reason 0 s
      | None \<Rightarrow>
          let s = s\<lparr>m_busy := True\<rparr>;
              logs = to_object (obj_value (m_originalConnection s) ''clientLogs'');
              clientId = jstr (obj_value logs ''clientId'');
              token = (if jstr (obj_value logs ''token'') = [] then i_logToken E else jstr (obj_value logs ''token'')) in
          if length clientId \<noteq> 64 \<or> token = []
          then (recordFailure Q E ''control_auth_unavailable'' 0 s)\<lparr>m_busy := False\<rparr>
          else if hasLineBreak clientId \<or> hasLineBreak token \<or> hasLineBreak (journalText s ''grant'')
          then (recordFailure Q E ''control_auth_header_invalid'' 0 s)\<lparr>m_busy := False\<rparr>
          else
            let s = putJournal ''lastRequestAt'' (JString (q_isoMs Q (i_ms E))) s;
                s = fst (writeMigrationJournal E (m_journal s) s)
            in emit (RequestSent path body kind (m_callbackGeneration s) (m_serverId s)) s)"

definition acknowledge :: "qt \<Rightarrow> migrationInstant \<Rightarrow> migrationController \<Rightarrow> migrationController" where
  "acknowledge Q E s =
     (let offer = journalOffer s; j = obj_value (m_journal s) in
      if dbl_le (to_double (dbl_int 0) (j ''grantExpiresAt'')) (dbl_int (secs E)) then
        request Q E ''/migration/v1/renew''
          (obj_of [(''schema'', jint Schema), (''grant'', j ''grant''), (''peerPublicKey'', obj_value offer ''peerPublicKey''),
            (''generation'', obj_value offer ''generation''), (''nonce'', JString (i_nonce E)),
            (''challengeReceipt'', j ''challengeReceipt'')])
          (RenewRequest offer (i_nonce E)) s
      else
        request Q E ''/migration/v1/ack''
          (obj_of [(''schema'', jint Schema), (''grant'', j ''grant''), (''generation'', obj_value offer ''generation''),
            (''peerPublicKey'', obj_value offer ''peerPublicKey''), (''challengeReceipt'', j ''challengeReceipt'')])
          AckRequest s)"

definition challengeTrial :: "qt \<Rightarrow> migrationInstant \<Rightarrow> migrationController \<Rightarrow> migrationController" where
  "challengeTrial Q E s =
     (let offer = journalOffer s; challenge = to_object (obj_value offer ''challenge'') in
      if jstr (obj_value challenge ''address'') \<noteq> ''172.29.172.251'' \<or> to_int 0 (obj_value challenge ''port'') \<noteq> 18082 then s
      else request Q E ''/migration/v1/challenge''
        (obj_of [(''schema'', jint Schema), (''grant'', obj_value (m_journal s) ''grant''),
          (''nonce'', obj_value challenge ''nonce''), (''generation'', obj_value offer ''generation''),
          (''peerPublicKey'', obj_value offer ''peerPublicKey'')])
        (ChallengeRequest offer challenge) s)"

text \<open>Whether the staged offer or its grant is past its expiry.\<close>

definition stagedExpired :: "migrationInstant \<Rightarrow> migrationController \<Rightarrow> bool" where
  "stagedExpired E s \<longleftrightarrow>
     dbl_le (to_double (dbl_int 0) (obj_value (journalOffer s) ''expiresAt'')) (dbl_int (secs E))
   \<or> dbl_le (to_double (dbl_int 0) (obj_value (m_journal s) ''grantExpiresAt'')) (dbl_int (secs E))"

text \<open>An expired offer is dropped, and comes back when that cannot be written.\<close>

definition expireStaged :: "migrationInstant \<Rightarrow> migrationController \<Rightarrow> migrationController \<times> bool" where
  "expireStaged E s =
     (let stagedJournal = m_journal s in
      case persist E ''expired'' (clearTrialEvidence s) of
        (s, True) \<Rightarrow> (s, True)
      | (s, False) \<Rightarrow> (s\<lparr>m_journal := stagedJournal\<rparr>, False))"

text \<open>A candidate that is already stored only waits for its acknowledgement.\<close>

definition resumeCommitted :: "qt \<Rightarrow> migrationInstant \<Rightarrow> migrationController \<Rightarrow> migrationController \<times> bool" where
  "resumeCommitted Q E s =
     (if journalState s = JString ''committing'' \<and> committedProfileMatches Q s then persist E ''ack_pending'' s
      else (s, True))"

definition dropExpiredGrant :: "migrationInstant \<Rightarrow> migrationController \<Rightarrow> migrationController" where
  "dropExpiredGrant E s =
     (let expires = to_double (dbl_int 0) (obj_value (m_journal s) ''grantExpiresAt'') in
      if dbl_less (dbl_int 0) expires \<and> dbl_le expires (dbl_int (secs E))
      then dropJournal [''grant'', ''nonce'', ''challengeReceipt''] s else s)"

definition startEnrolment :: "qt \<Rightarrow> migrationInstant \<Rightarrow> migrationController \<Rightarrow> migrationController \<times> bool" where
  "startEnrolment Q E s =
     (if journalText s ''nonce'' \<noteq> [] then (s, True)
      else
        let s = putJournal ''nonce'' (JString (i_nonce E)) s;
            s = putJournal ''sourceHash'' (JString (digest Q (m_sourceProfile s))) s;
            s = putJournal ''sourceFingerprint'' (JString (sourceFingerprint Q (clientOf (m_originalConnection s)))) s
        in persist E ''enrolling'' s)"

definition sendEnrolment :: "qt \<Rightarrow> migrationInstant \<Rightarrow> migrationController \<Rightarrow> migrationController" where
  "sendEnrolment Q E s =
     (let configuration = clientOf (m_originalConnection s);
          binding = obj_of [(''schema'', jint Schema), (''peerPublicKey'', obj_value configuration ''client_pub_key''),
            (''sourceFingerprint'', obj_value (m_journal s) ''sourceFingerprint''),
            (''nonce'', obj_value (m_journal s) ''nonce'')] in
      if journalText s ''grant'' = []
      then request Q E ''/migration/v1/bootstrap'' binding (BootstrapRequest configuration binding) s
      else request Q E ''/migration/v1/offer'' binding OfferRequest s)"

definition enrol :: "qt \<Rightarrow> migrationInstant \<Rightarrow> migrationController \<Rightarrow> migrationController" where
  "enrol Q E s =
     (case startEnrolment Q E (dropExpiredGrant E s) of (s, True) \<Rightarrow> sendEnrolment Q E s | (s, False) \<Rightarrow> s)"

definition fetchOrAcknowledge ::
  "migrationServices \<Rightarrow> migrationInstant \<Rightarrow> migrationController \<Rightarrow> migrationController" where
  "fetchOrAcknowledge M E s =
     (let Q = mg_qt M; pendingAck = (journalState s = JString ''ack_pending'');
          kind = serverKind (mg_repository M) (c_repository s) (m_serverId s) in
      if \<not> m_allowTrial s \<and> \<not> pendingAck \<and> \<not> passiveMigrationRequestAllowed (jstr (journalState s)) then s
      else if kind \<noteq> SelfHostedAdmin \<and> kind \<noteq> SelfHostedUser then s
      else if pendingAck then
        (if \<not> committedProfileMatches Q s \<or> \<not> targetObservationMatches M s
            \<or> \<not> validChallengeReceipt M E s (to_object (obj_value (m_journal s) ''challengeReceipt'')) False then s
         else acknowledge Q E s)
      else if journalState s \<in> {JString ''staged'', JString ''committed'', JString ''recovery_required'',
          JString ''secret_store_unavailable''} then s
      else enrol Q E s)"

definition enrollOrFetch ::
  "migrationServices \<Rightarrow> migrationInstant \<Rightarrow> migrationController \<Rightarrow> migrationController" where
  "enrollOrFetch M E s =
     (case resumeCommitted (mg_qt M) E s of
        (s, False) \<Rightarrow> s
      | (s, True) \<Rightarrow>
          (case (if journalState s = JString ''staged'' \<and> \<not> m_trial s \<and> stagedExpired E s
                 then expireStaged E s else (s, True)) of
             (s, False) \<Rightarrow> s
           | (s, True) \<Rightarrow> fetchOrAcknowledge M E s))"

section \<open>Activation, cancellation and cleanup\<close>

definition bumpCallbacks :: "migrationController \<Rightarrow> migrationController" where
  "bumpCallbacks s = s\<lparr>m_callbackGeneration := m_callbackGeneration s + 1\<rparr>"

definition beginActivation :: "migrationInstant \<Rightarrow> string \<Rightarrow> migrationController \<Rightarrow> migrationController" where
  "beginActivation E serverId s =
     bumpCallbacks (s\<lparr>m_pendingActivationServerId := serverId, m_pendingActivationToken := i_uuid E,
       m_activationToken := []\<rparr>)"

definition cancel :: "migrationInstant \<Rightarrow> migrationController \<Rightarrow> migrationController" where
  "cancel E s =
     (let s = (bumpCallbacks s)\<lparr>m_cancelled := True, m_busy := False, m_deadline := False\<rparr>;
          s = (if m_trial s then fst (persist E ''rolled_back'' s) else s)
      in s\<lparr>m_trial := False\<rparr>)"

definition failed :: "migrationInstant \<Rightarrow> migrationController \<Rightarrow> migrationController" where
  "failed E s =
     (if \<not> m_trial s \<or> m_cancelled s then s
      else let legacy = m_originalConnection s in emit (ReconnectLegacy legacy) (cancel E s))"

definition cleanupFailed :: "migrationInstant \<Rightarrow> migrationController \<Rightarrow> migrationController" where
  "cleanupFailed E s =
     fst (persist E ''recovery_required''
       ((bumpCallbacks s)\<lparr>m_cancelled := True, m_busy := False, m_trial := False, m_deadline := False\<rparr>))"

definition cleanupCompleted ::
  "qt \<Rightarrow> migrationInstant \<Rightarrow> string \<Rightarrow> string \<Rightarrow> 64 word \<Rightarrow> migrationController \<Rightarrow> migrationController" where
  "cleanupCompleted Q E serverId activationToken teardownEpoch s =
     (if serverId = [] \<or> serverId \<noteq> m_serverId s then s
      else
        let durableJournal = migrationJournal E s serverId;
            state = jstr (obj_value durableJournal ''state'') in
        if \<not> cleanupAuthorizationAllowed serverId (m_serverId s) activationToken (m_activationToken s) teardownEpoch
             (jstr (obj_value durableJournal ''lastRecoveryCleanupToken'')) then s
        else if state \<noteq> ''recovery_required'' \<and> state \<noteq> ''rolled_back'' then s
        else if indexOfServerId (c_repository s) serverId = None then s
        else if \<not> rollbackRecoveryAllowed ''recovery_required'' (digest Q (profileOf s serverId))
             (jstr (obj_value durableJournal ''sourceHash'')) (jstr (obj_value durableJournal ''candidateHash'')) then s
        else case storeRecoveryJournal E (recoveryJournalAfterCleanup Q durableJournal activationToken teardownEpoch) s of
            (s, False) \<Rightarrow> s
          | (s, True) \<Rightarrow> emit (CleanupAccepted serverId) (s\<lparr>m_pollAfter := 0\<rparr>))"

section \<open>Preparing a connection\<close>

text \<open>The first part of \<open>prepare\<close>: the previous activation is retired and the journal read.\<close>

definition prepareReset ::
  "migrationInstant \<Rightarrow> string \<Rightarrow> jobject \<Rightarrow> bool \<Rightarrow> migrationController \<Rightarrow> migrationController" where
  "prepareReset E serverId connection allowTrial s =
     (let s = (if allowTrial then cancel E s
               else (bumpCallbacks s)\<lparr>m_busy := False, m_deadline := False, m_trial := False\<rparr>);
          token = (if m_pendingActivationServerId s = serverId then m_pendingActivationToken s else []);
          s = s\<lparr>m_allowTrial := allowTrial, m_activationToken := token, m_pendingActivationToken := [],
            m_pendingActivationServerId := [], m_cancelled := False, m_serverId := serverId,
            m_originalConnection := obj_insert ''migrationActivationToken'' (JString token) connection,
            m_startedAt := i_ms E, m_pollAfter := 0, m_epoch := 0, m_observation := []\<rparr>
      in s\<lparr>m_journal := migrationJournal E s serverId, m_sourceProfile := profileOf s serverId\<rparr>)"

text \<open>A still valid wire offer is rebased over a profile the user has edited meanwhile.\<close>

definition rebaseStaged :: "qt \<Rightarrow> migrationInstant \<Rightarrow> jobject \<Rightarrow> migrationController \<Rightarrow> migrationController \<times> bool" where
  "rebaseStaged Q E connection s =
     (if journalState s = JString ''staged'' \<and> \<not> obj_contains (m_journal s) ''recoveryAuthorization''
         \<and> journalText s ''sourceHash'' \<noteq> digest Q (m_sourceProfile s)
         \<and> journalText s ''sourceFingerprint'' = sourceFingerprint Q (clientOf connection)
      then persist E ''staged'' (putJournal ''sourceHash'' (JString (digest Q (m_sourceProfile s))) s)
      else (s, True))"

definition startTrial :: "qt \<Rightarrow> migrationInstant \<Rightarrow> jobject \<Rightarrow> migrationController \<Rightarrow> migrationController" where
  "startTrial Q E connection s =
     (let offer = journalOffer s; patched = patchClient Q (clientOf connection) offer;
          generation = to_double (dbl_int (-1)) (obj_value offer ''generation'');
          highestGeneration = to_double (dbl_int 0) (obj_value (m_journal s) ''highestGeneration'') in
      if dbl_le generation highestGeneration
         \<and> \<not> sameGenerationRecoveryAllowed Q (m_journal s) offer (digest Q (m_sourceProfile s))
      then emit (ConnectWith (m_originalConnection s)) s
      else if patched = [] then emit (ConnectWith (m_originalConnection s)) s
      else case storeRecoveryJournal E (recoveryJournalForTrial (m_journal s) (obj_value offer ''generation'')) s of
          (s, False) \<Rightarrow> emit (ConnectWith (m_originalConnection s)) s
        | (s, True) \<Rightarrow>
            let candidate = obj_insert ''hostName'' (obj_value patched ''hostName'')
                  (obj_insert ''awg_config_data'' (JObject patched) (m_originalConnection s))
            in emit (ConnectWith candidate) (emit (TrialStarted (m_serverId s) highestGeneration generation)
                 (s\<lparr>m_trial := True, m_initialRx := dbl_int (-1), m_initialTx := dbl_int (-1), m_deadline := True\<rparr>)))"

definition prepareStaged :: "qt \<Rightarrow> migrationInstant \<Rightarrow> jobject \<Rightarrow> migrationController \<Rightarrow> migrationController" where
  "prepareStaged Q E connection s =
     (let plain = (\<lambda>s. emit (ConnectWith (m_originalConnection s)) s) in
      case rebaseStaged Q E connection s of
        (s, False) \<Rightarrow> plain s
      | (s, True) \<Rightarrow>
          if journalState s \<noteq> JString ''staged'' \<or> journalText s ''sourceHash'' \<noteq> digest Q (m_sourceProfile s) then plain s
          else if \<not> to_bool False (obj_value (m_journal s) ''capabilityConfirmed'') then plain s
          else if stagedExpired E s then plain (fst (expireStaged E s))
          else startTrial Q E connection s)"

definition prepare ::
  "qt \<Rightarrow> migrationInstant \<Rightarrow> string \<Rightarrow> jobject \<Rightarrow> bool \<Rightarrow> migrationController \<Rightarrow> migrationController" where
  "prepare Q E serverId connection allowTrial s =
     (let plain = (\<lambda>s. emit (ConnectWith (m_originalConnection s)) s);
          s = prepareReset E serverId connection allowTrial s in
      if clientOf connection = [] then plain s
      else case resumeCommitted Q E s of
        (s, False) \<Rightarrow> plain s
      | (s, True) \<Rightarrow>
          if \<not> allowTrial then plain s
          else if journalState s = JString ''committing'' then
            plain (fst (persist E (if digest Q (m_sourceProfile s) = journalText s ''sourceHash''
                                   then ''rolled_back'' else ''recovery_required'') s))
          else if journalState s = JString ''trial'' then plain (fst (persist E ''rolled_back'' s))
          else prepareStaged Q E connection s)"

section \<open>Observations of the running tunnel\<close>

text \<open>The trial has proved itself: the profile is swapped, or the trial fails.\<close>

definition commitProfile ::
  "migrationServices \<Rightarrow> migrationInstant \<Rightarrow> migrationController \<Rightarrow> migrationController" where
  "commitProfile M E s =
     (let Q = mg_qt M; profile = committedProfile M (m_sourceProfile s) (journalOffer s);
          s = putJournal ''candidateHash'' (JString (digest Q profile)) s in
      if profile = [] then failed E s
      else case persist E ''committing'' s of
        (s, False) \<Rightarrow> failed E s
      | (s, True) \<Rightarrow>
          (case compareAndSwapServer (mg_repository M) (c_repository s) (m_serverId s) (journalText s ''sourceHash'') profile of
             ((repository, _), False) \<Rightarrow> failed E (s\<lparr>c_repository := repository\<rparr>)
           | ((repository, _), True) \<Rightarrow>
               let s = emit (ProfileSwapped (m_serverId s))
                     (s\<lparr>c_repository := repository, m_sourceProfile := profile, m_trial := False, m_deadline := False\<rparr>)
               in case persist E ''ack_pending'' s of (s, True) \<Rightarrow> acknowledge Q E s | (s, False) \<Rightarrow> s))"

definition observeTrial ::
  "migrationServices \<Rightarrow> migrationInstant \<Rightarrow> jobject \<Rightarrow> migrationController \<Rightarrow> migrationController" where
  "observeTrial M E observation s =
     (let Q = mg_qt M; parameters = offerParameters (journalOffer s);
          expectedKey = strictBase64 M (jstr (obj_value parameters ''HeaderProtectionKey'')) (Some 32);
          rx = to_double (dbl_int (-1)) (obj_value observation ''rxBytes'');
          tx = to_double (dbl_int (-1)) (obj_value observation ''txBytes'');
          receipt = to_object (obj_value (m_journal s) ''challengeReceipt'') in
      if jstr (obj_value observation ''headerProtectionKeyHash'') \<noteq> to_hex (q_sha256 Q expectedKey) then s
      else if \<not> parametersObserved Q parameters (to_object (obj_value observation ''parameterDigests'')) then s
      else
        let s = (if dbl_less (m_initialRx s) (dbl_int 0) then s\<lparr>m_initialRx := rx, m_initialTx := tx\<rparr> else s) in
        if receipt = [] then challengeTrial Q E s
        else if \<not> validChallengeReceipt M E s receipt True then failed E s
        else if dbl_le rx (m_initialRx s) \<or> dbl_le tx (m_initialTx s) then s
        else commitProfile M E s)"

definition observe ::
  "migrationServices \<Rightarrow> migrationInstant \<Rightarrow> string \<Rightarrow> 64 word \<Rightarrow> jobject \<Rightarrow> migrationController \<Rightarrow> migrationController" where
  "observe M E serverId epoch observation s =
     (let Q = mg_qt M in
      if m_activationToken s = [] \<or> jstr (obj_value observation ''migrationActivationToken'') \<noteq> m_activationToken s then s
      else if m_cancelled s \<or> serverId \<noteq> m_serverId s \<or> clientOf (m_originalConnection s) = [] then s
      else case mg_toLongLong M (jstr (obj_value observation ''lastHandshakeMs'')) of
        None \<Rightarrow> s
      | Some handshake \<Rightarrow>
          if handshake < (m_startedAt s div 1000) * 1000 \<or> handshake > i_ms E + 5000
             \<or> jstr (obj_value observation ''peerPublicKey'')
                 \<noteq> jstr (obj_value (clientOf (m_originalConnection s)) ''server_pub_key'') then s
          else if m_epoch s \<noteq> 0 \<and> m_epoch s \<noteq> epoch
          then cancel E (recordFailure Q E ''connection_epoch_changed'' 0 s)
          else
            let s = s\<lparr>m_epoch := epoch, m_observation := observation\<rparr> in
            if m_busy s then s
            else if \<not> to_bool False (obj_value observation ''awg3Capable'') then s
            else
              let s = putJournal ''capabilityConfirmed'' (JBool True) s in
              if \<not> m_trial s then
                (if secs E < m_pollAfter s then s
                 else enrollOrFetch M E (s\<lparr>m_pollAfter := secs E + 60\<rparr>))
              else observeTrial M E observation s)"

section \<open>Replies\<close>

definition bootstrapKeys :: "string list" where
  "bootstrapKeys = [''schema'', ''serverPublicKey'', ''containerId'', ''peerPublicKey'', ''sourceFingerprint'',
     ''nonce'', ''grant'', ''signingPublicKey'', ''generation'', ''expiresAt'']"

definition bootstrapRejected ::
  "migrationServices \<Rightarrow> migrationInstant \<Rightarrow> jobject \<Rightarrow> jobject \<Rightarrow> jobject \<Rightarrow> migrationController \<Rightarrow> bool" where
  "bootstrapRejected M E configuration binding reply s \<longleftrightarrow>
     \<not> hasExactKeys reply bootstrapKeys \<or> to_int 0 (obj_value reply ''schema'') \<noteq> Schema
     \<or> obj_value reply ''nonce'' \<noteq> obj_value binding ''nonce''
     \<or> obj_value reply ''sourceFingerprint'' \<noteq> obj_value binding ''sourceFingerprint''
     \<or> obj_value reply ''peerPublicKey'' \<noteq> obj_value binding ''peerPublicKey''
     \<or> obj_value reply ''serverPublicKey'' \<noteq> obj_value configuration ''server_pub_key''
     \<or> obj_value reply ''containerId'' \<noteq> obj_value (m_sourceProfile s) ''defaultContainer''
     \<or> dbl_le (to_double (dbl_int 0) (obj_value reply ''expiresAt'')) (dbl_int (secs E))
     \<or> strictBase64 M (jstr (obj_value reply ''signingPublicKey'')) (Some 32) = []
     \<or> jstr (obj_value reply ''grant'') = []"

definition onBootstrap ::
  "migrationServices \<Rightarrow> migrationInstant \<Rightarrow> jobject \<Rightarrow> jobject \<Rightarrow> jobject \<Rightarrow> migrationController \<Rightarrow> migrationController" where
  "onBootstrap M E configuration binding reply s =
     (let Q = mg_qt M in
      if bootstrapRejected M E configuration binding reply s then recordFailure Q E ''bootstrap_binding_rejected'' 200 s
      else if journalText s ''signingPublicKey'' \<noteq> []
        \<and> obj_value (m_journal s) ''signingPublicKey'' \<noteq> obj_value reply ''signingPublicKey''
      then recordFailure Q E ''bootstrap_signer_changed'' 200 s
      else
        let s = foldl (\<lambda>s k. putJournal k (obj_value reply k) s) s
              [''grant'', ''signingPublicKey'', ''containerId'', ''serverPublicKey'', ''peerPublicKey''];
            s = putJournal ''grantExpiresAt'' (obj_value reply ''expiresAt'') s in
        case persist E ''enrolled'' s of (s, True) \<Rightarrow> enrollOrFetch M E s | (s, False) \<Rightarrow> s)"

text \<open>\<open>static_cast<qint64>\<close> of a finite double: the fraction is cut off.\<close>

fun dbl_trunc :: "qdouble \<Rightarrow> int" where
  "dbl_trunc (Finite r) = (if r < 0 then - \<lfloor>- r\<rfloor> else \<lfloor>r\<rfloor>)"
| "dbl_trunc _ = 0"

text \<open>The binding an offer is checked against; a proven cleanup admits the same generation once more.\<close>

definition offerBinding :: "qt \<Rightarrow> migrationController \<Rightarrow> jobject \<Rightarrow> Binding" where
  "offerBinding Q s offer =
     \<lparr>b_serverPublicKey = journalText s ''serverPublicKey'', b_peerPublicKey = journalText s ''peerPublicKey'',
      b_containerId = journalText s ''containerId'', b_sourceFingerprint = journalText s ''sourceFingerprint'',
      b_nonce = journalText s ''nonce'',
      b_highestGeneration =
        (if sameGenerationRecoveryAllowed Q (m_journal s) offer (digest Q (m_sourceProfile s))
         then dbl_trunc (to_double (dbl_int 0) (obj_value offer ''generation'')) - 1
         else max (dbl_trunc (to_double (dbl_int 0) (obj_value (m_journal s) ''highestGeneration'')))
                (dbl_trunc (to_double (dbl_int 0) (obj_value (m_journal s) ''stagedGeneration'')) - 1))\<rparr>"

definition onOffer ::
  "migrationServices \<Rightarrow> migrationInstant \<Rightarrow> jobject \<Rightarrow> migrationController \<Rightarrow> migrationController" where
  "onOffer M E envelope s =
     (let Q = mg_qt M in
      case verifyEnvelope M envelope (pinnedSigner M s) of
        None \<Rightarrow> s
      | Some offer \<Rightarrow>
          (case validateOffer M offer (offerBinding Q s offer) (secs E) of
             Inl reason \<Rightarrow> recordFailure Q E reason 200 s
           | Inr _ \<Rightarrow>
               if journalText s ''sourceHash'' \<noteq> digest Q (profileOf s (m_serverId s))
               then recordFailure Q E ''offer_source_changed'' 200 s
               else if obj_value offer ''generation'' = obj_value (m_journal s) ''stagedGeneration''
                 \<and> digest Q (offerTarget offer) \<noteq> journalText s ''stagedTargetHash'' then s
               else
                 let enrolledJournal = m_journal s;
                     s = dropJournal [''challengeReceipt''] s;
                     s = putJournal ''offer'' (JObject offer) s;
                     s = putJournal ''stagedGeneration'' (obj_value offer ''generation'') s;
                     s = putJournal ''stagedTargetHash'' (JString (digest Q (offerTarget offer))) s in
                 case persist E ''staged'' s of
                   (s, True) \<Rightarrow> s | (s, False) \<Rightarrow> s\<lparr>m_journal := enrolledJournal\<rparr>))"

definition onChallenge ::
  "migrationServices \<Rightarrow> migrationInstant \<Rightarrow> jobject \<Rightarrow> jobject \<Rightarrow> jobject \<Rightarrow> migrationController \<Rightarrow> migrationController" where
  "onChallenge M E offer challenge envelope s =
     (case verifyEnvelope M envelope (pinnedSigner M s) of
        None \<Rightarrow> s
      | Some receipt \<Rightarrow>
          if \<not> receiptMatches offer (obj_value challenge ''nonce'') receipt
             \<or> dbl_le (to_double (dbl_int 0) (obj_value receipt ''expiresAt'')) (dbl_int (secs E)) then s
          else fst (persist E ''trial'' (putJournal ''challengeReceipt'' (JObject envelope) s)))"

definition renewalKeys :: "string list" where
  "renewalKeys = [''schema'', ''serverPublicKey'', ''peerPublicKey'', ''containerId'', ''generation'',
     ''nonce'', ''grant'', ''sourceFingerprint'', ''targetHash'', ''expiresAt'']"

definition renewalMatches ::
  "qt \<Rightarrow> migrationInstant \<Rightarrow> jobject \<Rightarrow> string \<Rightarrow> jobject \<Rightarrow> bool" where
  "renewalMatches Q E offer nonce renewal \<longleftrightarrow> hasExactKeys renewal renewalKeys
     \<and> to_int 0 (obj_value renewal ''schema'') = Schema \<and> jstr (obj_value renewal ''nonce'') = nonce
     \<and> list_all (\<lambda>k. obj_value renewal k = obj_value offer k)
         [''serverPublicKey'', ''peerPublicKey'', ''containerId'', ''generation'', ''sourceFingerprint'']
     \<and> jstr (obj_value renewal ''targetHash'') = digest Q (offerTarget offer)
     \<and> \<not> dbl_le (to_double (dbl_int 0) (obj_value renewal ''expiresAt'')) (dbl_int (secs E))
     \<and> jstr (obj_value renewal ''grant'') \<noteq> []"

definition onRenew ::
  "migrationServices \<Rightarrow> migrationInstant \<Rightarrow> jobject \<Rightarrow> string \<Rightarrow> jobject \<Rightarrow> migrationController \<Rightarrow> migrationController" where
  "onRenew M E offer nonce envelope s =
     (let Q = mg_qt M in
      case verifyEnvelope M envelope (pinnedSigner M s) of
        None \<Rightarrow> s
      | Some renewal \<Rightarrow>
          if \<not> renewalMatches Q E offer nonce renewal then s
          else
            let pendingJournal = m_journal s;
                s = putJournal ''grant'' (obj_value renewal ''grant'') s;
                s = putJournal ''grantExpiresAt'' (obj_value renewal ''expiresAt'') s in
            case persist E ''ack_pending'' s of
              (s, True) \<Rightarrow> acknowledge Q E s | (s, False) \<Rightarrow> s\<lparr>m_journal := pendingJournal\<rparr>)"

definition onReply ::
  "migrationServices \<Rightarrow> migrationInstant \<Rightarrow> requestKind \<Rightarrow> jobject \<Rightarrow> migrationController \<Rightarrow> migrationController" where
  "onReply M E kind reply s =
     (case kind of
        BootstrapRequest configuration binding \<Rightarrow> onBootstrap M E configuration binding reply s
      | OfferRequest \<Rightarrow> onOffer M E reply s
      | ChallengeRequest offer challenge \<Rightarrow> onChallenge M E offer challenge reply s
      | RenewRequest offer nonce \<Rightarrow> onRenew M E offer nonce reply s
      | AckRequest \<Rightarrow> if to_bool False (obj_value reply ''acknowledged'') then fst (persist E ''committed'' s) else s)"

definition finishRequest :: "64 word \<Rightarrow> migrationController \<Rightarrow> migrationController" where
  "finishRequest generation s = (if generation = m_callbackGeneration s then s\<lparr>m_busy := False\<rparr> else s)"

definition replyReceived ::
  "migrationServices \<Rightarrow> migrationInstant \<Rightarrow> 64 word \<Rightarrow> string \<Rightarrow> requestKind \<Rightarrow> jobject
   \<Rightarrow> migrationController \<Rightarrow> migrationController" where
  "replyReceived M E generation serverId kind reply s =
     (let s = finishRequest generation s in
      if generation = m_callbackGeneration s \<and> serverId = m_serverId s \<and> \<not> m_cancelled s
      then onReply M E kind reply (clearFailure E s) else s)"

definition replyFailed ::
  "qt \<Rightarrow> migrationInstant \<Rightarrow> 64 word \<Rightarrow> string \<Rightarrow> int \<Rightarrow> migrationController \<Rightarrow> migrationController" where
  "replyFailed Q E generation reason httpStatus s =
     finishRequest generation
       (if generation = m_callbackGeneration s then recordFailure Q E reason httpStatus s else s)"

definition socketError ::
  "qt \<Rightarrow> migrationInstant \<Rightarrow> 64 word \<Rightarrow> bool \<Rightarrow> migrationController \<Rightarrow> migrationController" where
  "socketError Q E generation remoteClosed s =
     finishRequest generation
       (if generation = m_callbackGeneration s \<and> m_busy s
        then recordFailure Q E (if remoteClosed then ''control_peer_closed'' else ''control_socket_failed'') 0 s else s)"

section \<open>The machine\<close>

definition serverEdited :: "qt \<Rightarrow> migrationInstant \<Rightarrow> string \<Rightarrow> migrationController \<Rightarrow> migrationController" where
  "serverEdited Q E serverId s =
     (if serverId = m_serverId s \<and> \<not> m_committingProfile s \<and> m_sourceProfile s \<noteq> []
         \<and> digest Q (profileOf s serverId) \<noteq> digest Q (m_sourceProfile s)
      then cancel E (recordFailure Q E ''profile_changed'' 0 s) else s)"

definition serverRemoved :: "migrationInstant \<Rightarrow> string \<Rightarrow> migrationController \<Rightarrow> migrationController" where
  "serverRemoved E serverId s = (if serverId = m_serverId s then cancel E s else s)"

definition onSignal :: "qt \<Rightarrow> migrationInstant \<Rightarrow> migrationController \<Rightarrow> repositorySignal \<Rightarrow> migrationController" where
  "onSignal Q E s signal =
     (case signal of
        ServerEdited serverId \<Rightarrow> serverEdited Q E serverId s
      | ServerRemoved serverId _ \<Rightarrow> serverRemoved E serverId s
      | _ \<Rightarrow> s)"

text \<open>Changes of the profiles that do not come from the controller.\<close>

datatype profileChange =
    EditProfile string jobject ConfigType
  | RemoveProfile string
  | AddProfile string jobject ConfigType

definition changeProfiles ::
  "repositoryServices \<Rightarrow> string \<Rightarrow> profileChange \<Rightarrow> serversRepository \<Rightarrow> serversRepository \<times> repositorySignal list" where
  "changeProfiles R uuid change r =
     (case change of
        EditProfile serverId ob kind \<Rightarrow> editServer R r serverId ob kind
      | RemoveProfile serverId \<Rightarrow> removeServer R r serverId
      | AddProfile serverId ob kind \<Rightarrow> fst (addServer R uuid r serverId ob kind))"

definition changed ::
  "migrationServices \<Rightarrow> migrationInstant \<Rightarrow> profileChange \<Rightarrow> migrationController \<Rightarrow> migrationController" where
  "changed M E change s =
     (let (repository, signals) = changeProfiles (mg_repository M) (i_uuid E) change (c_repository s)
      in foldl (onSignal (mg_qt M) E) (s\<lparr>c_repository := repository\<rparr>) signals)"

datatype migrationEvent =
    BeginActivation string
  | Prepare string jobject bool
  | Observe string "64 word" jobject
  | Cancel
  | ConnectionError
  | DeadlineExpired
  | CleanupFailed
  | CleanupCompleted string string "64 word"
  | ReplyReceived "64 word" string requestKind jobject
  | ReplyFailed "64 word" string int
  | SocketError "64 word" bool
  | ProfilesChanged profileChange

definition handle ::
  "migrationServices \<Rightarrow> migrationInstant \<Rightarrow> migrationEvent \<Rightarrow> migrationController \<Rightarrow> migrationController" where
  "handle M E e s =
     (case e of
        BeginActivation serverId \<Rightarrow> beginActivation E serverId s
      | Prepare serverId connection allowTrial \<Rightarrow> prepare (mg_qt M) E serverId connection allowTrial s
      | Observe serverId epoch observation \<Rightarrow> observe M E serverId epoch observation s
      | Cancel \<Rightarrow> cancel E s
      | ConnectionError \<Rightarrow> failed E s
      | DeadlineExpired \<Rightarrow> if m_deadline s then failed E (s\<lparr>m_deadline := False\<rparr>) else s
      | CleanupFailed \<Rightarrow> cleanupFailed E s
      | CleanupCompleted serverId token epoch \<Rightarrow> cleanupCompleted (mg_qt M) E serverId token epoch s
      | ReplyReceived generation serverId kind reply \<Rightarrow> replyReceived M E generation serverId kind reply s
      | ReplyFailed generation reason httpStatus \<Rightarrow> replyFailed (mg_qt M) E generation reason httpStatus s
      | SocketError generation remoteClosed \<Rightarrow> socketError (mg_qt M) E generation remoteClosed s
      | ProfilesChanged change \<Rightarrow> changed M E change s)"

definition migrationStep ::
  "migrationServices \<Rightarrow> migrationController \<Rightarrow> migrationInstant \<times> migrationEvent
   \<Rightarrow> migrationController \<times> migrationEffect list" where
  "migrationStep M s ev =
     (let t = handle M (fst ev) (snd ev) (s\<lparr>c_writes := 0, c_effects := []\<rparr>) in (t, c_effects t))"

section \<open>What a handler leaves alone\<close>

text \<open>
  A journal evolves steadily when its generation watermark and its recovery authorization stay and an offer
  with a finite generation is not replaced by one without.
\<close>

definition offerFinite :: "jobject \<Rightarrow> bool" where
  "offerFinite j \<longleftrightarrow>
     dbl_isfinite (to_double (dbl_int (-1)) (obj_value (to_object (obj_value j ''offer'')) ''generation''))"

definition steady :: "jobject \<Rightarrow> jobject \<Rightarrow> bool" where
  "steady j k \<longleftrightarrow> obj_value k ''highestGeneration'' = obj_value j ''highestGeneration''
     \<and> obj_value k ''recoveryAuthorization'' = obj_value j ''recoveryAuthorization''
     \<and> (offerFinite j \<longrightarrow> offerFinite k)"

fun ledgerEffect :: "migrationEffect \<Rightarrow> bool" where
  "ledgerEffect (TrialStarted _ _ _) = True"
| "ledgerEffect (CleanupAccepted _) = True"
| "ledgerEffect _ = False"

fun swapEffect :: "migrationEffect \<Rightarrow> bool" where
  "swapEffect (ProfileSwapped _) = True"
| "swapEffect _ = False"

definition evolvesJ :: "migrationController \<Rightarrow> migrationController \<Rightarrow> bool" where
  "evolvesJ s t \<longleftrightarrow> m_serverId t = m_serverId s \<and> steady (m_journal s) (m_journal t)
     \<and> (\<forall>sid. c_journals t sid = c_journals s sid
          \<or> (sid = m_serverId s \<and> steady (m_journal s) (c_journals t sid)))
     \<and> filter ledgerEffect (c_effects t) = filter ledgerEffect (c_effects s)"

definition evolvesS :: "qt \<Rightarrow> migrationController \<Rightarrow> migrationController \<Rightarrow> bool" where
  "evolvesS Q s t \<longleftrightarrow> c_repository t = c_repository s \<and> m_sourceProfile t = m_sourceProfile s
     \<and> (m_trial t \<longrightarrow> m_trial s)
     \<and> (journalText t ''sourceHash'' = journalText s ''sourceHash''
        \<or> journalText t ''sourceHash'' = digest Q (m_sourceProfile s))
     \<and> filter swapEffect (c_effects t) = filter swapEffect (c_effects s)"

definition evolves :: "qt \<Rightarrow> migrationController \<Rightarrow> migrationController \<Rightarrow> bool" where
  "evolves Q s t \<longleftrightarrow> evolvesJ s t \<and> evolvesS Q s t"

lemma steady_trans: "steady i j \<Longrightarrow> steady j k \<Longrightarrow> steady i k"
  by (simp add: steady_def)

lemma evolvesJ_trans: "evolvesJ s t \<Longrightarrow> evolvesJ t u \<Longrightarrow> evolvesJ s u"
  unfolding evolvesJ_def by (metis steady_trans)

lemma evolvesS_trans: "evolvesS Q s t \<Longrightarrow> evolvesS Q t u \<Longrightarrow> evolvesS Q s u"
  by (auto simp: evolvesS_def)

lemma evolves_trans: "evolves Q s t \<Longrightarrow> evolves Q t u \<Longrightarrow> evolves Q s u"
  unfolding evolves_def using evolvesJ_trans evolvesS_trans by blast

lemma evolves_refl [simp]: "evolves Q s s" "evolvesJ s s"
  by (simp_all add: evolves_def evolvesJ_def evolvesS_def steady_def)

lemma evolves_fields [simp]:
  "evolves Q s (t\<lparr>m_busy := b\<rparr>) = evolves Q s t"
  "evolves Q s (t\<lparr>m_cancelled := b\<rparr>) = evolves Q s t"
  "evolves Q s (t\<lparr>m_deadline := b\<rparr>) = evolves Q s t"
  "evolves Q s (t\<lparr>m_epoch := w\<rparr>) = evolves Q s t"
  "evolves Q s (t\<lparr>m_observation := ob\<rparr>) = evolves Q s t"
  "evolves Q s (t\<lparr>m_pollAfter := i\<rparr>) = evolves Q s t"
  "evolves Q s (t\<lparr>m_initialRx := d\<rparr>) = evolves Q s t"
  "evolves Q s (t\<lparr>m_initialTx := d\<rparr>) = evolves Q s t"
  "evolves Q s (t\<lparr>m_callbackGeneration := w\<rparr>) = evolves Q s t"
  "evolves Q s (t\<lparr>m_activationToken := x\<rparr>) = evolves Q s t"
  "evolves Q s (t\<lparr>m_pendingActivationToken := x\<rparr>) = evolves Q s t"
  "evolves Q s (t\<lparr>m_pendingActivationServerId := x\<rparr>) = evolves Q s t"
  by (simp_all add: evolves_def evolvesJ_def evolvesS_def journalText_def)

lemma evolves_endTrial [simp]: "evolves Q s t \<Longrightarrow> evolves Q s (t\<lparr>m_trial := False\<rparr>)"
  by (simp add: evolves_def evolvesJ_def evolvesS_def journalText_def)

lemma evolves_put:
  "k \<notin> {''highestGeneration'', ''recoveryAuthorization'', ''offer'', ''sourceHash''}
   \<Longrightarrow> evolves Q s t \<Longrightarrow> evolves Q s (putJournal k v t)"
  by (auto simp: evolves_def evolvesJ_def evolvesS_def putJournal_def steady_def offerFinite_def journalText_def)

lemma evolves_putSource:
  "evolves Q s t \<Longrightarrow> p = m_sourceProfile t \<Longrightarrow> evolves Q s (putJournal ''sourceHash'' (JString (digest Q p)) t)"
  by (auto simp: evolves_def evolvesJ_def evolvesS_def putJournal_def steady_def offerFinite_def journalText_def)

lemma evolves_drop:
  "set ks \<inter> {''highestGeneration'', ''recoveryAuthorization'', ''sourceHash''} = {}
   \<Longrightarrow> evolves Q s t \<Longrightarrow> evolves Q s (dropJournal ks t)"
  by (auto simp: evolves_def evolvesJ_def evolvesS_def dropJournal_def steady_def offerFinite_def journalText_def
      dbl_int_def)

lemma evolves_write: "evolves Q s t \<Longrightarrow> evolves Q s (fst (writeMigrationJournal E (m_journal t) t))"
  by (auto simp: evolves_def evolvesJ_def evolvesS_def writeMigrationJournal_def Let_def journalText_def)

lemma evolves_emit: "\<not> ledgerEffect x \<Longrightarrow> \<not> swapEffect x \<Longrightarrow> evolves Q s t \<Longrightarrow> evolves Q s (emit x t)"
  by (simp add: evolves_def evolvesJ_def evolvesS_def emit_def journalText_def)

lemma writeMigrationJournal_frame [simp]:
  "m_journal (fst (writeMigrationJournal E j s)) = m_journal s"
  "m_sourceProfile (fst (writeMigrationJournal E j s)) = m_sourceProfile s"
  "m_trial (fst (writeMigrationJournal E j s)) = m_trial s"
  "m_serverId (fst (writeMigrationJournal E j s)) = m_serverId s"
  by (simp_all add: writeMigrationJournal_def Let_def)

lemma persist_fst:
  "fst (persist E state s) =
     (let w = writeMigrationJournal E (m_journal (putJournal ''state'' (JString state) s)) (putJournal ''state'' (JString state) s)
      in if snd w then fst w else putJournal ''state'' (journalState s) (fst w))"
  by (simp add: persist_def Let_def split: prod.split bool.split)

lemma evolves_persist: "evolves Q s t \<Longrightarrow> evolves Q s (fst (persist E state t))"
  by (simp add: persist_fst Let_def evolves_put evolves_write)

lemmas evolves_intros = evolves_put evolves_putSource evolves_drop evolves_write evolves_emit evolves_persist

lemmas pair_cases = case_prod_beta bool.case_eq_if

lemma evolves_recordFailure: "evolves Q s t \<Longrightarrow> evolves Q s (recordFailure Q' E reason status t)"
  by (simp add: recordFailure_def Let_def evolves_put evolves_write)

lemma evolves_clearFailure: "evolves Q s t \<Longrightarrow> evolves Q s (clearFailure E t)"
  by (simp add: clearFailure_def Let_def evolves_drop evolves_write)

lemma evolves_request: "evolves Q s t \<Longrightarrow> evolves Q s (request Q' E path body kind t)"
  by (simp add: request_def Let_def evolves_recordFailure evolves_put evolves_write evolves_emit split: option.split)

lemma evolves_acknowledge: "evolves Q s t \<Longrightarrow> evolves Q s (acknowledge Q' E t)"
  by (simp add: acknowledge_def Let_def evolves_request)

lemma evolves_challenge: "evolves Q s t \<Longrightarrow> evolves Q s (challengeTrial Q' E t)"
  by (simp add: challengeTrial_def Let_def evolves_request)

text \<open>Putting back the journal that was there before a refused write.\<close>

lemma evolves_restore:
  assumes "evolves Q s t" "evolves Q t u" "m_journal t = j"
  shows "evolves Q s (u\<lparr>m_journal := j\<rparr>)"
proof -
  have "evolves Q t (u\<lparr>m_journal := j\<rparr>)"
    using assms(2,3) by (auto simp: evolves_def evolvesJ_def evolvesS_def steady_def journalText_def)
  with assms(1) show ?thesis by (rule evolves_trans)
qed

lemma evolves_expireStaged: "evolves Q s t \<Longrightarrow> evolves Q s (fst (expireStaged E t))"
proof -
  assume ev: "evolves Q s t"
  have step: "evolves Q t (fst (persist E ''expired'' (clearTrialEvidence t)))"
    by (simp add: clearTrialEvidence_def trialEvidence_def evolves_persist evolves_drop)
  then have "evolves Q s (fst (persist E ''expired'' (clearTrialEvidence t)))" using ev by (blast intro: evolves_trans)
  then show ?thesis using evolves_restore [OF ev step refl] by (simp add: expireStaged_def Let_def pair_cases)
qed

lemma evolves_resumeCommitted: "evolves Q s t \<Longrightarrow> evolves Q s (fst (resumeCommitted Q' E t))"
  by (simp add: resumeCommitted_def evolves_persist)

lemma evolves_startEnrolment: "evolves Q s t \<Longrightarrow> evolves Q s (fst (startEnrolment Q E t))"
  by (simp add: startEnrolment_def Let_def evolves_persist evolves_put evolves_putSource)

lemma evolves_enrol: "evolves Q s t \<Longrightarrow> evolves Q s (enrol Q E t)"
  by (simp add: enrol_def sendEnrolment_def dropExpiredGrant_def Let_def pair_cases evolves_request
      evolves_startEnrolment evolves_drop)

lemma evolves_enrollOrFetch: "evolves (mg_qt M) s t \<Longrightarrow> evolves (mg_qt M) s (enrollOrFetch M E t)"
  by (simp add: enrollOrFetch_def fetchOrAcknowledge_def Let_def pair_cases evolves_acknowledge evolves_enrol
      evolves_expireStaged evolves_resumeCommitted)

lemma evolves_bump: "evolves Q s t \<Longrightarrow> evolves Q s (bumpCallbacks t)"
  by (simp add: bumpCallbacks_def)

lemma evolves_cancel: "evolves Q s t \<Longrightarrow> evolves Q s (cancel E t)"
  by (simp add: cancel_def Let_def evolves_bump evolves_persist)

lemma evolves_failed: "evolves Q s t \<Longrightarrow> evolves Q s (failed E t)"
  by (simp add: failed_def Let_def evolves_emit evolves_cancel)

lemma evolves_cleanupFailed: "evolves Q s t \<Longrightarrow> evolves Q s (cleanupFailed E t)"
  by (simp add: cleanupFailed_def evolves_bump evolves_persist)

lemma evolves_beginActivation: "evolves Q s t \<Longrightarrow> evolves Q s (beginActivation E serverId t)"
  by (simp add: beginActivation_def evolves_bump)

lemma evolves_foldl_put:
  "set ks \<inter> {''highestGeneration'', ''recoveryAuthorization'', ''offer'', ''sourceHash''} = {}
   \<Longrightarrow> evolves Q s t \<Longrightarrow> evolves Q s (foldl (\<lambda>s k. putJournal k (f k) s) t ks)"
proof (induction ks arbitrary: t)
  case (Cons k ks)
  have "evolves Q s (putJournal k (f k) t)" using Cons.prems by (intro evolves_put) auto
  moreover have "set ks \<inter> {''highestGeneration'', ''recoveryAuthorization'', ''offer'', ''sourceHash''} = {}"
    using Cons.prems(1) by auto
  ultimately show ?case using Cons.IH [of "putJournal k (f k) t"] by simp
qed simp

lemma evolves_onBootstrap: "evolves (mg_qt M) s t \<Longrightarrow> evolves (mg_qt M) s (onBootstrap M E configuration binding reply t)"
  by (simp add: onBootstrap_def Let_def pair_cases evolves_recordFailure evolves_enrollOrFetch evolves_persist
      evolves_put evolves_foldl_put)

lemma evolves_onOffer: "evolves (mg_qt M) s t \<Longrightarrow> evolves (mg_qt M) s (onOffer M E envelope t)"
proof -
  assume ev: "evolves (mg_qt M) s t"
  have put: "evolves (mg_qt M) u (putJournal ''offer'' (JObject offer) u)"
    if valid: "validateOffer M offer binding now = Inr ()" for u offer binding now
  proof -
    obtain g where "to_double (dbl_int (-1)) (obj_value offer ''generation'') = dbl_int g"
      using offer_accepted(3) [OF valid] by blast
    then show ?thesis
      by (simp add: evolves_def evolvesJ_def evolvesS_def putJournal_def steady_def offerFinite_def journalText_def
          dbl_int_def)
  qed
  let ?stage = "\<lambda>offer. fst (persist E ''staged''
    (putJournal ''stagedTargetHash'' (JString (digest (mg_qt M) (offerTarget offer)))
      (putJournal ''stagedGeneration'' (obj_value offer ''generation'')
        (putJournal ''offer'' (JObject offer) (dropJournal [''challengeReceipt''] t)))))"
  have stage: "evolves (mg_qt M) t (?stage offer)" if "validateOffer M offer binding now = Inr ()" for offer binding now
  proof -
    have "evolves (mg_qt M) t (dropJournal [''challengeReceipt''] t)" by (simp add: evolves_drop)
    then have "evolves (mg_qt M) t (putJournal ''offer'' (JObject offer) (dropJournal [''challengeReceipt''] t))"
      using put [OF that] by (blast intro: evolves_trans)
    then show ?thesis by (simp add: evolves_persist evolves_put)
  qed
  show ?thesis
    using ev stage evolves_restore [OF ev stage refl] evolves_trans [OF ev stage]
    by (auto simp: onOffer_def Let_def pair_cases evolves_recordFailure split: option.split sum.split)
qed

lemma evolves_onChallenge: "evolves Q s t \<Longrightarrow> evolves Q s (onChallenge M E offer challenge envelope t)"
  by (simp add: onChallenge_def evolves_persist evolves_put split: option.split)

lemma evolves_onRenew: "evolves Q s t \<Longrightarrow> evolves Q s (onRenew M E offer nonce envelope t)"
proof -
  assume ev: "evolves Q s t"
  have step: "evolves Q t (fst (persist E ''ack_pending'' (putJournal ''grantExpiresAt'' v (putJournal ''grant'' w t))))" for v w
    by (simp add: evolves_persist evolves_put)
  show ?thesis
    using ev evolves_restore [OF ev step refl] evolves_trans [OF ev step]
    by (auto simp: onRenew_def Let_def pair_cases evolves_acknowledge split: option.split)
qed

lemma evolves_reply: "evolves (mg_qt M) s t \<Longrightarrow> evolves (mg_qt M) s (replyReceived M E generation serverId kind reply t)"
  by (simp add: replyReceived_def finishRequest_def Let_def onReply_def evolves_clearFailure evolves_onBootstrap
      evolves_onOffer evolves_onChallenge evolves_onRenew evolves_persist split: requestKind.split)

lemma evolves_replyFailed: "evolves Q s t \<Longrightarrow> evolves Q s (replyFailed Q' E generation reason status t)"
  by (simp add: replyFailed_def finishRequest_def evolves_recordFailure)

lemma evolves_socketError: "evolves Q s t \<Longrightarrow> evolves Q s (socketError Q' E generation remote t)"
  by (simp add: socketError_def finishRequest_def evolves_recordFailure)

lemma evolves_signal: "evolves Q s t \<Longrightarrow> evolves Q s (onSignal Q' E t signal)"
  by (cases signal) (simp_all add: onSignal_def serverEdited_def serverRemoved_def evolves_cancel evolves_recordFailure)

lemma evolves_signals: "evolves Q s t \<Longrightarrow> evolves Q s (foldl (onSignal Q' E) t signals)"
  by (induction signals arbitrary: t) (simp_all add: evolves_signal)

lemma evolvesJ_I: "evolves Q s t \<Longrightarrow> evolvesJ s t"
  by (simp add: evolves_def)

lemma evolvesJ_fields [simp]:
  "evolvesJ s (t\<lparr>c_repository := r\<rparr>) = evolvesJ s t"
  "evolvesJ s (t\<lparr>m_sourceProfile := p\<rparr>) = evolvesJ s t"
  "evolvesJ s (t\<lparr>m_trial := b\<rparr>) = evolvesJ s t"
  "evolvesJ s (t\<lparr>m_deadline := b\<rparr>) = evolvesJ s t"
  by (simp_all add: evolvesJ_def)

lemma evolvesJ_then: "evolvesJ s t \<Longrightarrow> evolves Q t u \<Longrightarrow> evolvesJ s u"
  by (auto intro: evolvesJ_trans simp: evolves_def)

lemma evolvesJ_commitProfile: "evolvesJ s (commitProfile M E s)"
proof -
  let ?Q = "mg_qt M"
  define p where "p = committedProfile M (m_sourceProfile s) (journalOffer s)"
  define t where "t = putJournal ''candidateHash'' (JString (digest ?Q p)) s"
  define u where "u = fst (persist E ''committing'' t)"
  have t: "evolves ?Q s t" by (simp add: t_def evolves_put)
  have u: "evolves ?Q s u" using t by (simp add: u_def evolves_persist)
  have cand: "evolvesJ s (putJournal ''candidateHash'' v s)" for v
    by (rule evolvesJ_I [of ?Q]) (simp add: evolves_put)
  have fail: "evolvesJ s (failed E v)" if "evolvesJ s v" for v
    using that evolves_failed [OF evolves_refl(1), of ?Q v E] by (rule evolvesJ_then)
  have emitJ: "evolvesJ s (emit (ProfileSwapped sid) v)" if "evolvesJ s v" for sid v
    using that by (simp add: evolvesJ_def emit_def)
  have ack: "evolvesJ s (acknowledge ?Q E v)" if "evolvesJ s v" for v
    using that evolves_acknowledge [OF evolves_refl(1), of ?Q v ?Q E] by (rule evolvesJ_then)
  have pers: "evolvesJ s (fst (persist E st v))" if "evolvesJ s v" for st v
    using that evolves_persist [OF evolves_refl(1), of ?Q v E st] by (rule evolvesJ_then)
  show ?thesis
    using evolvesJ_I [OF t] evolvesJ_I [OF u]
    by (simp add: commitProfile_def Let_def pair_cases flip: p_def t_def u_def) (simp add: fail emitJ ack pers cand)
qed

lemma evolvesJ_observe: "evolvesJ s (observe M E serverId epoch observation s)"
proof -
  let ?Q = "mg_qt M"
  have trial: "evolvesJ t (observeTrial M E observation t)" for t
  proof -
    let ?t = "if dbl_less (m_initialRx t) (dbl_int 0)
      then t\<lparr>m_initialRx := to_double (dbl_int (-1)) (obj_value observation ''rxBytes''),
             m_initialTx := to_double (dbl_int (-1)) (obj_value observation ''txBytes'')\<rparr> else t"
    have t: "evolves ?Q t ?t" by simp
    have "evolvesJ t (commitProfile M E ?t)"
      using evolvesJ_I [OF t] evolvesJ_commitProfile by (rule evolvesJ_trans)
    then show ?thesis using evolvesJ_I [OF t] evolvesJ_I [OF evolves_challenge [OF t]] evolvesJ_I [OF evolves_failed [OF t]]
      by (auto simp: observeTrial_def Let_def)
  qed
  let ?t = "putJournal ''capabilityConfirmed'' (JBool True) (s\<lparr>m_epoch := epoch, m_observation := observation\<rparr>)"
  have t: "evolves ?Q s ?t" by (simp add: evolves_put)
  have "evolvesJ s (observeTrial M E observation ?t)" using evolvesJ_I [OF t] trial by (rule evolvesJ_trans)
  moreover have "evolvesJ s (enrollOrFetch M E (?t\<lparr>m_pollAfter := i\<rparr>))" for i
    using t by (intro evolvesJ_I [of ?Q] evolves_enrollOrFetch) simp
  moreover have "evolvesJ s (cancel E (recordFailure ?Q E reason 0 s))" for reason
    by (rule evolvesJ_I [OF evolves_cancel [OF evolves_recordFailure [OF evolves_refl(1)]]])
  moreover have "evolvesJ s (s\<lparr>m_epoch := epoch, m_observation := observation\<rparr>)" by (simp add: evolvesJ_def steady_def)
  ultimately show ?thesis using evolvesJ_I [OF t]
    by (auto simp: observe_def Let_def split: option.split)
qed

end
