(* ===== verification/Migration_Safety.thy ===== *)
theory Migration_Safety
  imports Migration_Controller
begin

text \<open>
  What the migration controller guarantees over every sequence of events: the generation watermark of a server
  never goes down, an attempt at a generation that was already tried needs a proven cleanup of its
  own, and a reply to a retired request changes nothing. The composition with the repository shows
  that the compare-and-swap of a finished trial compares digests of different objects.
\<close>

section \<open>Outcomes of a preparation and of a cleanup\<close>

definition watermark :: "jobject \<Rightarrow> qdouble" where
  "watermark j = to_double (dbl_int 0) (obj_value j ''highestGeneration'')"

definition offeredGeneration :: "jobject \<Rightarrow> qdouble" where
  "offeredGeneration j = to_double (dbl_int (-1)) (obj_value (to_object (obj_value j ''offer'')) ''generation'')"

text \<open>A trial was started from \<open>u\<close>: its journal is durable before anything else happens.\<close>

definition trialFrom :: "qt \<Rightarrow> migrationController \<Rightarrow> migrationController \<Rightarrow> bool" where
  "trialFrom Q u t \<longleftrightarrow>
     (let w = watermark (m_journal u); g = offeredGeneration (m_journal u);
          j = recoveryJournalForTrial (m_journal u) (obj_value (journalOffer u) ''generation'') in
      (dbl_le g w \<longrightarrow> sameGenerationRecoveryAllowed Q (m_journal u) (journalOffer u) (digest Q (m_sourceProfile u)))
      \<and> m_serverId t = m_serverId u \<and> m_journal t = j \<and> c_journals t = (c_journals u)(m_serverId u := j)
      \<and> c_repository t = c_repository u \<and> m_sourceProfile t = m_sourceProfile u
      \<and> journalText u ''sourceHash'' = digest Q (m_sourceProfile u)
      \<and> filter ledgerEffect (c_effects t) = filter ledgerEffect (c_effects u) @ [TrialStarted (m_serverId u) w g]
      \<and> filter swapEffect (c_effects t) = filter swapEffect (c_effects u))"

lemma storeRecoveryJournal_cases:
  "(snd (storeRecoveryJournal E j s) \<and> fst (storeRecoveryJournal E j s)
       = s\<lparr>c_writes := Suc (c_writes s), c_journals := (c_journals s)(m_serverId s := j), m_journal := j\<rparr>)
   \<or> (\<not> snd (storeRecoveryJournal E j s) \<and> fst (storeRecoveryJournal E j s) = s\<lparr>c_writes := Suc (c_writes s)\<rparr>)"
  by (simp add: storeRecoveryJournal_def writeMigrationJournal_def Let_def)

lemma evolves_writes [simp]: "evolves Q s (t\<lparr>c_writes := n\<rparr>) = evolves Q s t"
  by (simp add: evolves_def evolvesJ_def evolvesS_def journalText_def)

lemma startTrial_outcome:
  assumes "journalText u ''sourceHash'' = digest Q (m_sourceProfile u)"
  shows "evolves Q u (startTrial Q E connection u) \<or> trialFrom Q u (startTrial Q E connection u)"
proof -
  define j where "j = recoveryJournalForTrial (m_journal u) (obj_value (journalOffer u) ''generation'')"
  define g where "g = to_double (dbl_int (-1)) (obj_value (journalOffer u) ''generation'')"
  define w where "w = to_double (dbl_int 0) (obj_value (m_journal u) ''highestGeneration'')"
  define refused where "refused \<longleftrightarrow> dbl_le g w \<and> \<not> sameGenerationRecoveryAllowed Q (m_journal u) (journalOffer u) (digest Q (m_sourceProfile u))
    \<or> patchClient Q (clientOf connection) (journalOffer u) = []"
  consider (plain) "refused" | (kept) "\<not> refused" "\<not> snd (storeRecoveryJournal E j u)"
    | (trial) "\<not> refused" "snd (storeRecoveryJournal E j u)" by blast
  then show ?thesis
  proof cases
    case plain
    then have "startTrial Q E connection u = emit (ConnectWith (m_originalConnection u)) u"
      by (auto simp: startTrial_def Let_def refused_def g_def w_def)
    then show ?thesis by (simp add: evolves_emit)
  next
    case kept
    then have "startTrial Q E connection u = (let v = fst (storeRecoveryJournal E j u) in emit (ConnectWith (m_originalConnection v)) v)"
      by (auto simp: startTrial_def Let_def refused_def g_def w_def j_def pair_cases)
    then show ?thesis using kept storeRecoveryJournal_cases [of E j u] by (simp add: evolves_emit Let_def)
  next
    case trial
    then have "trialFrom Q u (startTrial Q E connection u)"
      using storeRecoveryJournal_cases [of E j u] assms
      by (auto simp: startTrial_def Let_def refused_def g_def w_def j_def pair_cases trialFrom_def emit_def
          watermark_def offeredGeneration_def journalOffer_def)
    then show ?thesis by blast
  qed
qed

lemma prepareStaged_outcome:
  "\<exists>u. evolves Q r u \<and> (prepareStaged Q E connection r = u \<or> trialFrom Q u (prepareStaged Q E connection r))"
proof -
  define u where "u = fst (rebaseStaged Q E connection r)"
  have u: "evolves Q r u" by (simp add: u_def rebaseStaged_def evolves_persist evolves_putSource)
  have plain: "evolves Q r (emit (ConnectWith (m_originalConnection v)) v)" if "evolves Q r v" for v
    using that by (simp add: evolves_emit)
  define start where "start \<longleftrightarrow> snd (rebaseStaged Q E connection r) \<and> journalState u = JString ''staged''
    \<and> journalText u ''sourceHash'' = digest Q (m_sourceProfile u)
    \<and> to_bool False (obj_value (m_journal u) ''capabilityConfirmed'') \<and> \<not> stagedExpired E u"
  show ?thesis
  proof (cases start)
    case True
    then have eq: "prepareStaged Q E connection r = startTrial Q E connection u"
      and src: "journalText u ''sourceHash'' = digest Q (m_sourceProfile u)"
      by (simp_all add: prepareStaged_def Let_def pair_cases u_def start_def)
    show ?thesis
    proof (cases "evolves Q u (startTrial Q E connection u)")
      case True
      then have "evolves Q r (startTrial Q E connection u)" using u by (blast intro: evolves_trans)
      then show ?thesis unfolding eq by blast
    next
      case False
      then have "trialFrom Q u (startTrial Q E connection u)" using startTrial_outcome [OF src] by blast
      then show ?thesis unfolding eq using u by blast
    qed
  next
    case False
    then have "evolves Q r (prepareStaged Q E connection r)"
      using u plain [OF u] plain [OF evolves_expireStaged [OF u]]
      by (auto simp: prepareStaged_def Let_def pair_cases start_def simp flip: u_def)
    then show ?thesis by blast
  qed
qed

lemma prepare_outcome:
  "\<exists>u. evolves Q (prepareReset E serverId connection allowTrial s) u
     \<and> (prepare Q E serverId connection allowTrial s = u \<or> trialFrom Q u (prepare Q E serverId connection allowTrial s))"
proof -
  define r where "r = prepareReset E serverId connection allowTrial s"
  define v where "v = fst (resumeCommitted Q E r)"
  have v: "evolves Q r v" by (simp add: v_def evolves_resumeCommitted)
  have plain: "evolves Q r (emit (ConnectWith (m_originalConnection w)) w)" if "evolves Q r w" for w
    using that by (simp add: evolves_emit)
  have "prepare Q E serverId connection allowTrial s = prepareStaged Q E connection v
    \<or> evolves Q r (prepare Q E serverId connection allowTrial s)"
    using v plain [OF evolves_refl(1)] plain [OF v] plain [OF evolves_persist [OF v]]
    by (simp add: prepare_def Let_def pair_cases flip: r_def v_def)
  then consider (staged) "prepare Q E serverId connection allowTrial s = prepareStaged Q E connection v"
    | (other) "evolves Q r (prepare Q E serverId connection allowTrial s)" by blast
  then show ?thesis
  proof cases
    case staged
    obtain u where "evolves Q v u" "prepareStaged Q E connection v = u \<or> trialFrom Q u (prepareStaged Q E connection v)"
      using prepareStaged_outcome [of Q v E connection] by blast
    then show ?thesis unfolding staged using v by (metis evolves_trans r_def)
  next
    case other
    then show ?thesis unfolding r_def by blast
  qed
qed

lemma cleanupCompleted_outcome:
  "evolves Q s (cleanupCompleted Q E serverId token epoch s)
   \<or> (let j = recoveryJournalAfterCleanup Q (migrationJournal E s serverId) token epoch;
          t = cleanupCompleted Q E serverId token epoch s in
      serverId = m_serverId s \<and> m_serverId t = m_serverId s \<and> m_journal t = j \<and> c_journals t = (c_journals s)(serverId := j)
      \<and> c_repository t = c_repository s \<and> m_sourceProfile t = m_sourceProfile s \<and> m_trial t = m_trial s
      \<and> filter ledgerEffect (c_effects t) = filter ledgerEffect (c_effects s) @ [CleanupAccepted serverId]
      \<and> filter swapEffect (c_effects t) = filter swapEffect (c_effects s))"
proof -
  let ?j = "recoveryJournalAfterCleanup Q (migrationJournal E s serverId) token epoch"
  let ?t = "cleanupCompleted Q E serverId token epoch s"
  have "?t = s \<or> (serverId = m_serverId s \<and> ?t = (if snd (storeRecoveryJournal E ?j s)
      then emit (CleanupAccepted serverId) ((fst (storeRecoveryJournal E ?j s))\<lparr>m_pollAfter := 0\<rparr>)
      else fst (storeRecoveryJournal E ?j s)))"
    by (simp add: cleanupCompleted_def Let_def pair_cases)
  then consider (same) "?t = s" | (kept) "?t = s\<lparr>c_writes := Suc (c_writes s)\<rparr>"
    | (stored) "serverId = m_serverId s" "?t = emit (CleanupAccepted serverId)
        (s\<lparr>c_writes := Suc (c_writes s), c_journals := (c_journals s)(m_serverId s := ?j), m_journal := ?j, m_pollAfter := 0\<rparr>)"
    using storeRecoveryJournal_cases [of E ?j s] by (elim disjE conjE) simp_all
  then show ?thesis
  proof cases
    case stored
    then show ?thesis by (simp add: emit_def)
  qed simp_all
qed

lemma prepareReset_facts:
  "m_serverId (prepareReset E serverId connection allowTrial s) = serverId"
  "m_journal (prepareReset E serverId connection allowTrial s)
     = migrationJournal E (prepareReset E serverId connection allowTrial s) serverId"
  "\<not> m_trial (prepareReset E serverId connection allowTrial s)"
  "m_sourceProfile (prepareReset E serverId connection allowTrial s)
     = profileOf (prepareReset E serverId connection allowTrial s) serverId"
  "\<exists>c. evolves Q s c \<and> c_journals (prepareReset E serverId connection allowTrial s) = c_journals c
     \<and> c_effects (prepareReset E serverId connection allowTrial s) = c_effects c
     \<and> c_repository (prepareReset E serverId connection allowTrial s) = c_repository c"
proof -
  let ?r = "prepareReset E serverId connection allowTrial s"
  define c where "c = (if allowTrial then cancel E s
    else (bumpCallbacks s)\<lparr>m_busy := False, m_deadline := False, m_trial := False\<rparr>)"
  have r: "c_journals ?r = c_journals c" "c_effects ?r = c_effects c" "c_repository ?r = c_repository c" "m_trial ?r = m_trial c"
    by (simp_all add: prepareReset_def Let_def c_def)
  have "evolves Q s c" by (simp add: c_def evolves_cancel evolves_bump)
  then show "\<exists>c. evolves Q s c \<and> c_journals ?r = c_journals c \<and> c_effects ?r = c_effects c \<and> c_repository ?r = c_repository c"
    using r by blast
  show "\<not> m_trial ?r" by (simp add: r c_def cancel_def Let_def)
qed (simp_all add: prepareReset_def Let_def migrationJournal_def profileOf_def)

text \<open>Every other handler lets the journals evolve steadily.\<close>

fun ledgerEvent :: "migrationEvent \<Rightarrow> bool" where
  "ledgerEvent (Prepare _ _ _) = True"
| "ledgerEvent (CleanupCompleted _ _ _) = True"
| "ledgerEvent _ = False"

lemma handle_evolvesJ:
  assumes "\<not> ledgerEvent e"
  shows "evolvesJ s (handle M E e s)"
proof -
  let ?Q = "mg_qt M"
  have changed: "evolvesJ s (changed M E change s)" for change
  proof -
    obtain r signals where c: "changeProfiles (mg_repository M) (i_uuid E) change (c_repository s) = (r, signals)" by force
    have "evolvesJ s (s\<lparr>c_repository := r\<rparr>)" by simp
    moreover have "evolvesJ (s\<lparr>c_repository := r\<rparr>) (foldl (onSignal ?Q E) (s\<lparr>c_repository := r\<rparr>) signals)"
      by (rule evolvesJ_I [OF evolves_signals [OF evolves_refl(1)]])
    ultimately have "evolvesJ s (foldl (onSignal ?Q E) (s\<lparr>c_repository := r\<rparr>) signals)" by (rule evolvesJ_trans)
    then show ?thesis by (simp add: changed_def c)
  qed
  have dl: "evolves ?Q s (failed E (s\<lparr>m_deadline := False\<rparr>))" by (rule evolves_failed) simp
  show ?thesis
    using assms changed evolvesJ_I [OF dl] evolvesJ_observe
      evolvesJ_I [OF evolves_beginActivation [OF evolves_refl(1)]]
      evolvesJ_I [OF evolves_cancel [OF evolves_refl(1)]] evolvesJ_I [OF evolves_failed [OF evolves_refl(1)]]
      evolvesJ_I [OF evolves_cleanupFailed [OF evolves_refl(1)]] evolvesJ_I [OF evolves_reply [OF evolves_refl(1)]]
      evolvesJ_I [OF evolves_replyFailed [OF evolves_refl(1)]] evolvesJ_I [OF evolves_socketError [OF evolves_refl(1)]]
    by (cases e) (simp_all add: handle_def)
qed

section \<open>The generation watermark\<close>

fun dbl_rat :: "qdouble \<Rightarrow> rat" where
  "dbl_rat (Finite r) = r"
| "dbl_rat _ = 0"

definition journalInv :: "string \<Rightarrow> migrationController \<Rightarrow> bool" where
  "journalInv sid s \<longleftrightarrow> dbl_isfinite (watermark (c_journals s sid)) \<and> offerFinite (c_journals s sid)
     \<and> (m_serverId s = sid \<longrightarrow> offerFinite (m_journal s) \<and> watermark (m_journal s) = watermark (c_journals s sid))"

definition journalLevel :: "string \<Rightarrow> migrationController \<Rightarrow> rat" where
  "journalLevel sid s = dbl_rat (watermark (c_journals s sid))"

lemma steady_facts: "steady j k \<Longrightarrow> watermark k = watermark j \<and> (offerFinite j \<longrightarrow> offerFinite k)"
  by (simp add: steady_def watermark_def)

lemma evolvesJ_level:
  assumes "evolvesJ s t" "journalInv sid s"
  shows "journalInv sid t" "journalLevel sid t = journalLevel sid s"
proof -
  have j: "watermark (m_journal t) = watermark (m_journal s)" "offerFinite (m_journal s) \<longrightarrow> offerFinite (m_journal t)"
    "m_serverId t = m_serverId s" using assms(1) steady_facts by (auto simp: evolvesJ_def)
  have d: "c_journals t sid = c_journals s sid \<or> (sid = m_serverId s \<and> steady (m_journal s) (c_journals t sid))"
    using assms(1) by (simp add: evolvesJ_def)
  then have "watermark (c_journals t sid) = watermark (c_journals s sid)" "offerFinite (c_journals t sid)"
    using assms(2) steady_facts [of "m_journal s" "c_journals t sid"] by (auto simp: journalInv_def)
  then show "journalInv sid t" "journalLevel sid t = journalLevel sid s"
    using j assms(2) by (simp_all add: journalInv_def journalLevel_def)
qed

lemma to_double_eq:
  assumes "dbl_eq (Finite x) (to_double (dbl_int d) v)" "0 < x" "d < 0"
  shows "v = JDouble (Finite x)"
proof (cases v)
  case (JDouble y)
  then show ?thesis using assms(1) by (cases y) simp_all
qed (use assms in \<open>auto simp: dbl_int_def\<close>)

lemma trial_watermark:
  assumes "trialFrom Q u t" "dbl_isfinite (watermark (m_journal u))" "offerFinite (m_journal u)"
  shows "dbl_isfinite (watermark (m_journal t))" "dbl_rat (watermark (m_journal u)) \<le> dbl_rat (watermark (m_journal t))"
    "offerFinite (m_journal t)"
proof -
  let ?v = "obj_value (journalOffer u) ''generation''"
  have j: "m_journal t = recoveryJournalForTrial (m_journal u) ?v"
    and cond: "dbl_le (offeredGeneration (m_journal u)) (watermark (m_journal u))
      \<longrightarrow> sameGenerationRecoveryAllowed Q (m_journal u) (journalOffer u) (digest Q (m_sourceProfile u))"
    using assms(1) by (simp_all add: trialFrom_def Let_def)
  have w: "watermark (m_journal t) = to_double (dbl_int 0) ?v"
    unfolding j watermark_def recoveryJournalForTrial_def by simp
  have g: "offeredGeneration (m_journal u) = to_double (dbl_int (-1)) ?v"
    by (simp add: offeredGeneration_def journalOffer_def)
  obtain a where a: "watermark (m_journal u) = Finite a" using assms(2) by (cases "watermark (m_journal u)") auto
  obtain b where b: "offeredGeneration (m_journal u) = Finite b"
    using assms(3) by (cases "offeredGeneration (m_journal u)") (auto simp: offerFinite_def offeredGeneration_def)
  show "offerFinite (m_journal t)" using assms(3) unfolding j offerFinite_def recoveryJournalForTrial_def by simp
  have same: "is_double ?v \<and> b = a"
    if "sameGenerationRecoveryAllowed Q (m_journal u) (journalOffer u) (digest Q (m_sourceProfile u))"
  proof -
    let ?auth = "to_double (dbl_int (-1)) (obj_value (to_object (obj_value (m_journal u) ''recoveryAuthorization'')) ''generation'')"
    have "generationWhole ?auth" "dbl_eq ?auth (to_double (dbl_int (-2)) (obj_value (m_journal u) ''highestGeneration''))"
      "dbl_eq ?auth (to_double (dbl_int (-3)) ?v)"
      using that by (simp_all add: sameGenerationRecoveryAllowed_def Let_def)
    moreover from this obtain x where x: "?auth = Finite x" "0 < x"
      by (cases ?auth) (auto simp: generationWhole_def dbl_int_def dbl_le_def)
    ultimately have "?v = JDouble (Finite x)" "obj_value (m_journal u) ''highestGeneration'' = JDouble (Finite x)"
      using to_double_eq [of x "-3" ?v] to_double_eq [of x "-2"] by simp_all
    then show ?thesis using a b g by (simp add: watermark_def)
  qed
  have order: "(is_double ?v \<and> b = a) \<or> a < b"
  proof (cases "dbl_le (Finite b) (Finite a)")
    case True
    then show ?thesis using cond same unfolding a b by blast
  qed (auto simp: dbl_le_def not_less)
  show "dbl_isfinite (watermark (m_journal t))" "dbl_rat (watermark (m_journal u)) \<le> dbl_rat (watermark (m_journal t))"
    using order w g a b by (cases ?v; auto simp: dbl_int_def)+
qed

lemma cleanup_watermark:
  "watermark (recoveryJournalAfterCleanup Q d token epoch) = watermark d"
  "offerFinite (recoveryJournalAfterCleanup Q d token epoch)"
  by (simp_all add: recoveryJournalAfterCleanup_def watermark_def offerFinite_def Let_def retiredKeys_def dbl_int_def)

lemma trialFrom_facts:
  assumes "trialFrom Q u t"
  shows "m_serverId t = m_serverId u" "c_journals t = (c_journals u)(m_serverId u := m_journal t)"
  using assms by (simp_all add: trialFrom_def Let_def)

lemma trial_level:
  assumes "trialFrom Q u t" "journalInv sid u"
  shows "journalInv sid t \<and> journalLevel sid u \<le> journalLevel sid t"
proof (cases "sid = m_serverId u")
  case True
  then have "dbl_isfinite (watermark (m_journal u))" "offerFinite (m_journal u)"
    using assms(2) by (auto simp: journalInv_def)
  then show ?thesis using trial_watermark [OF assms(1)] trialFrom_facts [OF assms(1)] True assms(2)
    by (simp add: journalInv_def journalLevel_def)
next
  case False
  then show ?thesis using trialFrom_facts [OF assms(1)] assms(2) by (auto simp: journalInv_def journalLevel_def)
qed

lemma prepare_level:
  assumes "journalInv sid s" "i_readable E"
  shows "journalInv sid (prepare Q E serverId connection allowTrial s)
    \<and> journalLevel sid s \<le> journalLevel sid (prepare Q E serverId connection allowTrial s)"
proof -
  let ?r = "prepareReset E serverId connection allowTrial s"
  obtain c where c: "evolves Q s c" "c_journals ?r = c_journals c"
    using prepareReset_facts(5) [of Q s E serverId connection allowTrial] by blast
  have "journalInv sid c" "journalLevel sid c = journalLevel sid s"
    using evolvesJ_level [OF evolvesJ_I [OF c(1)] assms(1)] by simp_all
  then have r: "journalInv sid ?r" "journalLevel sid ?r = journalLevel sid s"
    using prepareReset_facts(1,2) [of E serverId connection allowTrial s] assms(2) c(2)
    by (auto simp: journalInv_def journalLevel_def migrationJournal_def)
  obtain u where u: "evolves Q ?r u"
    and p: "prepare Q E serverId connection allowTrial s = u \<or> trialFrom Q u (prepare Q E serverId connection allowTrial s)"
    using prepare_outcome [of Q E serverId connection allowTrial s] by blast
  have "journalInv sid u" "journalLevel sid u = journalLevel sid s"
    using evolvesJ_level [OF evolvesJ_I [OF u] r(1)] r(2) by simp_all
  then show ?thesis using p trial_level [of Q u "prepare Q E serverId connection allowTrial s" sid] by auto
qed

lemma cleanup_level:
  assumes "journalInv sid s" "i_readable E"
  shows "journalInv sid (cleanupCompleted Q E serverId token epoch s)
    \<and> journalLevel sid s \<le> journalLevel sid (cleanupCompleted Q E serverId token epoch s)"
proof (cases "evolves Q s (cleanupCompleted Q E serverId token epoch s)")
  case True
  then show ?thesis using evolvesJ_level [OF evolvesJ_I [OF True] assms(1)] by simp
next
  case False
  then show ?thesis using cleanupCompleted_outcome [of Q s E serverId token epoch] assms
    by (auto simp: Let_def journalInv_def journalLevel_def cleanup_watermark migrationJournal_def)
qed

text \<open>An instant at which the journal store can be read.\<close>

definition readableEvent :: "migrationInstant \<times> migrationEvent \<Rightarrow> migrationInstant \<times> migrationEvent" where
  "readableEvent ev = ((fst ev)\<lparr>i_readable := True\<rparr>, snd ev)"

lemma journalInv_reset [simp]:
  "journalInv sid (s\<lparr>c_writes := 0, c_effects := []\<rparr>) = journalInv sid s"
  "journalLevel sid (s\<lparr>c_writes := 0, c_effects := []\<rparr>) = journalLevel sid s"
  by (simp_all add: journalInv_def journalLevel_def)

lemma step_level:
  assumes "journalInv sid s"
  shows "journalInv sid (fst (migrationStep M s (readableEvent ev)))
    \<and> journalLevel sid s \<le> journalLevel sid (fst (migrationStep M s (readableEvent ev)))"
proof -
  let ?s = "s\<lparr>c_writes := 0, c_effects := []\<rparr>" and ?E = "(fst ev)\<lparr>i_readable := True\<rparr>"
  have inv: "journalInv sid ?s" using assms by simp
  have "journalInv sid (handle M ?E (snd ev) ?s) \<and> journalLevel sid ?s \<le> journalLevel sid (handle M ?E (snd ev) ?s)"
  proof (cases "ledgerEvent (snd ev)")
    case True
    then show ?thesis using prepare_level [OF inv, of ?E] cleanup_level [OF inv, of ?E]
      by (cases "snd ev") (simp_all add: handle_def del: journalInv_reset)
  next
    case False
    then show ?thesis using evolvesJ_level [OF handle_evolvesJ inv] by simp
  qed
  then show ?thesis by (simp add: migrationStep_def readableEvent_def Let_def)
qed

interpretation watermark_machine: monotone_machine
  "\<lambda>s ev. migrationStep M s (readableEvent ev)" "journalInv sid" "journalLevel sid" for M sid
  by unfold_locales (use step_level in \<open>blast, blast\<close>)

lemma run_readable:
  "run (migrationStep M) s (map readableEvent es) = run (\<lambda>s ev. migrationStep M s (readableEvent ev)) s es"
  by (induction es arbitrary: s) simp_all

text \<open>A controller that has just been created over existing journals and profiles.\<close>

definition newController :: "serversRepository \<Rightarrow> (string \<Rightarrow> jobject) \<Rightarrow> migrationController" where
  "newController repository journals =
     \<lparr>c_repository = repository, c_journals = journals, c_writes = 0, c_effects = [], m_serverId = [],
      m_activationToken = [], m_pendingActivationToken = [], m_pendingActivationServerId = [],
      m_originalConnection = [], m_sourceProfile = [], m_journal = [], m_observation = [], m_deadline = False,
      m_epoch = 0, m_callbackGeneration = 0, m_startedAt = 0, m_pollAfter = 0, m_initialRx = dbl_int 0,
      m_initialTx = dbl_int 0, m_trial = False, m_busy = False, m_cancelled = False, m_committingProfile = False,
      m_allowTrial = True\<rparr>"

text \<open>
  C7. The stored generation watermark of a server never goes down, whatever sequence of activations, observations,
  replies, cleanups, profile changes and failed writes the controller goes through, as long as the journal store
  can be read. An old signed offer therefore stays refused for good.
\<close>

theorem watermark_never_decreases:
  assumes "sid \<noteq> []" "dbl_isfinite (watermark (journals sid))" "offerFinite (journals sid)"
  shows "dbl_rat (watermark (c_journals (run (migrationStep M) (newController repository journals)
            (map readableEvent es)) sid))
     \<le> dbl_rat (watermark (c_journals (run (migrationStep M) (newController repository journals)
            (map readableEvent (es @ later))) sid))"
proof -
  let ?step = "\<lambda>s ev. migrationStep M s (readableEvent ev)" and ?s = "newController repository journals"
  have "journalInv sid ?s" using assms by (simp add: journalInv_def newController_def)
  then have "journalInv sid (run ?step ?s es)" by (rule watermark_machine.inv_run)
  then have "journalLevel sid (run ?step ?s es) \<le> journalLevel sid (run ?step (run ?step ?s es) later)"
    by (rule watermark_machine.level_run)
  then show ?thesis by (simp add: journalLevel_def run_readable)
qed

section \<open>Repeated attempts\<close>

definition authorized :: "jobject \<Rightarrow> bool" where
  "authorized j \<longleftrightarrow> obj_value j ''recoveryAuthorization'' \<noteq> JUndefined"

text \<open>An authorization for a server, durable or in the memory of the controller.\<close>

definition recoveryCredit :: "string \<Rightarrow> migrationController \<Rightarrow> bool" where
  "recoveryCredit sid s \<longleftrightarrow> authorized (c_journals s sid) \<or> (m_serverId s = sid \<and> authorized (m_journal s))"

fun repeats :: "string \<Rightarrow> migrationEffect \<Rightarrow> bool" where
  "repeats sid (TrialStarted serverId w g) \<longleftrightarrow> serverId = sid \<and> dbl_le g w"
| "repeats sid _ \<longleftrightarrow> False"

definition repeatedTrial :: "string \<Rightarrow> migrationInstant \<times> migrationEvent \<Rightarrow> migrationEffect list \<Rightarrow> bool" where
  "repeatedTrial sid ev out \<longleftrightarrow> list_ex (repeats sid) out"

definition cleanupAccepted :: "string \<Rightarrow> migrationInstant \<times> migrationEvent \<Rightarrow> migrationEffect list \<Rightarrow> bool" where
  "cleanupAccepted sid ev out \<longleftrightarrow> CleanupAccepted sid \<in> set out"

lemma evolvesJ_credit: "evolvesJ s t \<Longrightarrow> recoveryCredit sid t \<Longrightarrow> recoveryCredit sid s"
  unfolding evolvesJ_def recoveryCredit_def authorized_def steady_def by metis

lemma repeats_ledger: "repeats sid x \<Longrightarrow> ledgerEffect x"
  by (cases x) simp_all

lemma ledger_only: "list_ex (repeats sid) xs \<longleftrightarrow> list_ex (repeats sid) (filter ledgerEffect xs)"
  using repeats_ledger by (auto simp: list_ex_iff)

lemma cleanup_only: "CleanupAccepted sid \<in> set xs \<longleftrightarrow> CleanupAccepted sid \<in> set (filter ledgerEffect xs)"
  by simp

text \<open>What one handler does to the credit of a server, started with no effects.\<close>

definition balanced :: "string \<Rightarrow> migrationController \<Rightarrow> migrationController \<Rightarrow> bool" where
  "balanced sid s t \<longleftrightarrow>
     (list_ex (repeats sid) (c_effects t) \<longrightarrow> recoveryCredit sid s \<and> \<not> recoveryCredit sid t)
   \<and> (recoveryCredit sid t \<longrightarrow> recoveryCredit sid s \<or> CleanupAccepted sid \<in> set (c_effects t))"

lemma balanced_evolves: "c_effects s = [] \<Longrightarrow> evolvesJ s t \<Longrightarrow> balanced sid s t"
  using evolvesJ_credit [of s t sid] ledger_only [of sid "c_effects t"]
  by (auto simp: balanced_def evolvesJ_def)

lemma allowed_authorized: "sameGenerationRecoveryAllowed Q j offer h \<Longrightarrow> authorized j"
proof (rule ccontr)
  assume "sameGenerationRecoveryAllowed Q j offer h" "\<not> authorized j"
  then have "hasExactKeys (to_object (obj_value j ''recoveryAuthorization'')) authorizationKeys"
    unfolding sameGenerationRecoveryAllowed_def Let_def by blast
  with \<open>\<not> authorized j\<close> show False
    by (simp add: authorized_def hasExactKeys_def obj_keys_def authorizationKeys_def)
qed

lemma balanced_trial:
  assumes "trialFrom Q u t" "filter ledgerEffect (c_effects u) = []" "recoveryCredit sid u \<Longrightarrow> recoveryCredit sid s"
  shows "balanced sid s t"
proof -
  have t: "m_serverId t = m_serverId u" "c_journals t = (c_journals u)(m_serverId u := m_journal t)"
    "\<not> authorized (m_journal t)"
    "filter ledgerEffect (c_effects t) = [TrialStarted (m_serverId u) (watermark (m_journal u)) (offeredGeneration (m_journal u))]"
    and allowed: "dbl_le (offeredGeneration (m_journal u)) (watermark (m_journal u)) \<longrightarrow> authorized (m_journal u)"
    using assms(1,2) allowed_authorized
    by (auto simp: trialFrom_def Let_def authorized_def recoveryJournalForTrial_def)
  have rep: "list_ex (repeats sid) (c_effects t) \<longleftrightarrow> m_serverId u = sid
      \<and> dbl_le (offeredGeneration (m_journal u)) (watermark (m_journal u))"
    unfolding ledger_only [of sid "c_effects t"] t(4) by simp
  have "recoveryCredit sid t \<Longrightarrow> recoveryCredit sid u" "m_serverId u = sid \<Longrightarrow> \<not> recoveryCredit sid t"
    using t by (auto simp: recoveryCredit_def split: if_splits)
  then show ?thesis using rep allowed assms(3) by (auto simp: balanced_def recoveryCredit_def)
qed

lemma balanced_prepare:
  assumes "c_effects s = []"
  shows "balanced sid s (prepare Q E serverId connection allowTrial s)"
proof -
  let ?r = "prepareReset E serverId connection allowTrial s" and ?t = "prepare Q E serverId connection allowTrial s"
  obtain c where c: "evolves Q s c" "c_journals ?r = c_journals c" "c_effects ?r = c_effects c"
    using prepareReset_facts(5) [of Q s E serverId connection allowTrial] by blast
  have ledger: "filter ledgerEffect (c_effects ?r) = []"
    using c assms by (simp add: evolves_def evolvesJ_def)
  have "recoveryCredit sid ?r \<Longrightarrow> recoveryCredit sid c"
    using prepareReset_facts(1,2) [of E serverId connection allowTrial s] c(2)
    by (auto simp: recoveryCredit_def migrationJournal_def authorized_def unavailableJournal_def obj_value_def split: if_splits)
  then have r: "recoveryCredit sid ?r \<Longrightarrow> recoveryCredit sid s"
    using evolvesJ_credit [OF evolvesJ_I [OF c(1)]] by blast
  obtain u where u: "evolves Q ?r u" and t: "?t = u \<or> trialFrom Q u ?t"
    using prepare_outcome [of Q E serverId connection allowTrial s] by blast
  have uc: "recoveryCredit sid u \<Longrightarrow> recoveryCredit sid s" using r evolvesJ_credit [OF evolvesJ_I [OF u]] by blast
  have ul: "filter ledgerEffect (c_effects u) = []" using u ledger by (simp add: evolves_def evolvesJ_def)
  show ?thesis
  proof (cases "?t = u")
    case True
    then show ?thesis using uc ul ledger_only [of sid "c_effects u"] by (simp add: balanced_def)
  next
    case False
    then show ?thesis using t balanced_trial [OF _ ul uc] by blast
  qed
qed

lemma balanced_cleanup:
  assumes "c_effects s = []"
  shows "balanced sid s (cleanupCompleted Q E serverId token epoch s)"
proof (cases "evolves Q s (cleanupCompleted Q E serverId token epoch s)")
  case True
  then show ?thesis using balanced_evolves [OF assms evolvesJ_I [OF True]] by simp
next
  case False
  let ?t = "cleanupCompleted Q E serverId token epoch s"
  have t: "serverId = m_serverId s" "m_serverId ?t = m_serverId s" "c_journals ?t = (c_journals s)(serverId := m_journal ?t)"
    "filter ledgerEffect (c_effects ?t) = [CleanupAccepted serverId]"
    using cleanupCompleted_outcome [of Q s E serverId token epoch] False
    unfolding Let_def assms by (blast, blast, metis, metis append_Nil filter.simps(1))
  have "\<not> list_ex (repeats sid) (c_effects ?t)" unfolding ledger_only [of sid "c_effects ?t"] t(4) by simp
  moreover have "CleanupAccepted serverId \<in> set (c_effects ?t)" using cleanup_only [of serverId "c_effects ?t"] t(4) by simp
  ultimately show ?thesis using t(1-3) by (auto simp: balanced_def recoveryCredit_def split: if_splits)
qed

lemma balanced_handle: "c_effects s = [] \<Longrightarrow> balanced sid s (handle M E e s)"
proof (cases "ledgerEvent e")
  case True
  assume "c_effects s = []"
  then show ?thesis using True balanced_prepare balanced_cleanup by (cases e) (simp_all add: handle_def)
qed (auto intro: balanced_evolves handle_evolvesJ)

interpretation recovery_ledger: credit_machine
  "migrationStep M" "cleanupAccepted sid" "repeatedTrial sid" "recoveryCredit sid" for M sid
proof
  fix e and s :: migrationController
  let ?s = "s\<lparr>c_writes := 0, c_effects := []\<rparr>"
  have "balanced sid ?s (handle M (fst e) (snd e) ?s)" by (rule balanced_handle) simp
  moreover have "recoveryCredit sid ?s = recoveryCredit sid s" by (simp add: recoveryCredit_def)
  ultimately show "repeatedTrial sid e (snd (migrationStep M s e)) \<Longrightarrow>
      (recoveryCredit sid s \<and> \<not> recoveryCredit sid (fst (migrationStep M s e)))
      \<or> cleanupAccepted sid e (snd (migrationStep M s e)) \<and> \<not> recoveryCredit sid (fst (migrationStep M s e))"
    and "recoveryCredit sid (fst (migrationStep M s e)) \<Longrightarrow>
      recoveryCredit sid s \<or> cleanupAccepted sid e (snd (migrationStep M s e))"
    by (auto simp: balanced_def migrationStep_def Let_def repeatedTrial_def cleanupAccepted_def)
qed

text \<open>
  C1. A trial at a generation that is not above the stored watermark is started at most once per accepted native
  cleanup, counting one authorization that may already be stored: over every sequence of events,
  repeated trials of a server are at most the cleanups accepted for it plus that one.
\<close>

theorem repeated_trials_bounded:
  "occurrences (repeatedTrial sid) (migrationStep M) s es
     \<le> of_bool (recoveryCredit sid s) + occurrences (cleanupAccepted sid) (migrationStep M) s es"
  using recovery_ledger.spent_within [of sid M s es] by simp

section \<open>Replies to retired requests\<close>

lemma generation_frame [simp]:
  "m_callbackGeneration (putJournal k v s) = m_callbackGeneration s"
  "m_callbackGeneration (dropJournal ks s) = m_callbackGeneration s"
  "m_callbackGeneration (emit x s) = m_callbackGeneration s"
  "m_callbackGeneration (bumpCallbacks s) = m_callbackGeneration s + 1"
  "m_callbackGeneration (fst (writeMigrationJournal E j s)) = m_callbackGeneration s"
  by (simp_all add: putJournal_def dropJournal_def emit_def bumpCallbacks_def writeMigrationJournal_def Let_def)

lemma generation_persist [simp]:
  "m_callbackGeneration (fst (persist E state s)) = m_callbackGeneration s"
  "m_callbackGeneration (recordFailure Q E reason status s) = m_callbackGeneration s"
  "m_callbackGeneration (clearFailure E s) = m_callbackGeneration s"
  by (simp_all add: persist_fst recordFailure_def clearFailure_def Let_def)

lemma generation_request [simp]:
  "m_callbackGeneration (request Q E path body kind s) = m_callbackGeneration s"
  by (simp add: request_def Let_def split: option.split)

lemma generation_send [simp]:
  "m_callbackGeneration (acknowledge Q E s) = m_callbackGeneration s"
  "m_callbackGeneration (challengeTrial Q E s) = m_callbackGeneration s"
  "m_callbackGeneration (fst (expireStaged E s)) = m_callbackGeneration s"
  "m_callbackGeneration (fst (resumeCommitted Q E s)) = m_callbackGeneration s"
  "m_callbackGeneration (fst (startEnrolment Q E s)) = m_callbackGeneration s"
  "m_callbackGeneration (dropExpiredGrant E s) = m_callbackGeneration s"
  by (simp_all add: acknowledge_def challengeTrial_def expireStaged_def clearTrialEvidence_def resumeCommitted_def
      startEnrolment_def dropExpiredGrant_def Let_def pair_cases)

lemma generation_enrollOrFetch [simp]: "m_callbackGeneration (enrollOrFetch M E s) = m_callbackGeneration s"
  by (simp add: enrollOrFetch_def fetchOrAcknowledge_def enrol_def sendEnrolment_def Let_def pair_cases)

lemma generation_foldl_put [simp]:
  "m_callbackGeneration (foldl (\<lambda>s k. putJournal k (f k) s) s ks) = m_callbackGeneration s"
  by (induction ks arbitrary: s) simp_all

lemma generation_onReply [simp]: "m_callbackGeneration (onReply M E kind reply s) = m_callbackGeneration s"
  by (cases kind) (simp_all add: onReply_def onBootstrap_def onOffer_def onChallenge_def onRenew_def Let_def pair_cases
      split: option.split sum.split)

lemma generation_reply [simp]:
  "m_callbackGeneration (replyReceived M E g sid kind reply s) = m_callbackGeneration s"
  "m_callbackGeneration (replyFailed Q E g reason status s) = m_callbackGeneration s"
  "m_callbackGeneration (socketError Q E g remote s) = m_callbackGeneration s"
  by (simp_all add: replyReceived_def replyFailed_def socketError_def finishRequest_def Let_def)

lemma generation_cancel [simp]:
  "m_callbackGeneration (cancel E s) = m_callbackGeneration s + 1"
  "m_callbackGeneration (cleanupFailed E s) = m_callbackGeneration s + 1"
  "m_callbackGeneration (beginActivation E sid s) = m_callbackGeneration s + 1"
  by (simp_all add: cancel_def cleanupFailed_def beginActivation_def Let_def)

lemma generation_failed [simp]:
  "m_callbackGeneration (failed E s)
     = (if \<not> m_trial s \<or> m_cancelled s then m_callbackGeneration s else m_callbackGeneration s + 1)"
  by (simp add: failed_def Let_def)

text \<open>A handler retires the outstanding requests once, or not at all.\<close>

definition bumps :: "migrationController \<Rightarrow> migrationController \<Rightarrow> bool" where
  "bumps s t \<longleftrightarrow> m_callbackGeneration t = m_callbackGeneration s \<or> m_callbackGeneration t = m_callbackGeneration s + 1"

lemma bumps_commitProfile: "bumps s (commitProfile M E s)"
  by (simp add: bumps_def commitProfile_def Let_def pair_cases)

lemma bumps_observeTrial: "bumps s (observeTrial M E observation s)"
proof -
  have "bumps s (commitProfile M E (s\<lparr>m_initialRx := x, m_initialTx := y\<rparr>))" for x y
    using bumps_commitProfile [of "s\<lparr>m_initialRx := x, m_initialTx := y\<rparr>" M E] by (simp add: bumps_def)
  then show ?thesis using bumps_commitProfile [of s M E] by (simp add: bumps_def observeTrial_def Let_def)
qed

lemma bumps_observe: "bumps s (observe M E sid epoch observation s)"
proof -
  let ?t = "putJournal ''capabilityConfirmed'' (JBool True) (s\<lparr>m_epoch := epoch, m_observation := observation\<rparr>)"
  have "bumps s (observeTrial M E observation ?t)"
    using bumps_observeTrial [of ?t M E observation] by (simp add: bumps_def)
  then show ?thesis by (simp add: bumps_def observe_def Let_def split: option.split)
qed

lemma generation_prepareReset [simp]:
  "m_callbackGeneration (prepareReset E sid connection allow s) = m_callbackGeneration s + 1"
  by (simp add: prepareReset_def Let_def)

lemma generation_startTrial [simp]: "m_callbackGeneration (startTrial Q E connection u) = m_callbackGeneration u"
proof -
  have "m_callbackGeneration (fst (storeRecoveryJournal E j u)) = m_callbackGeneration u" for j
    using storeRecoveryJournal_cases [of E j u] by auto
  then show ?thesis by (simp add: startTrial_def Let_def pair_cases)
qed

lemma generation_prepareStaged [simp]: "m_callbackGeneration (prepareStaged Q E connection u) = m_callbackGeneration u"
  by (simp add: prepareStaged_def rebaseStaged_def Let_def pair_cases)

lemma generation_prepare [simp]:
  "m_callbackGeneration (prepare Q E sid connection allow s) = m_callbackGeneration s + 1"
  by (simp add: prepare_def Let_def pair_cases)

lemma generation_cleanup [simp]:
  "m_callbackGeneration (cleanupCompleted Q E sid token epoch s) = m_callbackGeneration s"
proof -
  have "m_callbackGeneration (fst (storeRecoveryJournal E j s)) = m_callbackGeneration s" for j
    using storeRecoveryJournal_cases [of E j s] by auto
  then show ?thesis by (simp add: cleanupCompleted_def Let_def pair_cases)
qed

lemma bumps_changed: "bumps s (changed M E change s)"
proof -
  have signal: "m_callbackGeneration (onSignal Q E t x)
      \<in> {m_callbackGeneration t, m_callbackGeneration t + 1}" for Q t x
    by (cases x) (simp_all add: onSignal_def serverEdited_def serverRemoved_def)
  have quiet: "onSignal Q E t x = t" if "x = DefaultServerChanged d \<or> x = ServerAdded d" for Q t x d
    using that by (auto simp: onSignal_def)
  obtain r xs where c: "changeProfiles (mg_repository M) (i_uuid E) change (c_repository s) = (r, xs)" by force
  have "\<exists>pre. (\<forall>x \<in> set pre. \<exists>d. x = DefaultServerChanged d \<or> x = ServerAdded d) \<and> (xs = pre \<or> (\<exists>x. xs = pre @ [x]))"
  proof (cases change)
    case (EditProfile sid ob kind)
    then have "xs = [] \<or> xs = [ServerEdited sid]"
      using c by (auto simp: changeProfiles_def editServer_def Let_def split: if_splits option.splits)
    then show ?thesis by (intro exI [of _ "[]"]) auto
  next
    case (RemoveProfile sid)
    then have "(\<exists>i. xs = [ServerRemoved sid i]) \<or> xs = [] \<or> (\<exists>d i. xs = [DefaultServerChanged d, ServerRemoved sid i])"
      using c by (auto simp: changeProfiles_def removeServer_def Let_def split: if_splits option.splits)
    then show ?thesis
      by (elim disjE exE) (rule exI [of _ "[]"], simp, rule exI [of _ "[]"], simp, rule exI [of _ "butlast xs"], auto)
  next
    case (AddProfile sid ob kind)
    then have "xs = [] \<or> (\<exists>d. xs = [ServerAdded d])"
      using c by (auto simp: changeProfiles_def addServer_def Let_def split: if_splits)
    then show ?thesis by (intro exI [of _ "[]"]) auto
  qed
  then obtain pre where pre: "\<forall>x \<in> set pre. \<exists>d. x = DefaultServerChanged d \<or> x = ServerAdded d"
    and xs: "xs = pre \<or> (\<exists>x. xs = pre @ [x])" by blast
  have "foldl (onSignal Q E) t pre = t" for Q t using pre by (induction pre arbitrary: t) (auto simp: onSignal_def)
  then have "foldl (onSignal (mg_qt M) E) (s\<lparr>c_repository := r\<rparr>) xs = s\<lparr>c_repository := r\<rparr>
      \<or> (\<exists>x. foldl (onSignal (mg_qt M) E) (s\<lparr>c_repository := r\<rparr>) xs = onSignal (mg_qt M) E (s\<lparr>c_repository := r\<rparr>) x)"
    using xs by auto
  then show ?thesis
  proof (elim disjE exE)
    fix x
    assume "foldl (onSignal (mg_qt M) E) (s\<lparr>c_repository := r\<rparr>) xs = onSignal (mg_qt M) E (s\<lparr>c_repository := r\<rparr>) x"
    then show ?thesis using signal [of "mg_qt M" "s\<lparr>c_repository := r\<rparr>" x] by (simp add: changed_def c bumps_def)
  qed (simp add: changed_def c bumps_def)
qed

fun retiring :: "migrationEvent \<Rightarrow> bool" where
  "retiring (BeginActivation _) = True"
| "retiring (Prepare _ _ _) = True"
| "retiring Cancel = True"
| "retiring CleanupFailed = True"
| "retiring _ = False"

lemma bumps_handle: "bumps s (handle M E e s)" "retiring e \<Longrightarrow> m_callbackGeneration (handle M E e s) = m_callbackGeneration s + 1"
  using bumps_observe bumps_changed by (cases e; simp add: handle_def bumps_def)+

lemma run_generation:
  "\<exists>n \<le> length es. m_callbackGeneration (run (migrationStep M) s es) = m_callbackGeneration s + of_nat n
     \<and> (list_ex (\<lambda>ev. retiring (snd ev)) es \<longrightarrow> 0 < n)"
proof (induction es arbitrary: s)
  case (Cons ev es)
  let ?t = "fst (migrationStep M s ev)"
  obtain n where n: "n \<le> length es" "m_callbackGeneration (run (migrationStep M) ?t es) = m_callbackGeneration ?t + of_nat n"
    "list_ex (\<lambda>ev. retiring (snd ev)) es \<longrightarrow> 0 < n" using Cons.IH by blast
  have "\<exists>k \<le> 1. m_callbackGeneration ?t = m_callbackGeneration s + of_nat k \<and> (retiring (snd ev) \<longrightarrow> 0 < k)"
    using bumps_handle [where s = "s\<lparr>c_writes := 0, c_effects := []\<rparr>" and M = M and E = "fst ev" and e = "snd ev"]
    by (auto simp: migrationStep_def Let_def bumps_def intro: exI [of _ 0] exI [of _ 1])
  then obtain k where k: "k \<le> 1" "m_callbackGeneration ?t = m_callbackGeneration s + of_nat k" "retiring (snd ev) \<longrightarrow> 0 < k"
    by blast
  then show ?case using n by (intro exI [of _ "k + n"]) (auto simp: algebra_simps)
qed simp

text \<open>
  C14. Once a request has been retired by a cancellation, a new activation, a new preparation or a failed cleanup,
  its reply changes nothing and causes nothing, however many other events (fewer than 2 to the 64) come in
  between and whatever the reply contains.
\<close>

theorem stale_reply_ignored:
  fixes s :: migrationController and M :: migrationServices
  assumes "list_ex (\<lambda>ev. retiring (snd ev)) es" "length es < 2 ^ 64"
  defines "t \<equiv> run (migrationStep M) s es"
  shows "migrationStep M t (E, ReplyReceived (m_callbackGeneration s) sid kind reply)
     = (t\<lparr>c_writes := 0, c_effects := []\<rparr>, [])"
proof -
  obtain n where n: "n \<le> length es" "m_callbackGeneration t = m_callbackGeneration s + of_nat n" "0 < n"
    using run_generation [of es M s] assms(1) unfolding t_def by blast
  have "(of_nat n :: 64 word) \<noteq> 0"
  proof
    assume "(of_nat n :: 64 word) = 0"
    then have "unat (of_nat n :: 64 word) = 0" by simp
    moreover have "unat (of_nat n :: 64 word) = n" using n(1) assms(2) by (simp add: unsigned_of_nat take_bit_nat_eq_self)
    ultimately show False using n(3) by simp
  qed
  then have "m_callbackGeneration s \<noteq> m_callbackGeneration t" using n(2) by simp
  then show ?thesis
    by (simp add: migrationStep_def handle_def replyReceived_def finishRequest_def Let_def)
qed

section \<open>Concrete runs\<close>

definition refInstant :: migrationInstant where
  "refInstant = \<lparr>i_ms = 100000, i_stored = (\<lambda>_. True), i_readable = True, i_nonce = ''nonce'', i_uuid = ''token'',
     i_socket = None, i_logToken = ''log''\<rparr>"

definition refJournals :: "string \<Rightarrow> jobject" where
  "refJournals sid = [(''highestGeneration'', jint 7)]"

definition refEvents :: "(migrationInstant \<times> migrationEvent) list" where
  "refEvents = [(refInstant, BeginActivation ''a''), (refInstant, Prepare ''a'' [] True), (refInstant, CleanupFailed)]"

theorem watermark_never_decreases_witness:
  "7 \<le> dbl_rat (watermark (c_journals (run (migrationStep mg_ref)
     (newController refRepository refJournals) (map readableEvent refEvents)) ''a''))"
proof -
  have j: "dbl_isfinite (watermark (refJournals ''a''))" "offerFinite (refJournals ''a'')"
    "dbl_rat (watermark (refJournals ''a'')) = 7"
    by (simp_all add: refJournals_def watermark_def offerFinite_def obj_value_def dbl_int_def)
  have "dbl_rat (watermark (c_journals (run (migrationStep mg_ref) (newController refRepository refJournals)
          (map readableEvent [])) ''a''))
     \<le> dbl_rat (watermark (c_journals (run (migrationStep mg_ref) (newController refRepository refJournals)
          (map readableEvent ([] @ refEvents))) ''a''))"
    by (rule watermark_never_decreases) (simp_all add: j)
  then show ?thesis by (simp add: newController_def j(3))
qed

theorem stale_reply_ignored_witness:
  "migrationStep mg_ref (run (migrationStep mg_ref) (newController refRepository refJournals) refEvents)
     (refInstant, ReplyReceived 0 ''a'' AckRequest [(''acknowledged'', JBool True)])
   = ((run (migrationStep mg_ref) (newController refRepository refJournals) refEvents)\<lparr>c_writes := 0, c_effects := []\<rparr>, [])"
proof -
  have "list_ex (\<lambda>ev. retiring (snd ev)) refEvents" "length refEvents < 2 ^ 64" by (simp_all add: refEvents_def)
  from stale_reply_ignored [OF this, of mg_ref "newController refRepository refJournals" refInstant "''a''" AckRequest
      "[(''acknowledged'', JBool True)]"]
  show ?thesis by (simp add: newController_def)
qed

section \<open>A journal that cannot be read\<close>

text \<open>
  When the store cannot be read, the preparation goes on with a placeholder; the next recorded failure writes
  it over the stored journal once the store can be written again, and the watermark is lost.
\<close>

lemma unreadable_placeholder:
  "\<not> i_readable E \<Longrightarrow> m_journal (prepareReset E sid connection allow s) = unavailableJournal"
  by (simp add: prepareReset_def Let_def migrationJournal_def)

lemma unreadable_store_overwritten:
  assumes "m_journal s = unavailableJournal" "m_serverId s \<noteq> []" "\<not> m_cancelled s" "i_stored E (c_writes s)" "reason \<noteq> []"
  shows "obj_value (c_journals (recordFailure Q E reason status s) (m_serverId s)) ''highestGeneration'' = JUndefined"
  using assms
  by (simp add: recordFailure_def Let_def writeMigrationJournal_def putJournal_def unavailableJournal_def)
     (simp add: obj_value_def)

end
