(* ===== verification/Migration_Commit.thy ===== *)
theory Migration_Commit
  imports Migration_Safety
begin

text \<open>
  The migration controller composed with the server repository. The controller takes the digest of
  the profile without its storage identifier; \<open>compareAndSwapServer\<close> takes the digest of the stored
  profile, which carries it. The two never agree, so no trial is ever committed; the theory also gives
  concrete services and events on which the theorems about the migration are applied.
\<close>

section \<open>Digests of different objects\<close>

text \<open>
  The profiles that occur are a set \<open>A\<close>. None of them has the digest of any of them without its
  identifier, nor that of the empty object: different objects that occur do not collide.
\<close>

definition strippedProfiles :: "jobject set \<Rightarrow> jobject set" where
  "strippedProfiles A = withoutStorageServerId ` insert [] A"

definition distinctDigests :: "qt \<Rightarrow> jobject set \<Rightarrow> bool" where
  "distinctDigests Q A \<longleftrightarrow> (\<forall>a \<in> A. \<forall>b \<in> strippedProfiles A. digest Q a \<noteq> digest Q b)"

definition profilesIn :: "jobject set \<Rightarrow> serversRepository \<Rightarrow> bool" where
  "profilesIn A r \<longleftrightarrow> ran (m_serverJsonById r) \<subseteq> A"

lemma serverJson_stripped: "profilesIn A r \<Longrightarrow> serverJson r index \<in> strippedProfiles A"
proof -
  assume "profilesIn A r"
  moreover have "[] \<in> strippedProfiles A"
    by (simp add: strippedProfiles_def withoutStorageServerId_def obj_remove_def)
  ultimately show ?thesis
    by (auto simp: serverJson_def Let_def storedJson_def profilesIn_def strippedProfiles_def ran_def split: option.split)
qed

lemma swap_refused:
  assumes "distinctDigests (rs_qt R) A" "profilesIn A r" "p \<in> strippedProfiles A"
  shows "compareAndSwapServer R r sid (digest (rs_qt R) p) profile = ((r, []), False)"
proof (cases "m_serverJsonById r sid")
  case (Some previous)
  then have "previous \<in> A" using assms(2) by (auto simp: profilesIn_def ran_def)
  then have "digest (rs_qt R) previous \<noteq> digest (rs_qt R) p" using assms(1,3) by (simp add: distinctDigests_def)
  then show ?thesis using Some by (simp add: compareAndSwapServer_def)
qed (simp add: compareAndSwapServer_def)

definition sourceInv :: "migrationServices \<Rightarrow> jobject set \<Rightarrow> migrationController \<Rightarrow> bool" where
  "sourceInv M A s \<longleftrightarrow> distinctDigests (mg_qt M) A \<and> m_sourceProfile s \<in> strippedProfiles A
     \<and> (m_trial s \<longrightarrow> (\<exists>p \<in> strippedProfiles A. journalText s ''sourceHash'' = digest (mg_qt M) p))"

text \<open>The repository is left alone and no swap is reported.\<close>

definition untouched :: "migrationController \<Rightarrow> migrationController \<Rightarrow> bool" where
  "untouched s t \<longleftrightarrow> c_repository t = c_repository s \<and> filter swapEffect (c_effects t) = filter swapEffect (c_effects s)"

lemma evolves_source: "evolves (mg_qt M) s t \<Longrightarrow> sourceInv M A s \<Longrightarrow> sourceInv M A t \<and> untouched s t"
  by (auto simp: sourceInv_def untouched_def evolves_def evolvesS_def)

lemma commit_refused:
  assumes "sourceInv M A s" "profilesIn A (c_repository s)" "m_trial s"
  shows "evolves (mg_qt M) s (commitProfile M E s)"
proof -
  let ?Q = "mg_qt M"
  define t where "t = putJournal ''candidateHash'' (JString (digest ?Q (committedProfile M (m_sourceProfile s) (journalOffer s)))) s"
  define u where "u = fst (persist E ''committing'' t)"
  have t: "evolves ?Q s t" by (simp add: t_def evolves_put)
  have u: "evolves ?Q s u" using t by (simp add: u_def evolves_persist)
  have "journalText (fst (persist E state v)) ''sourceHash'' = journalText v ''sourceHash''" for v state
    by (simp add: persist_fst Let_def journalText_def putJournal_def writeMigrationJournal_def)
  then have "journalText u ''sourceHash'' = journalText s ''sourceHash''"
    by (simp add: u_def t_def journalText_def putJournal_def)
  then obtain p where p: "p \<in> strippedProfiles A" "journalText u ''sourceHash'' = digest ?Q p"
    using assms by (auto simp: sourceInv_def)
  have "c_repository u = c_repository s" using u by (simp add: evolves_def evolvesS_def)
  then have cas: "compareAndSwapServer (mg_repository M) (c_repository u) (m_serverId u) (journalText u ''sourceHash'') x
      = ((c_repository u, []), False)" for x
    using swap_refused [of "mg_repository M" A "c_repository u" p] p assms(1,2) by (simp add: sourceInv_def)
  have keep: "u\<lparr>c_repository := c_repository u\<rparr> = u" by simp
  show ?thesis
    using evolves_failed [OF t, of E] evolves_failed [OF u, of E]
    by (simp add: commitProfile_def Let_def pair_cases cas keep flip: t_def u_def) (auto simp: t_def)
qed

lemma observe_source:
  assumes "sourceInv M A s" "profilesIn A (c_repository s)"
  shows "evolves (mg_qt M) s (observe M E sid epoch observation s)"
proof -
  let ?Q = "mg_qt M"
  have trial: "evolves ?Q t (observeTrial M E observation t)" if inv: "sourceInv M A t" and tr: "m_trial t" and pr: "profilesIn A (c_repository t)" for t
  proof -
    let ?t = "if dbl_less (m_initialRx t) (dbl_int 0)
      then t\<lparr>m_initialRx := to_double (dbl_int (-1)) (obj_value observation ''rxBytes''),
             m_initialTx := to_double (dbl_int (-1)) (obj_value observation ''txBytes'')\<rparr> else t"
    have t: "evolves ?Q t ?t" by simp
    have "sourceInv M A ?t" "m_trial ?t" "profilesIn A (c_repository ?t)" using evolves_source [OF t inv] tr pr by auto
    then have "evolves ?Q t (commitProfile M E ?t)" using t commit_refused evolves_trans by blast
    then show ?thesis using t evolves_challenge [OF t] evolves_failed [OF t] by (auto simp: observeTrial_def Let_def)
  qed
  let ?t = "putJournal ''capabilityConfirmed'' (JBool True) (s\<lparr>m_epoch := epoch, m_observation := observation\<rparr>)"
  have t: "evolves ?Q s ?t" by (simp add: evolves_put)
  then have inv: "sourceInv M A ?t" using evolves_source assms(1) by blast
  have "evolves ?Q s (observeTrial M E observation ?t)" if "m_trial s"
    using evolves_trans [OF t trial [OF inv]] that assms(2) by (simp add: putJournal_def)
  moreover have "evolves ?Q s (enrollOrFetch M E (?t\<lparr>m_pollAfter := i\<rparr>))" for i
    using t by (intro evolves_enrollOrFetch) simp
  moreover have "evolves ?Q s (cancel E (recordFailure ?Q E reason 0 s))" for reason
    by (rule evolves_cancel [OF evolves_recordFailure [OF evolves_refl(1)]])
  moreover have "m_trial ?t = m_trial s" by (simp add: putJournal_def)
  ultimately show ?thesis using t by (auto simp: observe_def Let_def split: option.split)
qed

lemma prepare_source:
  assumes "sourceInv M A s" "profilesIn A (c_repository s)"
  shows "sourceInv M A (prepare (mg_qt M) E sid connection allow s) \<and> untouched s (prepare (mg_qt M) E sid connection allow s)"
proof -
  let ?Q = "mg_qt M"
  let ?r = "prepareReset E sid connection allow s" and ?t = "prepare ?Q E sid connection allow s"
  obtain c where c: "evolves ?Q s c" "c_effects ?r = c_effects c" "c_repository ?r = c_repository c"
    using prepareReset_facts(5) [of ?Q s E sid connection allow] by blast
  have r: "sourceInv M A ?r" "untouched s ?r"
    using evolves_source [OF c(1) assms(1)] c(2,3) prepareReset_facts(3,4) [of E sid connection allow s] assms(2)
    by (auto simp: sourceInv_def untouched_def profileOf_def serverJson_stripped)
  obtain u where u: "evolves ?Q ?r u" and t: "?t = u \<or> trialFrom ?Q u ?t"
    using prepare_outcome [of ?Q E sid connection allow s] by blast
  have ui: "sourceInv M A u" "untouched ?r u" using evolves_source [OF u r(1)] by simp_all
  have su: "untouched s u" using ui(2) r(2) by (simp add: untouched_def)
  show ?thesis
  proof (cases "?t = u")
    case True
    then show ?thesis using ui(1) su by simp
  next
    case False
    then have tr: "trialFrom ?Q u ?t" using t by blast
    then have "c_repository ?t = c_repository u" "m_sourceProfile ?t = m_sourceProfile u"
      "filter swapEffect (c_effects ?t) = filter swapEffect (c_effects u)"
      "journalText ?t ''sourceHash'' = digest ?Q (m_sourceProfile u)"
      by (simp_all add: trialFrom_def Let_def recoveryJournalForTrial_def journalText_def)
    then show ?thesis using ui(1) su by (auto simp: sourceInv_def untouched_def)
  qed
qed

lemma cleanup_source:
  assumes "sourceInv M A s" "profilesIn A (c_repository s)"
  shows "sourceInv M A (cleanupCompleted (mg_qt M) E sid token epoch s)
    \<and> untouched s (cleanupCompleted (mg_qt M) E sid token epoch s)"
proof (cases "evolves (mg_qt M) s (cleanupCompleted (mg_qt M) E sid token epoch s)")
  case True
  then show ?thesis using evolves_source assms(1) by blast
next
  case False
  let ?Q = "mg_qt M" let ?t = "cleanupCompleted ?Q E sid token epoch s" let ?d = "migrationJournal E s sid"
  have t: "m_journal ?t = recoveryJournalAfterCleanup ?Q ?d token epoch"
    "c_repository ?t = c_repository s" "m_sourceProfile ?t = m_sourceProfile s" "m_trial ?t = m_trial s"
    "filter swapEffect (c_effects ?t) = filter swapEffect (c_effects s)"
    using cleanupCompleted_outcome [of ?Q s E sid token epoch] False unfolding Let_def by blast+
  have "?t \<noteq> s" using False by auto
  then have "rollbackRecoveryAllowed ''recovery_required'' (digest ?Q (profileOf s sid))
      (jstr (obj_value ?d ''sourceHash'')) (jstr (obj_value ?d ''candidateHash''))"
    by (auto simp: cleanupCompleted_def Let_def split: if_splits)
  then have "jstr (obj_value ?d ''sourceHash'') = digest ?Q (profileOf s sid)" by (simp add: rollbackRecoveryAllowed_def)
  then have "journalText ?t ''sourceHash'' = digest ?Q (profileOf s sid)"
    by (simp add: journalText_def t(1) recoveryJournalAfterCleanup_def Let_def retiredKeys_def)
  moreover have "profileOf s sid \<in> strippedProfiles A" using assms(2) by (simp add: profileOf_def serverJson_stripped)
  ultimately show ?thesis using t(2-5) assms(1) unfolding sourceInv_def untouched_def by metis
qed

text \<open>The profiles as they are changed from outside the controller.\<close>

definition externalChange ::
  "repositoryServices \<Rightarrow> serversRepository \<Rightarrow> migrationInstant \<times> migrationEvent \<Rightarrow> serversRepository" where
  "externalChange R r ev =
     (case snd ev of ProfilesChanged change \<Rightarrow> fst (changeProfiles R (i_uuid (fst ev)) change r) | _ \<Rightarrow> r)"

lemma handle_source:
  assumes "sourceInv M A s" "\<not> list_ex swapEffect (c_effects s)" "profilesIn A (c_repository s)"
  shows "sourceInv M A (handle M E e s) \<and> c_repository (handle M E e s) = externalChange (mg_repository M) (c_repository s) (E, e)
    \<and> \<not> list_ex swapEffect (c_effects (handle M E e s))"
proof -
  let ?Q = "mg_qt M"
  have none: "\<not> list_ex swapEffect xs \<longleftrightarrow> filter swapEffect xs = []" for xs by (induction xs) auto
  have ev: "sourceInv M A t \<and> c_repository t = c_repository s \<and> \<not> list_ex swapEffect (c_effects t)" if "evolves ?Q s t" for t
    using evolves_source [OF that assms(1)] assms(2) by (auto simp: untouched_def none)
  have un: "c_repository t = c_repository s \<and> \<not> list_ex swapEffect (c_effects t)" if "untouched s t" for t
    using that assms(2) by (auto simp: untouched_def none)
  have changed: "sourceInv M A (changed M E change s) \<and> c_repository (changed M E change s)
        = fst (changeProfiles (mg_repository M) (i_uuid E) change (c_repository s))
      \<and> \<not> list_ex swapEffect (c_effects (changed M E change s))" for change
  proof -
    obtain r xs where c: "changeProfiles (mg_repository M) (i_uuid E) change (c_repository s) = (r, xs)" by force
    let ?s = "s\<lparr>c_repository := r\<rparr>"
    have "sourceInv M A ?s" using assms(1) by (simp add: sourceInv_def journalText_def)
    then have "sourceInv M A (foldl (onSignal ?Q E) ?s xs) \<and> untouched ?s (foldl (onSignal ?Q E) ?s xs)"
      by (intro evolves_source evolves_signals evolves_refl)
    then show ?thesis using assms(2) by (simp add: changed_def c untouched_def none)
  qed
  have dl: "evolves ?Q s (failed E (s\<lparr>m_deadline := False\<rparr>))" by (rule evolves_failed) simp
  show ?thesis
    using ev [OF evolves_refl(1)] ev [OF dl] ev [OF observe_source [OF assms(1,3)]] changed
      ev [OF evolves_beginActivation [OF evolves_refl(1)]] ev [OF evolves_cancel [OF evolves_refl(1)]]
      ev [OF evolves_failed [OF evolves_refl(1)]] ev [OF evolves_cleanupFailed [OF evolves_refl(1)]]
      ev [OF evolves_reply [OF evolves_refl(1)]] ev [OF evolves_replyFailed [OF evolves_refl(1)]]
      ev [OF evolves_socketError [OF evolves_refl(1)]] prepare_source [OF assms(1,3)] cleanup_source [OF assms(1,3)] un
    by (cases e) (simp_all add: handle_def externalChange_def)
qed

lemma step_source:
  assumes "sourceInv M A s" "profilesIn A (c_repository s)"
  shows "c_repository (fst (migrationStep M s ev)) = externalChange (mg_repository M) (c_repository s) ev
    \<and> \<not> list_ex swapEffect (snd (migrationStep M s ev)) \<and> sourceInv M A (fst (migrationStep M s ev))"
proof -
  have "sourceInv M A (s\<lparr>c_writes := 0, c_effects := []\<rparr>)" using assms(1) by (simp add: sourceInv_def journalText_def)
  then show ?thesis
    using handle_source [of M A "s\<lparr>c_writes := 0, c_effects := []\<rparr>" "fst ev" "snd ev"] assms(2)
    by (simp add: migrationStep_def Let_def)
qed

text \<open>
  C10. No migration is ever committed. The controller takes the digest of a profile without its storage identifier,
  and the repository compares it with the digest of the stored profile, identifier included. Given only that
  these digests do not collide among the profiles that occur, after any sequence of events the profiles are
  exactly what changes from outside the controller made of them, and no step reports a swapped profile.
\<close>

theorem migration_never_commits:
  assumes "distinctDigests (mg_qt M) A"
    and "\<And>i. profilesIn A (foldl (externalChange (mg_repository M)) repository (take i es))"
  shows "c_repository (run (migrationStep M) (newController repository journals) es)
      = foldl (externalChange (mg_repository M)) repository es
    \<and> list_all (\<lambda>out. \<not> list_ex swapEffect out) (outs (migrationStep M) (newController repository journals) es)"
proof -
  have main: "c_repository (run (migrationStep M) s es) = foldl (externalChange (mg_repository M)) (c_repository s) es
    \<and> list_all (\<lambda>out. \<not> list_ex swapEffect out) (outs (migrationStep M) s es)"
    if "sourceInv M A s" "\<And>i. profilesIn A (foldl (externalChange (mg_repository M)) (c_repository s) (take i es))" for s
    using that
  proof (induction es arbitrary: s)
    case (Cons ev es)
    have "profilesIn A (c_repository s)" using Cons.prems(2) [of 0] by simp
    then have st: "c_repository (fst (migrationStep M s ev)) = externalChange (mg_repository M) (c_repository s) ev"
      "\<not> list_ex swapEffect (snd (migrationStep M s ev))" "sourceInv M A (fst (migrationStep M s ev))"
      using step_source [OF Cons.prems(1)] by simp_all
    have "profilesIn A (foldl (externalChange (mg_repository M)) (c_repository (fst (migrationStep M s ev))) (take i es))" for i
      using Cons.prems(2) [of "Suc i"] st(1) by simp
    then show ?case using Cons.IH [OF st(3)] st(1,2) by simp
  qed simp
  have "sourceInv M A (newController repository journals)"
    using assms(1) by (simp add: sourceInv_def newController_def strippedProfiles_def withoutStorageServerId_def obj_remove_def)
  then show ?thesis using main [of "newController repository journals"] assms(2) by (simp add: newController_def)
qed

section \<open>A concrete run\<close>

text \<open>Services whose digest tells apart the objects that occur.\<close>

definition mg_commit :: migrationServices where
  "mg_commit = mg_ref\<lparr>mg_repository := (mg_repository mg_ref)\<lparr>rs_qt := (mg_qt mg_ref)
     \<lparr>q_sha256 := (\<lambda>s. s), q_jsonText := (\<lambda>ob. if obj_contains ob storageServerId then ''1'' else ''0'')\<rparr>\<rparr>\<rparr>"

definition refProfiles :: "jobject set" where
  "refProfiles = {embedStorageServerId ''a'' (refProfile ''home''), embedStorageServerId ''u2'' (refProfile ''work'')}"

lemma ref_digests: "distinctDigests (mg_qt mg_commit) refProfiles"
proof -
  have "digest (mg_qt mg_commit) ob = to_hex (if obj_contains ob storageServerId then ''1'' else ''0'')" for ob
    by (simp add: digest_def mg_commit_def)
  moreover have "to_hex ''1'' \<noteq> to_hex ''0''" by code_simp
  moreover have "obj_contains (embedStorageServerId sid ob) storageServerId" for sid ob
    by (simp add: embedStorageServerId_def)
  ultimately show ?thesis by (auto simp: distinctDigests_def strippedProfiles_def refProfiles_def)
qed

lemma external_none:
  "list_all (\<lambda>ev. \<forall>c. snd ev \<noteq> ProfilesChanged c) es \<Longrightarrow> foldl (externalChange R) r es = r"
  by (induction es) (auto simp: externalChange_def split: migrationEvent.split)

theorem migration_never_commits_witness:
  "m_serverJsonById (c_repository (run (migrationStep mg_commit) (newController refRepository refJournals) refEvents)) ''a''
     = Some (embedStorageServerId ''a'' (refProfile ''home''))"
proof -
  have none: "list_all (\<lambda>ev. \<forall>c. snd ev \<noteq> ProfilesChanged c) refEvents" by (simp add: refEvents_def)
  have prefix: "foldl (externalChange R) refRepository (take i refEvents) = refRepository" for R i
    using none by (intro external_none) (auto simp: list_all_iff dest: in_set_takeD)
  have "profilesIn refProfiles refRepository" by (auto simp: profilesIn_def refProfiles_def refRepository_eq ran_def)
  then have "c_repository (run (migrationStep mg_commit) (newController refRepository refJournals) refEvents)
      = foldl (externalChange (mg_repository mg_commit)) refRepository refEvents"
    using migration_never_commits [OF ref_digests, of refRepository refEvents refJournals] by (simp add: prefix)
  also have "\<dots> = refRepository" using none by (rule external_none)
  finally show ?thesis by (simp add: refRepository_eq)
qed

end
