(* ===== verification/Spec2Isabelle.thy ===== *)
theory Spec2Isabelle
  imports Policy_Lifecycle Route_Matcher Managed_Resolve Exclusion_Transaction Remote_Log_Health
    Update_Manifest Operator_Command Android_Discovery Managed_Routing Migration_Commit
begin

text \<open>
  Verification of the decision logic of the Amnezia VPN client.

  \<^bold>\<open>The program.\<close> The client is a Qt application. A server can send it a managed policy: a list of
  sites and IPv4 routes that bypass or use the tunnel. The client validates that policy, stores it,
  resolves its domains, applies the routes through a privileged daemon and can explain which rule
  decides about a target. It keeps the profiles of its servers in a repository, and can move a profile to
  a newer transport by a signed offer that a trial connection has to prove first. Beside that it updates
  itself from signed manifests, uploads sanitised logs, answers an operator's command line over a local
  socket and, on Android, restores sessions that the native service kept. The development covers the parts
  of this that decide; sockets, files, processes and user interface are outside.

  \<^bold>\<open>Conventions.\<close> A struct is a record, an enum a datatype, a quint32 or quint64 that can wrap a
  32 or 64 bit word. A QString or QByteArray is a list of characters, a QJsonObject its members in key
  order, a QDateTime an optional instant in milliseconds. A method that changes an object returns the
  changed record with its result; a method under a mutex is one step, so that an interleaving is a list
  of events. Code outside the repository is an argument: the services of Qt are the fields of the
  record \<open>qt\<close> (and of \<open>operatorServices\<close>, \<open>nativeServices\<close>, \<open>repositoryServices\<close>, \<open>migrationServices\<close>), platform
  callbacks are functions, and the clock, random numbers and outcomes of writes at an event of the
  migration are the record \<open>migrationInstant\<close>. What the code relies on is a named predicate over them
  (\<open>qt_routes_ok\<close>, \<open>qt_policy_ok\<close>, \<open>callbacks_ok\<close>, \<open>services_ok\<close>, ...), and \<open>Qt_Reference\<close> gives an instance that
  satisfies the Qt predicates and on which the witnesses compute.

  \<^bold>\<open>The library.\<close>
  \<^item> \<open>Base\<close>: numerals, splitting, the collecting loop, machines driven by events and their interfaces:
    \<open>invariant_machine\<close>, \<open>monotone_machine\<close>, \<open>one_shot_machine\<close> and \<open>credit_machine\<close>.
  \<^item> \<open>Qt_Types\<close>, \<open>Qt_Reference\<close>: the vocabulary of Qt, its documented behaviour, a concrete instance.
  \<^item> \<open>Json_Scanner\<close>: the hand-written scanner of flat JSON objects that three headers repeat.

  \<^bold>\<open>Managed policy\<close> (\<open>core/utils/managedRoutePolicy.h\<close>).
  \<^item> \<open>Ipv4_Prefix\<close>: masks, overlap and containment of prefixes; the interval tests mean what they say on
    sets of addresses (C25).
  \<^item> \<open>Managed_Routes\<close>: the route grammar and its safety filter, exactly characterised
    (C11); canonical texts are fixed points and name their prefix
    (C26); stored texts (C27) and lists. The locale
    \<open>route_canonicaliser\<close> is the interface the list loop needs of the canonical form.
  \<^item> \<open>Managed_Policy\<close>: canonical source rules, their budgets (C16) and idempotence
    (C28), digests, metadata.
  \<^item> \<open>Policy_Lifecycle\<close>: admission never rolls back (C17), binds a policy to its digest
    and validity (C18), also over every history of downloads (C6);
    storage round trip (C29), fail-closed effectiveness (C30).
  \<^item> \<open>Server_Routing\<close> (\<open>headless/serverRoutingPolicy.cpp\<close>): the routes that the headless client applies are those of
    resolved sites of the admitted list (C2); the test for a missing list is dead.

  \<^bold>\<open>Routes at run time.\<close>
  \<^item> \<open>Route_Matcher\<close> (\<open>core/utils/routeRuleMatcher.cpp\<close>): the bounded scanner equals its reference
    (C31), the matcher returns the first best rule (C12), routable client
    routes avoid special ranges (C32), coverage counters.
  \<^item> \<open>Exclusion_Transaction\<close> (\<open>daemon/exclusionpolicytransaction.h\<close>): replacing the exclusions is all or nothing
    (C5), bypasses open only behind the fence (C33), and it succeeds
    when the platform does (C34).
  \<^item> \<open>Dns_Convergence\<close>, \<open>Managed_Resolve\<close> (\<open>core/utils/managedDnsConvergence.h\<close>,
    \<open>core/controllers/connectionController.cpp\<close>): the resolution cycle ends (C13), ignores stale
    answers (C24), stores only safe routes (C35); reconnects are paced
    (C36).

  \<^bold>\<open>Profiles and migration.\<close>
  \<^item> \<open>Servers_Repository\<close> (\<open>core/repositories/secureServersRepository.cpp\<close>, \<open>core/utils/serverConfigUtils.cpp\<close>): every
    operation on the stored profiles; identifiers, profiles and default server stay consistent
    (C9) and survive a restart (C20).
  \<^item> \<open>Managed_Routing\<close> (the same file and \<open>core/controllers/connectionController.cpp\<close>): the routes sent to the privileged
    service are exactly those of the sites of an effective policy, and the bypass mode is forced exactly when
    there are any (C3).
  \<^item> \<open>Migration_Offer\<close> (\<open>common/awgMigration.h\<close>, \<open>awgMigrationRecovery.h\<close>, \<open>awgMigrationTransport.h\<close>,
    \<open>awgBackendObservation.h\<close>): signed envelopes, offers, recovery authorizations and the framing of replies
    (C23); what an accepted offer changes in a configuration (C40).
  \<^item> \<open>Migration_Controller\<close> (\<open>core/controllers/awgMigrationController.cpp\<close>): the controller as a machine, one
    definition per method and callback, with the relations that say what a handler leaves alone.
  \<^item> \<open>Migration_Safety\<close>: the generation watermark never falls while the journal can be read
    (C7), a generation is tried again only after a proven cleanup
    (C1), replies to retired requests are ignored (C14), and how an
    unreadable store loses the watermark.
  \<^item> \<open>Migration_Commit\<close>: the digests that the controller and the repository compare are taken of different texts, so
    that the swap of a proven profile never happens (C10).

  \<^bold>\<open>Logs, updates, operator, Android.\<close>
  \<^item> \<open>Remote_Log_Health\<close> (\<open>core/utils/remoteLogBatchHealth.h\<close>, \<open>remoteLogReceipt.h\<close>): when uploads open again
    after a change of secrets (C22), and that the bounded union of secrets loses none.
  \<^item> \<open>Update_Manifest\<close>, \<open>Update_Policy\<close> (\<open>core/controllers/updateController.cpp\<close>,
    \<open>core/utils/selfhostedUpdatePolicy.h\<close>): an offered update was verified, admitted, newer and safe
    (C8), generations bind one payload (C19), policies are well
    formed, versions have one spelling, the rollout bucket is a modulus without overflow
    (C37).
  \<^item> \<open>Operator_Command\<close> (\<open>core/utils/operatorCommand.h\<close>, \<open>awgMaintenanceCommand.h\<close>): what the wire accepts
    (C15) and preserves, error messages that leak nothing (C38), the maintenance
    argument and the number of passes of its parser (C39).
  \<^item> \<open>Native_Session\<close>, \<open>Android_Discovery\<close> (\<open>core/utils/nativeSessionRestore.h\<close>,
    \<open>androidServiceDiscovery.h\<close>): one refresh gives at most one start (C4), one request consumes
    at most one snapshot (C21), and a registered start is settled once.

  \<^bold>\<open>Loops and bounds.\<close> Every loop is a total function: structural recursion, or a termination proof by
  the length of the remaining text for the scanners. No definition needs fuel; the five passes of
  C39 are a bound proved of the unbounded loop, not a limit of the model. Generations and
  revisions of the Android coordinator and of the migration controller are 64-bit words and wrap as in the
  source; the theorem on retired requests therefore speaks of fewer than 2 to the 64 events.

  \<^bold>\<open>Not modelled.\<close> The server side of the migration (journal, plan, policies and runtimes under
  \<open>server_scripts/awg_migration\<close>), the connection health probes, the log sanitizer's regular expressions, download
  and installation of updates, the typed configuration models and link formats are not modelled. The user
  interface, platform back ends, privileged service, SSH installers, storage and vendored libraries consist
  of calls to services outside the repository. \<open>boundedQueuedSnapshot.h\<close> would need a model of Qt's event
  loop. In the modelled headers, characters are eight bits wide: properties of text beyond that range, such
  as surrogate pairs, are parameters.
\<close>

end
